(* ===== verification/Go_Prelude.thy ===== *)
theory Go_Prelude
  imports Main "HOL-Library.Word"
begin

text \<open>
  What the other theories share: the fixed-width integers of the Go source, the pieces of the
  Go standard library it calls on strings and numbers (\<open>strconv.Itoa\<close>, \<open>fmt.Sprintf\<close> with
  \<open>%d\<close>, \<open>strings.ReplaceAll\<close> of one character, \<open>strings.ToUpper\<close>, \<open>len\<close>, slicing), and general lemmas on
  lists and words.  A Go \<open>string\<close> is the list of its bytes; a Go pointer that may be nil is an
  \<open>option\<close>; a slice whose nil value matters is an \<open>option\<close> of a list (\<open>slice\<close>).
\<close>

section \<open>Integers and slices\<close>

type_synonym int32 = "32 word"
type_synonym int64 = "64 word"

text \<open>The \<open>int\<close> of a 64-bit Go program that an \<open>int32\<close> is converted to: its signed value.\<close>

abbreviation goint :: "int32 \<Rightarrow> int" where
  "goint w \<equiv> sint w"

type_synonym 'a slice = "'a list option"

text \<open>\<open>range\<close> and \<open>len\<close> do not distinguish a nil slice from an empty one.\<close>

definition elems :: "'a slice \<Rightarrow> 'a list" where
  "elems s = (case s of None \<Rightarrow> [] | Some xs \<Rightarrow> xs)"

lemma elems_simps [simp]: "elems None = []" "elems (Some xs) = xs"
  by (simp_all add: elems_def)

lemma sint32_bounds: "- (2 ^ 31) \<le> sint (w :: int32) \<and> sint w < 2 ^ 31"
  using sint_greater_eq [of w] sint_less [of w] by simp

section \<open>Decimal numbers\<close>

definition digit_char :: "nat \<Rightarrow> char" where
  "digit_char d = char_of (48 + d)"

definition char_digit :: "char \<Rightarrow> nat" where
  "char_digit c = of_char c - 48"

fun show_nat :: "nat \<Rightarrow> string" where
  "show_nat n = (if n < 10 then [digit_char n] else show_nat (n div 10) @ [digit_char (n mod 10)])"

declare show_nat.simps [simp del]

definition read_nat :: "string \<Rightarrow> nat" where
  "read_nat s = foldl (\<lambda>acc c. 10 * acc + char_digit c) 0 s"

text \<open>\<open>strconv.Itoa\<close>, and \<open>fmt.Sprintf\<close> with the verb \<open>%d\<close>.\<close>

definition Itoa :: "int \<Rightarrow> string" where
  "Itoa i = (if i < 0 then CHR ''-'' # show_nat (nat (- i)) else show_nat (nat i))"

definition Atoi :: "string \<Rightarrow> int" where
  "Atoi s = (case s of [] \<Rightarrow> 0
     | c # t \<Rightarrow> if c = CHR ''-'' then - int (read_nat t) else int (read_nat s))"

lemma char_digit_digit_char [simp]: "d < 10 \<Longrightarrow> char_digit (digit_char d) = d"
  by (simp add: char_digit_def digit_char_def)

lemma digit_char_code: "d < 10 \<Longrightarrow> (of_char (digit_char d) :: nat) = 48 + d"
  by (simp add: digit_char_def)

lemma digit_char_inj: "d < 10 \<Longrightarrow> e < 10 \<Longrightarrow> digit_char d = digit_char e \<longleftrightarrow> d = e"
  using char_digit_digit_char [of d] char_digit_digit_char [of e] by metis

lemma show_nat_nonempty [simp]: "show_nat n \<noteq> []"
  by (subst show_nat.simps) simp

lemma read_show_nat [simp]: "read_nat (show_nat n) = n"
proof (induction n rule: show_nat.induct)
  case (1 n)
  then show ?case
    by (subst show_nat.simps) (simp add: read_nat_def)
qed

lemma show_nat_inject [simp]: "show_nat m = show_nat n \<longleftrightarrow> m = n"
  using read_show_nat [of m] read_show_nat [of n] by metis

lemma set_show_nat: "set (show_nat n) \<subseteq> digit_char ` {..<10}"
proof (induction n rule: show_nat.induct)
  case (1 n)
  then show ?case
    by (subst show_nat.simps) auto
qed

lemma digit_char_neq:
  assumes "d < 10" and "(of_char c :: nat) < 48 \<or> 57 < (of_char c :: nat)"
  shows "digit_char d \<noteq> c"
  using assms digit_char_code [OF assms(1)] by auto

lemma show_nat_no_char:
  assumes "(of_char c :: nat) < 48 \<or> 57 < (of_char c :: nat)"
  shows "c \<notin> set (show_nat n)"
  using set_show_nat [of n] digit_char_neq [OF _ assms] by fastforce

lemma hd_show_nat_no_char:
  assumes "(of_char c :: nat) < 48 \<or> 57 < (of_char c :: nat)"
  shows "hd (show_nat n) \<noteq> c"
  using show_nat_no_char [OF assms, of n] hd_in_set [OF show_nat_nonempty [of n]] by metis

lemma show_nat_hd: "show_nat n = c # t \<Longrightarrow> c \<noteq> CHR ''-''"
  using hd_show_nat_no_char [of "CHR ''-''" n] by auto

lemma Atoi_Itoa [simp]: "Atoi (Itoa i) = i"
proof (cases "i < 0")
  case True
  then show ?thesis by (simp add: Itoa_def Atoi_def)
next
  case False
  obtain c t where ct: "show_nat (nat i) = c # t"
    by (cases "show_nat (nat i)") auto
  then have "read_nat (c # t) = nat i"
    using read_show_nat [of "nat i"] by simp
  with False ct show_nat_hd [OF ct] show ?thesis
    by (simp add: Itoa_def Atoi_def)
qed

lemma Itoa_inject [simp]: "Itoa i = Itoa j \<longleftrightarrow> i = j"
  using Atoi_Itoa [of i] Atoi_Itoa [of j] by metis

lemma Itoa_nonempty [simp]: "Itoa i \<noteq> []"
  by (simp add: Itoa_def)

section \<open>Strings\<close>

text \<open>\<open>strings.ReplaceAll s old new\<close> for one-character \<open>old\<close> and \<open>new\<close>.\<close>

definition ReplaceAll :: "char \<Rightarrow> char \<Rightarrow> string \<Rightarrow> string" where
  "ReplaceAll old new s = map (\<lambda>c. if c = old then new else c) s"

definition is_ascii :: "char \<Rightarrow> bool" where
  "is_ascii c \<longleftrightarrow> (of_char c :: nat) < 128"

definition ascii_upper :: "char \<Rightarrow> char" where
  "ascii_upper c = (let n = (of_char c :: nat) in if 97 \<le> n \<and> n \<le> 122 then char_of (n - 32) else c)"

text \<open>
  \<open>strings.ToUpper\<close> maps the letters of an ASCII string itself and any other string rune by rune
  through the tables of package \<open>unicode\<close>; the second case is the parameter \<open>uni\<close>.
\<close>

definition ToUpper :: "(string \<Rightarrow> string) \<Rightarrow> string \<Rightarrow> string" where
  "ToUpper uni s = (if list_all is_ascii s then map ascii_upper s else uni s)"

section \<open>Lists\<close>

text \<open>A separator that does not occur in the first parts splits a string in one way only.\<close>

lemma split_at_unique:
  assumes "u @ c # v = u' @ c # v'" and "c \<notin> set u" and "c \<notin> set u'"
  shows "u = u' \<and> v = v'"
  using assms by (induction u arbitrary: u') (auto simp: Cons_eq_append_conv)

lemma map_of_upd_keys: "map fst (map (\<lambda>(a, b). (a, f a b)) ps) = map fst ps"
  by (induction ps) auto

lemma distinct_concat_map_singleton: "concat (map (\<lambda>x. [f x]) xs) = map f xs"
  by (induction xs) auto

end
