(* ===== verification/Cron_Schedule.thy ===== *)
theory Cron_Schedule
  imports Go_Prelude
begin

text \<open>
  The schedule check of the webhook, \<open>isValidCronSchedule\<close> in \<open>api/v1alpha1/backuptask_webhook.go\<close>.
  The pattern is kept as the string the source holds; the part of Go's package \<open>regexp\<close> it uses
  (groups, alternation, one-range classes, escapes, the anchors at both ends) is a small compiler
  and a matcher that returns what is left of the text after every way to match a prefix.  The
  lemmas lead to the exact set of accepted schedules, printed from a five-field description.
\<close>

section \<open>Regular expressions\<close>

datatype rx = Eps | Lit char | Rng char char | Cat rx rx | Alt rx rx

definition in_range :: "char \<Rightarrow> char \<Rightarrow> char \<Rightarrow> bool" where
  "in_range a b x \<longleftrightarrow> (of_char a :: nat) \<le> of_char x \<and> (of_char x :: nat) \<le> of_char b"

fun rests :: "rx \<Rightarrow> string \<Rightarrow> string list" where
  "rests Eps s = [s]"
| "rests (Lit c) s = (case s of [] \<Rightarrow> [] | x # t \<Rightarrow> if x = c then [t] else [])"
| "rests (Rng a b) s = (case s of [] \<Rightarrow> [] | x # t \<Rightarrow> if in_range a b x then [t] else [])"
| "rests (Cat r q) s = concat (map (rests q) (rests r s))"
| "rests (Alt r q) s = rests r s @ rests q s"

text \<open>The language a regular expression stands for, independent of the matcher.\<close>

fun words :: "rx \<Rightarrow> string set" where
  "words Eps = {[]}"
| "words (Lit c) = {[c]}"
| "words (Rng a b) = {[x] | x. in_range a b x}"
| "words (Cat r q) = {u @ v | u v. u \<in> words r \<and> v \<in> words q}"
| "words (Alt r q) = words r \<union> words q"

lemma rests_words: "t \<in> set (rests r s) \<longleftrightarrow> (\<exists>u \<in> words r. s = u @ t)"
proof (induction r arbitrary: s t)
  case (Cat r q)
  have "t \<in> set (rests (Cat r q) s) \<longleftrightarrow> (\<exists>m. (\<exists>u \<in> words r. s = u @ m) \<and> (\<exists>v \<in> words q. m = v @ t))"
    using Cat.IH by auto
  also have "\<dots> \<longleftrightarrow> (\<exists>w \<in> words (Cat r q). s = w @ t)"
    by (fastforce intro: exI)
  finally show ?case .
qed (auto split: list.splits if_splits)

lemma full_match_words: "[] \<in> set (rests r s) \<longleftrightarrow> s \<in> words r"
  by (auto simp: rests_words)

text \<open>
  The pattern compiler.  \<open>rx_alt\<close> and \<open>rx_cat\<close> read an alternation and a concatenation and return
  what is left of the pattern; \<open>None\<close> is a syntax outside the part modelled.  The fuel is the
  length of the pattern: every call below consumes a character or passes from an alternation to
  its first concatenation, so twice the length is enough.
\<close>

definition backslash :: char where
  "backslash = CHR 0x5C"

definition rx_special :: "char \<Rightarrow> bool" where
  "rx_special c \<longleftrightarrow> c \<in> set ''.*+?^]{}''"

fun rx_alt :: "nat \<Rightarrow> string \<Rightarrow> (rx \<times> string) option"
  and rx_cat :: "nat \<Rightarrow> string \<Rightarrow> (rx \<times> string) option" where
  "rx_alt 0 s = None"
| "rx_alt (Suc n) s = (case rx_cat n s of
       None \<Rightarrow> None
     | Some (r, t) \<Rightarrow> (case t of
           [] \<Rightarrow> Some (r, t)
         | c # u \<Rightarrow> if c = CHR ''|''
             then map_option (\<lambda>(q, v). (Alt r q, v)) (rx_alt n u)
             else Some (r, t)))"
| "rx_cat 0 s = None"
| "rx_cat (Suc n) s = (case s of
       [] \<Rightarrow> Some (Eps, [])
     | c # t \<Rightarrow>
         if c = CHR '')'' \<or> c = CHR ''|'' \<or> c = CHR ''$'' then Some (Eps, s)
         else if c = CHR ''('' then
           (case rx_alt n t of
              Some (r, d # u) \<Rightarrow> if d = CHR '')''
                then map_option (\<lambda>(q, v). (Cat r q, v)) (rx_cat n u) else None
            | _ \<Rightarrow> None)
         else if c = CHR ''['' then
           (case t of
              a # d # b # e # u \<Rightarrow> if d = CHR ''-'' \<and> e = CHR '']''
                then map_option (\<lambda>(q, v). (Cat (Rng a b) q, v)) (rx_cat n u) else None
            | _ \<Rightarrow> None)
         else if c = backslash then
           (case t of
              [] \<Rightarrow> None
            | a # u \<Rightarrow> map_option (\<lambda>(q, v). (Cat (Lit a) q, v)) (rx_cat n u))
         else if rx_special c then None
         else map_option (\<lambda>(q, v). (Cat (Lit c) q, v)) (rx_cat n t))"

definition rx_compile :: "string \<Rightarrow> rx option" where
  "rx_compile p = (case p of
       [] \<Rightarrow> None
     | c # t \<Rightarrow> if c = CHR ''^'' then
         (case rx_cat (2 * length p) t of
            Some (r, u) \<Rightarrow> if u = ''$'' then Some r else None
          | None \<Rightarrow> None)
         else None)"

text \<open>
  \<open>regexp.MatchString\<close> on an anchored pattern; the error it returns for a pattern it cannot
  compile is dropped by its only caller, which then gets \<open>false\<close>.
\<close>

definition MatchString :: "string \<Rightarrow> string \<Rightarrow> bool" where
  "MatchString p s = (case rx_compile p of None \<Rightarrow> False | Some r \<Rightarrow> [] \<in> set (rests r s))"

section \<open>The schedule pattern\<close>

text \<open>The raw string of the source, cut at its backslashes.\<close>

definition cronRegex :: string where
  "cronRegex =
     ''^('' @ [backslash] @ ''*|([0-9]|1[0-9]|2[0-9]|3[0-9]|4[0-9]|5[0-9])|'' @ [backslash] @ ''*'' @ [backslash]
       @ ''/([0-9]|1[0-9]|2[0-9]|3[0-9]|4[0-9]|5[0-9])) ''
     @ ''('' @ [backslash] @ ''*|([0-9]|1[0-9]|2[0-3])|'' @ [backslash] @ ''*'' @ [backslash]
       @ ''/([0-9]|1[0-9]|2[0-3])) ''
     @ ''('' @ [backslash] @ ''*|([1-9]|1[0-9]|2[0-9]|3[0-1])|'' @ [backslash] @ ''*'' @ [backslash]
       @ ''/([1-9]|1[0-9]|2[0-9]|3[0-1])) ''
     @ ''('' @ [backslash] @ ''*|([1-9]|1[0-2])|'' @ [backslash] @ ''*'' @ [backslash]
       @ ''/([1-9]|1[0-2])) ''
     @ ''('' @ [backslash] @ ''*|([0-6])|'' @ [backslash] @ ''*'' @ [backslash] @ ''/([0-6]))$''"

definition isValidCronSchedule :: "string \<Rightarrow> bool" where
  "isValidCronSchedule schedule = MatchString cronRegex schedule"

text \<open>The expression the pattern compiles to, written by its parts.\<close>

definition ones :: "nat \<Rightarrow> nat \<Rightarrow> rx" where
  "ones a b = Cat (Rng (digit_char a) (digit_char b)) Eps"

definition tens :: "nat \<Rightarrow> nat \<Rightarrow> nat \<Rightarrow> rx" where
  "tens k a b = Cat (Lit (digit_char k)) (Cat (Rng (digit_char a) (digit_char b)) Eps)"

definition minute_rx :: rx where
  "minute_rx = Alt (ones 0 9) (Alt (tens 1 0 9) (Alt (tens 2 0 9) (Alt (tens 3 0 9)
     (Alt (tens 4 0 9) (tens 5 0 9)))))"

definition hour_rx :: rx where
  "hour_rx = Alt (ones 0 9) (Alt (tens 1 0 9) (tens 2 0 3))"

definition dom_rx :: rx where
  "dom_rx = Alt (ones 1 9) (Alt (tens 1 0 9) (Alt (tens 2 0 9) (tens 3 0 1)))"

definition month_rx :: rx where
  "month_rx = Alt (ones 1 9) (tens 1 0 2)"

definition dow_rx :: rx where
  "dow_rx = ones 0 6"

definition field_rx :: "rx \<Rightarrow> rx" where
  "field_rx num = Alt (Cat (Lit CHR ''*'') Eps) (Alt (Cat num Eps)
     (Cat (Lit CHR ''*'') (Cat (Lit CHR ''/'') (Cat num Eps))))"

definition cron_rx :: rx where
  "cron_rx = Cat (field_rx minute_rx) (Cat (Lit CHR '' '') (Cat (field_rx hour_rx) (Cat (Lit CHR '' '')
     (Cat (field_rx dom_rx) (Cat (Lit CHR '' '') (Cat (field_rx month_rx) (Cat (Lit CHR '' '')
     (Cat (field_rx dow_rx) Eps))))))))"

lemma compile_cronRegex: "rx_compile cronRegex = Some cron_rx"
  by code_simp

section \<open>The schedules the pattern accepts\<close>

text \<open>
  A schedule is five fields: any value, one value, or a step.  \<open>show_cron\<close> prints it with single
  spaces and without leading zeros; \<open>cron_ok\<close> bounds the numbers of each field.
\<close>

datatype cron_field = Any | At nat | Every nat

record cron =
  minute :: cron_field
  hour :: cron_field
  day_of_month :: cron_field
  month :: cron_field
  day_of_week :: cron_field

fun show_field :: "cron_field \<Rightarrow> string" where
  "show_field Any = ''*''"
| "show_field (At n) = show_nat n"
| "show_field (Every n) = ''*/'' @ show_nat n"

fun field_ok :: "nat \<Rightarrow> nat \<Rightarrow> cron_field \<Rightarrow> bool" where
  "field_ok lo hi Any = True"
| "field_ok lo hi (At n) = (lo \<le> n \<and> n \<le> hi)"
| "field_ok lo hi (Every n) = (lo \<le> n \<and> n \<le> hi)"

definition show_cron :: "cron \<Rightarrow> string" where
  "show_cron c = show_field (minute c) @ '' '' @ show_field (hour c) @ '' ''
     @ show_field (day_of_month c) @ '' '' @ show_field (month c) @ '' '' @ show_field (day_of_week c)"

definition cron_ok :: "cron \<Rightarrow> bool" where
  "cron_ok c \<longleftrightarrow> field_ok 0 59 (minute c) \<and> field_ok 0 23 (hour c) \<and> field_ok 1 31 (day_of_month c)
     \<and> field_ok 1 12 (month c) \<and> field_ok 0 6 (day_of_week c)"

subsection \<open>The language of each part\<close>

lemma in_range_digits:
  assumes "a < 10" and "b < 10"
  shows "in_range (digit_char a) (digit_char b) x \<longleftrightarrow> (\<exists>d \<in> {a..b}. x = digit_char d)"
proof
  assume r: "in_range (digit_char a) (digit_char b) x"
  then have n: "48 + a \<le> (of_char x :: nat)" "(of_char x :: nat) \<le> 48 + b"
    using assms by (simp_all add: in_range_def digit_char_code)
  then have "x = digit_char (of_char x - 48)"
    by (simp add: digit_char_def)
  with n show "\<exists>d \<in> {a..b}. x = digit_char d"
    by (intro bexI [of _ "of_char x - 48"]) auto
qed (use assms in \<open>auto simp: in_range_def digit_char_code\<close>)

lemma show_nat_one: "d < 10 \<Longrightarrow> show_nat d = [digit_char d]"
  by (subst show_nat.simps) simp

lemma show_nat_two: "0 < k \<Longrightarrow> k < 10 \<Longrightarrow> d < 10 \<Longrightarrow> show_nat (10 * k + d) = [digit_char k, digit_char d]"
  by (subst show_nat.simps) (simp add: show_nat_one)

lemma words_ones: "b < 10 \<Longrightarrow> a \<le> b \<Longrightarrow> words (ones a b) = show_nat ` {a..b}"
  by (auto simp: ones_def in_range_digits show_nat_one image_iff)

lemma words_tens:
  assumes "0 < k" "k < 10" "b < 10" "a \<le> b"
  shows "words (tens k a b) = show_nat ` {10 * k + a..10 * k + b}"
proof -
  have "words (tens k a b) = (\<lambda>d. [digit_char k, digit_char d]) ` {a..b}"
    using assms by (auto simp: tens_def in_range_digits)
  also have "\<dots> = (\<lambda>d. show_nat (10 * k + d)) ` {a..b}"
    using assms by (intro image_cong) (auto simp: show_nat_two)
  also have "\<dots> = show_nat ` (\<lambda>d. 10 * k + d) ` {a..b}"
    by (simp only: image_image)
  also have "(\<lambda>d. 10 * k + d) ` {a..b} = {10 * k + a..10 * k + b}"
    by (simp add: add.commute)
  finally show ?thesis .
qed

lemma words_num:
  "words minute_rx = show_nat ` {0..59}" "words hour_rx = show_nat ` {0..23}"
  "words dom_rx = show_nat ` {1..31}" "words month_rx = show_nat ` {1..12}"
  "words dow_rx = show_nat ` {0..6}"
  by (simp_all add: minute_rx_def hour_rx_def dom_rx_def month_rx_def dow_rx_def words_ones words_tens
      image_Un [symmetric] ivl_disj_un) (rule arg_cong [where f = "(`) show_nat"], auto)+

lemma words_field:
  assumes "words num = show_nat ` {lo..hi}"
  shows "words (field_rx num) = {show_field f | f. field_ok lo hi f}"
proof -
  have "words (field_rx num) = insert ''*'' (words num \<union> (\<lambda>u. ''*/'' @ u) ` words num)"
    by (auto simp: field_rx_def)
  also have "\<dots> = {show_field f | f. field_ok lo hi f}" (is "?L = ?R")
  proof (intro equalityI subsetI)
    fix s assume "s \<in> ?L"
    then consider "s = show_field Any" | n where "n \<in> {lo..hi}" "s = show_field (At n)"
      | n where "n \<in> {lo..hi}" "s = show_field (Every n)"
      using assms by auto
    then show "s \<in> ?R"
      by cases (metis (mono_tags, lifting) atLeastAtMost_iff field_ok.simps mem_Collect_eq)+
  next
    fix s assume "s \<in> ?R"
    then obtain f where "field_ok lo hi f" "s = show_field f" by blast
    then show "s \<in> ?L"
      using assms by (cases f) auto
  qed
  finally show ?thesis .
qed

lemma words_CatI: "u \<in> words r \<Longrightarrow> v \<in> words q \<Longrightarrow> u @ v \<in> words (Cat r q)"
  by auto

lemma words_LitI: "[c] \<in> words (Lit c)"
  by simp

lemma words_cron_rx: "words cron_rx = {show_cron c | c. cron_ok c}"
proof (intro equalityI subsetI)
  fix s assume "s \<in> words cron_rx"
  then obtain a b c d e where f:
    "field_ok 0 59 a" "field_ok 0 23 b" "field_ok 1 31 c" "field_ok 1 12 d" "field_ok 0 6 e"
    and s: "s = show_field a @ '' '' @ show_field b @ '' '' @ show_field c @ '' '' @ show_field d
      @ '' '' @ show_field e"
    unfolding cron_rx_def by (auto simp: words_field words_num)
  define t where "t = \<lparr>minute = a, hour = b, day_of_month = c, month = d, day_of_week = e\<rparr>"
  have "cron_ok t" "s = show_cron t"
    using f s by (simp_all add: t_def cron_ok_def show_cron_def)
  then show "s \<in> {show_cron c | c. cron_ok c}" by blast
next
  fix s assume "s \<in> {show_cron c | c. cron_ok c}"
  then obtain c where c: "cron_ok c" and s: "s = show_cron c" by blast
  have "show_field (minute c) \<in> words (field_rx minute_rx)" "show_field (hour c) \<in> words (field_rx hour_rx)"
    "show_field (day_of_month c) \<in> words (field_rx dom_rx)" "show_field (month c) \<in> words (field_rx month_rx)"
    "show_field (day_of_week c) @ [] \<in> words (Cat (field_rx dow_rx) Eps)"
    using c by (auto simp: words_field words_num cron_ok_def)
  then show "s \<in> words cron_rx"
    unfolding s cron_rx_def show_cron_def append_Nil2 by (intro words_CatI words_LitI)
qed

lemma show_field_no_space: "CHR '' '' \<notin> set (show_field f)"
  by (cases f) (simp_all add: show_nat_no_char)

lemma show_field_inject: "show_field f = show_field g \<longleftrightarrow> f = g"
proof -
  have "show_nat n \<noteq> CHR ''*'' # t" for n t
    using hd_show_nat_no_char [of "CHR ''*''" n] by auto
  then show ?thesis
    by (cases f; cases g) (auto dest: sym)
qed

lemma show_cron_inject: "show_cron c = show_cron d \<longleftrightarrow> c = d"
proof
  assume eq: "show_cron c = show_cron d"
  note cut = split_at_unique [of _ "CHR '' ''", OF _ show_field_no_space show_field_no_space]
  from eq have 1: "minute c = minute d" and r1: "show_field (hour c) @ CHR '' '' # show_field (day_of_month c)
      @ CHR '' '' # show_field (month c) @ CHR '' '' # show_field (day_of_week c)
    = show_field (hour d) @ CHR '' '' # show_field (day_of_month d)
      @ CHR '' '' # show_field (month d) @ CHR '' '' # show_field (day_of_week d)"
    unfolding show_cron_def by (auto dest: cut simp: show_field_inject)
  from cut [OF r1] have 2: "hour c = hour d" and r2: "show_field (day_of_month c)
      @ CHR '' '' # show_field (month c) @ CHR '' '' # show_field (day_of_week c)
    = show_field (day_of_month d) @ CHR '' '' # show_field (month d) @ CHR '' '' # show_field (day_of_week d)"
    by (auto simp: show_field_inject)
  from cut [OF r2] have 3: "day_of_month c = day_of_month d" and r3: "show_field (month c)
      @ CHR '' '' # show_field (day_of_week c) = show_field (month d) @ CHR '' '' # show_field (day_of_week d)"
    by (auto simp: show_field_inject)
  from cut [OF r3] 1 2 3 show "c = d"
    by (simp add: show_field_inject)
qed simp

section \<open>Properties\<close>

lemma isValidCronSchedule_words: "isValidCronSchedule s \<longleftrightarrow> s \<in> words cron_rx"
  by (simp add: isValidCronSchedule_def MatchString_def compile_cronRegex full_match_words)

text \<open>
  C4: the schedule check accepts exactly the printed forms of a five-field schedule whose numbers
  are in range (minute 0 to 59, hour 0 to 23, day 1 to 31, month 1 to 12, weekday 0 to 6), written
  with single spaces and no leading zeros, and each accepted text comes from one schedule only.
\<close>

theorem isValidCronSchedule_exact:
  "isValidCronSchedule s \<longleftrightarrow> (\<exists>!c. cron_ok c \<and> s = show_cron c)"
  by (auto simp: isValidCronSchedule_words words_cron_rx show_cron_inject)

text \<open>
  A step of zero is accepted in the minute, hour and weekday fields, whatever the other fields
  are; a scheduler has no next run for such a step.
\<close>

theorem isValidCronSchedule_zero_step:
  "isValidCronSchedule ''*/0 * * * *'' \<and> isValidCronSchedule ''0 */0 * * *''
   \<and> isValidCronSchedule ''0 0 * * */0''"
  by code_simp

end
