(* ===== verification/K8s_Types.thy ===== *)
theory K8s_Types
  imports Go_Prelude
begin

text \<open>
  The shapes of the Kubernetes objects the source reads and writes.  They are declared in packages
  outside the repository; each record has the fields the source names (with the prefix of its
  record) and nothing is computed from them here.  A part of an object that the source copies
  without looking at it is a field \<open>rest\<close>.  Maps from strings to strings are association lists read
  with \<open>map_of\<close>.  A time is the number of nanoseconds since Go's zero time, so the zero time is 0.
\<close>

type_synonym gotime = int
type_synonym labels = "(string \<times> string) list"
type_synonym rest = "(string \<times> string) list"

record key =
  k_Namespace :: string
  k_Name :: string

record object_meta =
  om_Name :: string
  om_Namespace :: string
  om_UID :: string
  om_Generation :: int64
  om_Labels :: labels
  om_Annotations :: labels
  om_CreationTimestamp :: gotime
  om_DeletionTimestamp :: "gotime option"
  om_Finalizers :: "string list"
  om_OwnerReferences :: "(string \<times> string) list"

record object_reference =
  or_APIVersion :: string
  or_Kind :: string
  or_Name :: string
  or_Namespace :: string
  or_UID :: string

record secret_reference =
  sr_Name :: string
  sr_Namespace :: string

record typed_local_ref =
  tl_APIGroup :: "string option"
  tl_Kind :: string
  tl_Name :: string

record label_requirement =
  lr_Key :: string
  lr_Operator :: string
  lr_Values :: "string list"

record label_selector =
  ls_MatchLabels :: labels
  ls_MatchExpressions :: "label_requirement list"

text \<open>Quantities are the calls of package \<open>resource\<close> that build them.\<close>

datatype quantity = MustParse string | NewQuantityBinarySI int

record resource_requirements =
  rr_Requests :: "(string \<times> quantity) list"
  rr_Limits :: "(string \<times> quantity) list"
  rr_rest :: rest

section \<open>Pods\<close>

record key_to_path =
  kp_Key :: string
  kp_Path :: string

datatype volume_source =
    EmptyDir string quantity
  | PersistentVolumeClaim string bool
  | SecretSource string "key_to_path list"
  | ConfigMapSource string "key_to_path list" "int32 option"
  | NFSSource string string
  | OtherSource rest

record volume =
  vol_Name :: string
  vol_Source :: volume_source

record volume_mount =
  vm_Name :: string
  vm_MountPath :: string
  vm_SubPath :: string
  vm_ReadOnly :: bool

text \<open>\<open>ev_FieldPath\<close> is the field path of \<open>ValueFrom.FieldRef\<close>, if \<open>ValueFrom\<close> is set.\<close>

record env_var =
  ev_Name :: string
  ev_Value :: string
  ev_FieldPath :: "string option"

record env_from_source =
  ef_Prefix :: string
  ef_SecretName :: string
  ef_Optional :: "bool option"

record security_context =
  sc_AllowPrivilegeEscalation :: "bool option"
  sc_RunAsNonRoot :: "bool option"
  sc_RunAsUser :: "int64 option"
  sc_CapabilitiesDrop :: "string list"
  sc_SeccompProfile :: string

record container =
  c_Name :: string
  c_Image :: string
  c_ImagePullPolicy :: string
  c_Command :: "string list"
  c_Env :: "env_var list"
  c_EnvFrom :: "env_from_source list"
  c_VolumeMounts :: "volume_mount list"
  c_Resources :: resource_requirements
  c_SecurityContext :: "security_context option"

record preferred_term =
  pf_Weight :: int32
  pf_MatchExpressions :: "label_requirement list"

record affinity =
  af_NodePreferred :: "preferred_term list"
  af_rest :: rest

record pod_spec =
  ps_RestartPolicy :: string
  ps_Volumes :: "volume list"
  ps_Containers :: "container list"
  ps_ServiceAccountName :: string
  ps_Affinity :: "affinity option"
  ps_rest :: rest

text \<open>The zero values that Go gives to fields a literal does not set.\<close>

definition zero_pod_spec :: pod_spec where
  "zero_pod_spec = \<lparr>ps_RestartPolicy = [], ps_Volumes = [], ps_Containers = [],
     ps_ServiceAccountName = [], ps_Affinity = None, ps_rest = []\<rparr>"

definition zero_meta :: object_meta where
  "zero_meta = \<lparr>om_Name = [], om_Namespace = [], om_UID = [], om_Generation = 0, om_Labels = [],
     om_Annotations = [], om_CreationTimestamp = 0, om_DeletionTimestamp = None, om_Finalizers = [],
     om_OwnerReferences = []\<rparr>"

record container_status =
  cs_Name :: string
  cs_Terminated :: "(int32 \<times> string) option"

record pod =
  pod_Meta :: object_meta
  pod_ContainerStatuses :: "container_status list"

section \<open>Jobs, cron jobs and config maps\<close>

text \<open>\<open>job_MatchLabels\<close> is \<open>Spec.Selector.MatchLabels\<close>; \<open>None\<close> is a nil selector.\<close>

record job =
  job_Meta :: object_meta
  job_MatchLabels :: "labels option"
  job_Succeeded :: int32
  job_Failed :: int32

record job_spec =
  js_BackoffLimit :: "int32 option"
  js_TTLSecondsAfterFinished :: "int32 option"
  js_PodLabels :: labels
  js_PodSpec :: pod_spec

record cron_job_spec =
  cjs_Schedule :: string
  cjs_StartingDeadlineSeconds :: "int64 option"
  cjs_ConcurrencyPolicy :: string
  cjs_Suspend :: "bool option"
  cjs_SuccessfulJobsHistoryLimit :: "int32 option"
  cjs_FailedJobsHistoryLimit :: "int32 option"
  cjs_JobLabels :: labels
  cjs_JobSpec :: job_spec

record cron_job_status =
  cjst_Active :: "object_reference list"
  cjst_LastScheduleTime :: "gotime option"

record cron_job =
  cj_Meta :: object_meta
  cj_Spec :: cron_job_spec
  cj_Status :: cron_job_status

definition zero_job_spec :: job_spec where
  "zero_job_spec = \<lparr>js_BackoffLimit = None, js_TTLSecondsAfterFinished = None, js_PodLabels = [],
     js_PodSpec = zero_pod_spec\<rparr>"

definition zero_cron_job_spec :: cron_job_spec where
  "zero_cron_job_spec = \<lparr>cjs_Schedule = [], cjs_StartingDeadlineSeconds = None,
     cjs_ConcurrencyPolicy = [], cjs_Suspend = None, cjs_SuccessfulJobsHistoryLimit = None,
     cjs_FailedJobsHistoryLimit = None, cjs_JobLabels = [], cjs_JobSpec = zero_job_spec\<rparr>"

definition zero_cron_job_status :: cron_job_status where
  "zero_cron_job_status = \<lparr>cjst_Active = [], cjst_LastScheduleTime = None\<rparr>"

record config_map =
  cm_Meta :: object_meta
  cm_Data :: "(string \<times> string) list"

text \<open>\<open>IsZero\<close> on a pointer to a time: nil, or Go's zero time.\<close>

definition IsZero :: "gotime option \<Rightarrow> bool" where
  "IsZero t = (case t of None \<Rightarrow> True | Some x \<Rightarrow> x = 0)"

lemma IsZero_simps [simp]: "IsZero None" "IsZero (Some x) \<longleftrightarrow> x = 0"
  by (simp_all add: IsZero_def)

section \<open>Errors\<close>

text \<open>
  A \<open>field.Path\<close> is the list of its elements, a \<open>field.Error\<close> the call that built it.  A Go error is
  what the source distinguishes: the API reasons it asks for (\<open>errors.IsNotFound\<close>,
  \<open>errors.IsAlreadyExists\<close>), the errors it builds itself, \<open>fmt.Errorf\<close> with and without a
  wrapped error, and any other failure.
\<close>

datatype path_elem = Child string | Index nat

type_synonym field_path = "path_elem list"

datatype field_value = StrValue string | IntValue int

datatype field_error =
    Required field_path string
  | Invalid field_path field_value string
  | Forbidden field_path string

fun error_path :: "field_error \<Rightarrow> field_path" where
  "error_path (Required p m) = p"
| "error_path (Invalid p v m) = p"
| "error_path (Forbidden p m) = p"

datatype goerror =
    NotFoundError
  | AlreadyExistsError
  | OtherError string
  | NewInvalid string string string "field_error list"
  | NewBadRequest string
  | Errorf string
  | Wrapf string goerror

fun IsNotFound :: "goerror \<Rightarrow> bool" where
  "IsNotFound NotFoundError = True"
| "IsNotFound (Wrapf m e) = IsNotFound e"
| "IsNotFound e = False"

fun IsAlreadyExists :: "goerror \<Rightarrow> bool" where
  "IsAlreadyExists AlreadyExistsError = True"
| "IsAlreadyExists (Wrapf m e) = IsAlreadyExists e"
| "IsAlreadyExists e = False"

end
