(* ===== verification/Api_Types.thy ===== *)
theory Api_Types
  imports K8s_Types
begin

text \<open>
  The types of \<open>api/v1alpha1\<close>: the two custom resources \<open>BackupTask\<close> and \<open>BackupRecord\<close> with
  everything in them, one record per Go struct, fields in the order of the source.  Go's string
  types (\<open>BackupPhase\<close>, \<open>BackupTargetType\<close>, ...) stay strings, because a switch over them has to
  say what happens for a value that is none of the constants; the constants are collected in
  \<open>api_consts\<close>.  The embedded \<open>TypeMeta\<close>, which no function of the repository reads, is left out.
\<close>

named_theorems api_consts

section \<open>Constants\<close>

definition BackupTargetTypeConfig :: string where [api_consts]: "BackupTargetTypeConfig = ''config''"
definition BackupTargetTypeDatabase :: string where [api_consts]: "BackupTargetTypeDatabase = ''database''"
definition BackupTargetTypeDirectory :: string where [api_consts]: "BackupTargetTypeDirectory = ''directory''"
definition BackupTargetTypeNFS :: string where [api_consts]: "BackupTargetTypeNFS = ''nfs''"

definition BackupPhasePending :: string where [api_consts]: "BackupPhasePending = ''Pending''"
definition BackupPhaseRunning :: string where [api_consts]: "BackupPhaseRunning = ''Running''"
definition BackupPhaseCompleted :: string where [api_consts]: "BackupPhaseCompleted = ''Completed''"
definition BackupPhaseFailed :: string where [api_consts]: "BackupPhaseFailed = ''Failed''"
definition BackupPhaseExpired :: string where [api_consts]: "BackupPhaseExpired = ''Expired''"

definition RemoteStorageTypeS3 :: string where [api_consts]: "RemoteStorageTypeS3 = ''s3''"
definition RemoteStorageTypeSFTP :: string where [api_consts]: "RemoteStorageTypeSFTP = ''sftp''"
definition RemoteStorageTypeNFS :: string where [api_consts]: "RemoteStorageTypeNFS = ''nfs''"
definition RemoteStorageTypeSMB :: string where [api_consts]: "RemoteStorageTypeSMB = ''smb''"

definition BackupTaskScheduled :: string where [api_consts]: "BackupTaskScheduled = ''Scheduled''"
definition BackupTaskRunning :: string where [api_consts]: "BackupTaskRunning = ''Running''"

definition VerificationPending :: string where [api_consts]: "VerificationPending = ''Pending''"
definition VerificationSuccess :: string where [api_consts]: "VerificationSuccess = ''Success''"
definition VerificationFailed :: string where [api_consts]: "VerificationFailed = ''Failed''"

section \<open>The specification of a backup task\<close>

record KeepLastPolicy =
  kl_Hours :: int32
  kl_Days :: int32
  kl_Weeks :: int32
  kl_Months :: int32

record RetentionPolicy =
  rp_MaxAgeDays :: "int32 option"
  rp_MaxBackupCount :: "int32 option"
  rp_KeepLast :: "KeepLastPolicy option"

record DatabaseBackupSpec =
  db_Type :: string
  db_Host :: string
  db_Port :: "int32 option"
  db_Database :: string
  db_AuthSecretRef :: secret_reference
  db_ExtraArgs :: "string list"
  db_EnablePITR :: bool

record ConfigBackupSpec =
  cb_IncludeNamespaces :: "string list"
  cb_ExcludeNamespaces :: "string list"
  cb_ResourceTypes :: "string list"
  cb_LabelSelector :: "label_selector option"

record DirectoryPath =
  dp_Path :: string
  dp_PVCRef :: "typed_local_ref option"
  dp_SubPath :: string

record DirectoryBackupSpec =
  dir_Paths :: "DirectoryPath slice"
  dir_ExcludePatterns :: "string list"
  dir_CompressionLevel :: "int32 option"

record NFSBackupSpec =
  nb_Server :: string
  nb_Path :: string
  nb_MountOptions :: "string list"
  nb_SubPath :: string

record BackupTarget =
  tgt_Name :: string
  tgt_Type :: string
  tgt_Database :: "DatabaseBackupSpec option"
  tgt_Config :: "ConfigBackupSpec option"
  tgt_Directory :: "DirectoryBackupSpec option"
  tgt_NFS :: "NFSBackupSpec option"

record S3StorageSpec =
  s3_Endpoint :: string
  s3_Bucket :: string
  s3_Prefix :: string
  s3_Region :: string
  s3_AuthSecretRef :: secret_reference
  s3_UseTLS :: "bool option"
  s3_SkipTLSVerify :: "bool option"

record SFTPStorageSpec =
  sftp_Host :: string
  sftp_Port :: "int32 option"
  sftp_Path :: string
  sftp_AuthSecretRef :: secret_reference
  sftp_SSHKeyType :: string

record NFSStorageSpec =
  nfs_Server :: string
  nfs_Path :: string
  nfs_MountOptions :: "string list"

record SMBStorageSpec =
  smb_Server :: string
  smb_Share :: string
  smb_Path :: string
  smb_AuthSecretRef :: secret_reference
  smb_Domain :: string

record RemoteStorageSpec =
  rs_Type :: string
  rs_S3 :: "S3StorageSpec option"
  rs_SFTP :: "SFTPStorageSpec option"
  rs_NFS :: "NFSStorageSpec option"
  rs_SMB :: "SMBStorageSpec option"

record EncryptionSpec =
  enc_Enabled :: bool
  enc_Algorithm :: string
  enc_KeySecretRef :: secret_reference
  enc_EncryptAfterCompress :: "bool option"

record PodTemplateSpec =
  pt_Metadata :: "object_meta option"
  pt_Spec :: "pod_spec option"

record ExecHook =
  eh_Command :: "string slice"
  eh_Container :: string

record HTTPHeader =
  hd_Name :: string
  hd_Value :: string

record HTTPHook =
  hh_URL :: string
  hh_Method :: string
  hh_Headers :: "HTTPHeader list"
  hh_Body :: string

record HookSpec =
  hk_Type :: string
  hk_Exec :: "ExecHook option"
  hk_HTTP :: "HTTPHook option"
  hk_TimeoutSeconds :: "int32 option"

record BackupTaskSpec =
  bts_Schedule :: string
  bts_Retention :: "RetentionPolicy option"
  bts_Targets :: "BackupTarget slice"
  bts_RemoteStorage :: RemoteStorageSpec
  bts_Encryption :: "EncryptionSpec option"
  bts_PodTemplate :: "PodTemplateSpec option"
  bts_PostBackupHooks :: "HookSpec list"
  bts_Resources :: "resource_requirements option"
  bts_BackupImage :: string
  bts_BackupCmd :: string

section \<open>The status of a backup task\<close>

record BackupTaskCondition =
  btc_Type :: string
  btc_Status :: string
  btc_LastTransitionTime :: gotime
  btc_Reason :: string
  btc_Message :: string

record BackupTaskStatus =
  bst_ObservedGeneration :: int64
  bst_Phase :: string
  bst_LastScheduledTime :: "gotime option"
  bst_LastSuccessfulTime :: "gotime option"
  bst_LastCompletionTime :: "gotime option"
  bst_ActiveBackupJob :: "object_reference option"
  bst_BackupHistoryCount :: int32
  bst_Conditions :: "BackupTaskCondition list"
  bst_NextScheduleTime :: "gotime option"

record BackupTask =
  bt_Meta :: object_meta
  bt_Spec :: BackupTaskSpec
  bt_Status :: BackupTaskStatus

section \<open>Backup records\<close>

record BackupFileInfo =
  bf_Path :: string
  bf_Size :: int64
  bf_Checksum :: string
  bf_StorageType :: string

record BackupStatistics =
  bs_TotalSize :: int64
  bs_FileCount :: int32
  bs_CompressionRatio :: string
  bs_DurationSeconds :: string

record BackupRecordSpec =
  brs_BackupTaskRef :: object_reference
  brs_StartTime :: gotime
  brs_CompletionTime :: "gotime option"
  brs_BackupFiles :: "BackupFileInfo list"
  brs_Statistics :: "BackupStatistics option"
  brs_Labels :: labels

record VerificationStatus =
  vs_VerifiedAt :: "gotime option"
  vs_Result :: string
  vs_Message :: string

record BackupRecordStatus =
  brst_Phase :: string
  brst_Error :: string
  brst_VerificationStatus :: VerificationStatus
  brst_ExpirationTime :: "gotime option"

record BackupRecord =
  br_Meta :: object_meta
  br_Spec :: BackupRecordSpec
  br_Status :: BackupRecordStatus

section \<open>Names\<close>

abbreviation bt_Name :: "BackupTask \<Rightarrow> string" where
  "bt_Name t \<equiv> om_Name (bt_Meta t)"

abbreviation bt_Namespace :: "BackupTask \<Rightarrow> string" where
  "bt_Namespace t \<equiv> om_Namespace (bt_Meta t)"

abbreviation bt_Targets :: "BackupTask \<Rightarrow> BackupTarget list" where
  "bt_Targets t \<equiv> elems (bts_Targets (bt_Spec t))"

definition key_of :: "object_meta \<Rightarrow> key" where
  "key_of m = \<lparr>k_Namespace = om_Namespace m, k_Name = om_Name m\<rparr>"

text \<open>Values with every field unset, as Go's zero values; the examples start from them.\<close>

definition zero_secret :: secret_reference where
  "zero_secret = \<lparr>sr_Name = [], sr_Namespace = []\<rparr>"

definition zero_target :: BackupTarget where
  "zero_target = \<lparr>tgt_Name = [], tgt_Type = [], tgt_Database = None, tgt_Config = None,
     tgt_Directory = None, tgt_NFS = None\<rparr>"

definition zero_remote_storage :: RemoteStorageSpec where
  "zero_remote_storage = \<lparr>rs_Type = [], rs_S3 = None, rs_SFTP = None, rs_NFS = None, rs_SMB = None\<rparr>"

definition zero_task_spec :: BackupTaskSpec where
  "zero_task_spec = \<lparr>bts_Schedule = [], bts_Retention = None, bts_Targets = None,
     bts_RemoteStorage = zero_remote_storage, bts_Encryption = None, bts_PodTemplate = None,
     bts_PostBackupHooks = [], bts_Resources = None, bts_BackupImage = [], bts_BackupCmd = []\<rparr>"

definition zero_task_status :: BackupTaskStatus where
  "zero_task_status = \<lparr>bst_ObservedGeneration = 0, bst_Phase = [], bst_LastScheduledTime = None,
     bst_LastSuccessfulTime = None, bst_LastCompletionTime = None, bst_ActiveBackupJob = None,
     bst_BackupHistoryCount = 0, bst_Conditions = [], bst_NextScheduleTime = None\<rparr>"

definition zero_task :: BackupTask where
  "zero_task = \<lparr>bt_Meta = zero_meta, bt_Spec = zero_task_spec, bt_Status = zero_task_status\<rparr>"

definition zero_record_spec :: BackupRecordSpec where
  "zero_record_spec = \<lparr>brs_BackupTaskRef = \<lparr>or_APIVersion = [], or_Kind = [], or_Name = [],
     or_Namespace = [], or_UID = []\<rparr>, brs_StartTime = 0, brs_CompletionTime = None,
     brs_BackupFiles = [], brs_Statistics = None, brs_Labels = []\<rparr>"

definition zero_verification :: VerificationStatus where
  "zero_verification = \<lparr>vs_VerifiedAt = None, vs_Result = [], vs_Message = []\<rparr>"

definition zero_record :: BackupRecord where
  "zero_record = \<lparr>br_Meta = zero_meta, br_Spec = zero_record_spec,
     br_Status = \<lparr>brst_Phase = [], brst_Error = [], brst_VerificationStatus = zero_verification,
       brst_ExpirationTime = None\<rparr>\<rparr>"

end
