(* ===== verification/Task_Webhook.thy ===== *)
theory Task_Webhook
  imports Api_Types Cron_Schedule
begin

text \<open>
  Admission of backup tasks.  \<open>Default\<close>, \<open>ValidateCreate\<close>, \<open>ValidateUpdate\<close>, \<open>ValidateDelete\<close> and the
  \<open>validate...\<close> functions are the methods of \<open>BackupTask\<close> in \<open>api/v1alpha1/backuptask_webhook.go\<close>; the
  \<open>BackupTaskCustom...\<close> definitions are the handlers of \<open>internal/webhook/v1alpha1\<close>, which are
  the ones the manager registers.  Validation fills in a missing database port through the pointer
  it is given, so each function returns its errors together with the object as it leaves it.  The
  lemmas compare the error list with a declarative notion of a valid task, and say which fields
  validation and defaulting touch.
\<close>

datatype runtime_object = ObjTask BackupTask | ObjOther string

section \<open>Defaulting\<close>

definition Default :: "BackupTask \<Rightarrow> BackupTask" where
  "Default r =
     (let s = bt_Spec r;
          s = (if bts_PodTemplate s = None
               then s\<lparr>bts_PodTemplate := Some \<lparr>pt_Metadata = None, pt_Spec = None\<rparr>\<rparr> else s);
          s = (case bts_Encryption s of
                 Some e \<Rightarrow> if enc_Enabled e \<and> enc_Algorithm e = []
                   then s\<lparr>bts_Encryption := Some (e\<lparr>enc_Algorithm := ''aes-256-gcm''\<rparr>)\<rparr> else s
               | None \<Rightarrow> s);
          s = (case bts_Encryption s of
                 Some e \<Rightarrow> if enc_EncryptAfterCompress e = None
                   then s\<lparr>bts_Encryption := Some (e\<lparr>enc_EncryptAfterCompress := Some True\<rparr>)\<rparr> else s
               | None \<Rightarrow> s)
      in r\<lparr>bt_Spec := s\<rparr>)"

section \<open>Validation\<close>

definition default_port :: "string \<Rightarrow> int32 option" where
  "default_port ty =
     (if ty = ''mysql'' then Some 3306
      else if ty = ''postgresql'' then Some 5432
      else if ty = ''mongodb'' then Some 27017
      else if ty = ''redis'' then Some 6379
      else None)"

definition validateDatabaseSpec ::
  "field_path \<Rightarrow> DatabaseBackupSpec \<Rightarrow> field_error list \<times> DatabaseBackupSpec" where
  "validateDatabaseSpec path spec =
     (let e1 = (if db_Host spec = [] then [Required (path @ [Child ''host'']) ''database host is required''] else []);
          (e2, spec') =
            (case db_Port spec of
               None \<Rightarrow> (case default_port (db_Type spec) of
                   Some port \<Rightarrow> ([], spec\<lparr>db_Port := Some port\<rparr>)
                 | None \<Rightarrow> ([Required (path @ [Child ''port'']) ''database port is required''], spec))
             | Some port \<Rightarrow>
                 (if sint port < 1 \<or> sint port > 65535
                  then [Invalid (path @ [Child ''port'']) (IntValue (sint port)) ''port must be between 1 and 65535'']
                  else [], spec));
          e3 = (if sr_Name (db_AuthSecretRef spec) = []
                then [Required (path @ [Child ''authSecretRef'', Child ''name'']) ''auth secret name is required'']
                else [])
      in (e1 @ e2 @ e3, spec'))"

fun validatePaths :: "field_path \<Rightarrow> nat \<Rightarrow> DirectoryPath list \<Rightarrow> field_error list" where
  "validatePaths path i [] = []"
| "validatePaths path i (d # ds) =
     (if dp_Path d = []
      then [Required (path @ [Child ''paths'', Index i, Child ''path'']) ''directory path is required'']
      else []) @ validatePaths path (Suc i) ds"

definition validateDirectorySpec :: "field_path \<Rightarrow> DirectoryBackupSpec \<Rightarrow> field_error list" where
  "validateDirectorySpec path spec =
     (if elems (dir_Paths spec) = []
      then [Required (path @ [Child ''paths'']) ''at least one directory path is required''] else [])
     @ validatePaths path 0 (elems (dir_Paths spec))
     @ (case dir_CompressionLevel spec of
          Some l \<Rightarrow> if sint l < 0 \<or> sint l > 9
            then [Invalid (path @ [Child ''compressionLevel'']) (IntValue (sint l))
                    ''compression level must be between 0 and 9'']
            else []
        | None \<Rightarrow> [])"

definition validateNFSSpec :: "field_path \<Rightarrow> NFSBackupSpec \<Rightarrow> field_error list" where
  "validateNFSSpec path spec =
     (if nb_Server spec = [] then [Required (path @ [Child ''server'']) ''nfs server is required''] else [])
     @ (if nb_Path spec = [] then [Required (path @ [Child ''path'']) ''nfs path is required''] else [])"

definition validateRemoteStorage :: "field_path \<Rightarrow> RemoteStorageSpec \<Rightarrow> field_error list" where
  "validateRemoteStorage path spec =
     (if rs_Type spec = RemoteStorageTypeS3 then
        (case rs_S3 spec of
           None \<Rightarrow> [Required (path @ [Child ''s3'']) ''s3 configuration is required for s3 storage'']
         | Some s \<Rightarrow>
             (if s3_Endpoint s = [] then [Required (path @ [Child ''s3'', Child ''endpoint'']) ''s3 endpoint is required''] else [])
             @ (if s3_Bucket s = [] then [Required (path @ [Child ''s3'', Child ''bucket'']) ''s3 bucket is required''] else [])
             @ (if sr_Name (s3_AuthSecretRef s) = []
                then [Required (path @ [Child ''s3'', Child ''authSecretRef'', Child ''name'']) ''auth secret name is required'']
                else []))
      else if rs_Type spec = RemoteStorageTypeSFTP then
        (case rs_SFTP spec of
           None \<Rightarrow> [Required (path @ [Child ''sftp'']) ''sftp configuration is required for sftp storage'']
         | Some s \<Rightarrow>
             (if sftp_Host s = [] then [Required (path @ [Child ''sftp'', Child ''host'']) ''sftp host is required''] else [])
             @ (if sftp_Path s = [] then [Required (path @ [Child ''sftp'', Child ''path'']) ''sftp path is required''] else [])
             @ (if sr_Name (sftp_AuthSecretRef s) = []
                then [Required (path @ [Child ''sftp'', Child ''authSecretRef'', Child ''name'']) ''auth secret name is required'']
                else []))
      else if rs_Type spec = RemoteStorageTypeNFS then
        (case rs_NFS spec of
           None \<Rightarrow> [Required (path @ [Child ''nfs'']) ''nfs configuration is required for nfs storage'']
         | Some s \<Rightarrow>
             (if nfs_Server s = [] then [Required (path @ [Child ''nfs'', Child ''server'']) ''nfs server is required''] else [])
             @ (if nfs_Path s = [] then [Required (path @ [Child ''nfs'', Child ''path'']) ''nfs path is required''] else []))
      else if rs_Type spec = RemoteStorageTypeSMB then
        (case rs_SMB spec of
           None \<Rightarrow> [Required (path @ [Child ''smb'']) ''smb configuration is required for smb storage'']
         | Some s \<Rightarrow>
             (if smb_Server s = [] then [Required (path @ [Child ''smb'', Child ''server'']) ''smb server is required''] else [])
             @ (if smb_Share s = [] then [Required (path @ [Child ''smb'', Child ''share'']) ''smb share is required''] else [])
             @ (if sr_Name (smb_AuthSecretRef s) = []
                then [Required (path @ [Child ''smb'', Child ''authSecretRef'', Child ''name'']) ''auth secret name is required'']
                else []))
      else [])"

definition validateEncryption :: "field_path \<Rightarrow> EncryptionSpec \<Rightarrow> field_error list" where
  "validateEncryption path spec =
     (if sr_Name (enc_KeySecretRef spec) = []
      then [Required (path @ [Child ''keySecretRef'', Child ''name'']) ''encryption key secret name is required'']
      else [])"

text \<open>One round of the loop over the targets: the name, then the configuration of the type.\<close>

definition validateTarget :: "field_path \<Rightarrow> BackupTarget \<Rightarrow> field_error list \<times> BackupTarget" where
  "validateTarget path target =
     (let e1 = (if tgt_Name target = [] then [Required (path @ [Child ''name'']) ''target name is required''] else []);
          (e2, target') =
            (if tgt_Type target = BackupTargetTypeDatabase then
               (case tgt_Database target of
                  None \<Rightarrow> ([Required (path @ [Child ''database''])
                             ''database configuration is required for database backup''], target)
                | Some db \<Rightarrow> (let (e, db') = validateDatabaseSpec (path @ [Child ''database'']) db
                              in (e, target\<lparr>tgt_Database := Some db'\<rparr>)))
             else if tgt_Type target = BackupTargetTypeConfig then
               (case tgt_Config target of
                  None \<Rightarrow> ([Required (path @ [Child ''config''])
                             ''config configuration is required for config backup''], target)
                | Some c \<Rightarrow> ([], target))
             else if tgt_Type target = BackupTargetTypeDirectory then
               (case tgt_Directory target of
                  None \<Rightarrow> ([Required (path @ [Child ''directory''])
                             ''directory configuration is required for directory backup''], target)
                | Some d \<Rightarrow> (validateDirectorySpec (path @ [Child ''directory'']) d, target))
             else if tgt_Type target = BackupTargetTypeNFS then
               (case tgt_NFS target of
                  None \<Rightarrow> ([Required (path @ [Child ''nfs''])
                             ''nfs configuration is required for nfs backup''], target)
                | Some n \<Rightarrow> (validateNFSSpec (path @ [Child ''nfs'']) n, target))
             else ([], target))
      in (e1 @ e2, target'))"

fun validateTargets :: "nat \<Rightarrow> BackupTarget list \<Rightarrow> field_error list \<times> BackupTarget list" where
  "validateTargets i [] = ([], [])"
| "validateTargets i (t # ts) =
     (let (e, t') = validateTarget [Child ''spec'', Child ''targets'', Index i] t;
          (es, ts') = validateTargets (Suc i) ts
      in (e @ es, t' # ts'))"

text \<open>The list of errors \<open>validateBackupTask\<close> collects, and the task as the loop leaves it.\<close>

definition taskErrors :: "BackupTask \<Rightarrow> field_error list \<times> BackupTask" where
  "taskErrors r =
     (let spec = bt_Spec r;
          e1 = (if isValidCronSchedule (bts_Schedule spec) then []
                else [Invalid [Child ''spec'', Child ''schedule''] (StrValue (bts_Schedule spec))
                        ''invalid cron schedule format'']);
          e2 = (if elems (bts_Targets spec) = []
                then [Required [Child ''spec'', Child ''targets''] ''at least one backup target is required'']
                else []);
          (e3, ts) = validateTargets 0 (elems (bts_Targets spec));
          e4 = validateRemoteStorage [Child ''spec'', Child ''remoteStorage''] (bts_RemoteStorage spec);
          e5 = (case bts_Encryption spec of
                  Some e \<Rightarrow> if enc_Enabled e then validateEncryption [Child ''spec'', Child ''encryption''] e else []
                | None \<Rightarrow> [])
      in (e1 @ e2 @ e3 @ e4 @ e5,
          r\<lparr>bt_Spec := spec\<lparr>bts_Targets := map_option (\<lambda>_. ts) (bts_Targets spec)\<rparr>\<rparr>))"

definition validateBackupTask :: "BackupTask \<Rightarrow> goerror option \<times> BackupTask" where
  "validateBackupTask r =
     (let (allErrs, r') = taskErrors r
      in (if allErrs = [] then None
          else Some (NewInvalid ''backup.yourcompany.com'' ''BackupTask'' (bt_Name r) allErrs), r'))"

text \<open>The admission handlers; the warnings they return are always nil.\<close>

definition ValidateCreate :: "BackupTask \<Rightarrow> goerror option \<times> BackupTask" where
  "ValidateCreate r = validateBackupTask r"

definition ValidateUpdate :: "BackupTask \<Rightarrow> runtime_object \<Rightarrow> goerror option \<times> BackupTask" where
  "ValidateUpdate r old =
     (case old of
        ObjOther ty \<Rightarrow> (Some (NewBadRequest ''expected a BackupTask object''), r)
      | ObjTask oldBackupTask \<Rightarrow>
          if bts_Schedule (bt_Spec r) \<noteq> bts_Schedule (bt_Spec oldBackupTask)
          then (Some (NewInvalid ''backup.mybackup.com'' ''BackupTask'' (bt_Name r)
                  [Forbidden [Child ''spec'', Child ''schedule''] ''schedule cannot be modified'']), r)
          else validateBackupTask r)"

definition ValidateDelete :: "BackupTask \<Rightarrow> goerror option" where
  "ValidateDelete r = None"

section \<open>The handlers the manager registers\<close>

definition BackupTaskCustomDefaulter_Default :: "runtime_object \<Rightarrow> goerror option \<times> runtime_object" where
  "BackupTaskCustomDefaulter_Default obj =
     (case obj of
        ObjTask t \<Rightarrow> (None, obj)
      | ObjOther ty \<Rightarrow> (Some (Errorf (''expected an BackupTask object but got '' @ ty)), obj))"

definition BackupTaskCustomValidator_ValidateCreate :: "runtime_object \<Rightarrow> goerror option" where
  "BackupTaskCustomValidator_ValidateCreate obj =
     (case obj of
        ObjTask t \<Rightarrow> None
      | ObjOther ty \<Rightarrow> Some (Errorf (''expected a BackupTask object but got '' @ ty)))"

definition BackupTaskCustomValidator_ValidateUpdate :: "runtime_object \<Rightarrow> runtime_object \<Rightarrow> goerror option" where
  "BackupTaskCustomValidator_ValidateUpdate oldObj newObj =
     (case newObj of
        ObjTask t \<Rightarrow> None
      | ObjOther ty \<Rightarrow> Some (Errorf (''expected a BackupTask object for the newObj but got '' @ ty)))"

definition BackupTaskCustomValidator_ValidateDelete :: "runtime_object \<Rightarrow> goerror option" where
  "BackupTaskCustomValidator_ValidateDelete obj =
     (case obj of
        ObjTask t \<Rightarrow> None
      | ObjOther ty \<Rightarrow> Some (Errorf (''expected a BackupTask object but got '' @ ty)))"

section \<open>What a valid task is\<close>

text \<open>The abstract specification: a predicate on tasks that mentions no error lists.\<close>

definition valid_database :: "DatabaseBackupSpec \<Rightarrow> bool" where
  "valid_database d \<longleftrightarrow> db_Host d \<noteq> [] \<and> sr_Name (db_AuthSecretRef d) \<noteq> []
     \<and> (case db_Port d of None \<Rightarrow> db_Type d \<in> {''mysql'', ''postgresql'', ''mongodb'', ''redis''}
        | Some p \<Rightarrow> 1 \<le> sint p \<and> sint p \<le> 65535)"

definition valid_directory :: "DirectoryBackupSpec \<Rightarrow> bool" where
  "valid_directory d \<longleftrightarrow> elems (dir_Paths d) \<noteq> [] \<and> (\<forall>p \<in> set (elems (dir_Paths d)). dp_Path p \<noteq> [])
     \<and> (case dir_CompressionLevel d of None \<Rightarrow> True | Some l \<Rightarrow> 0 \<le> sint l \<and> sint l \<le> 9)"

definition valid_nfs :: "NFSBackupSpec \<Rightarrow> bool" where
  "valid_nfs n \<longleftrightarrow> nb_Server n \<noteq> [] \<and> nb_Path n \<noteq> []"

definition valid_target :: "BackupTarget \<Rightarrow> bool" where
  "valid_target t \<longleftrightarrow> tgt_Name t \<noteq> []
     \<and> (tgt_Type t = BackupTargetTypeDatabase \<longrightarrow> (\<exists>d. tgt_Database t = Some d \<and> valid_database d))
     \<and> (tgt_Type t = BackupTargetTypeConfig \<longrightarrow> tgt_Config t \<noteq> None)
     \<and> (tgt_Type t = BackupTargetTypeDirectory \<longrightarrow> (\<exists>d. tgt_Directory t = Some d \<and> valid_directory d))
     \<and> (tgt_Type t = BackupTargetTypeNFS \<longrightarrow> (\<exists>n. tgt_NFS t = Some n \<and> valid_nfs n))"

definition valid_storage :: "RemoteStorageSpec \<Rightarrow> bool" where
  "valid_storage r \<longleftrightarrow>
     (rs_Type r = RemoteStorageTypeS3 \<longrightarrow> (\<exists>s. rs_S3 r = Some s \<and> s3_Endpoint s \<noteq> [] \<and> s3_Bucket s \<noteq> []
        \<and> sr_Name (s3_AuthSecretRef s) \<noteq> []))
     \<and> (rs_Type r = RemoteStorageTypeSFTP \<longrightarrow> (\<exists>s. rs_SFTP r = Some s \<and> sftp_Host s \<noteq> [] \<and> sftp_Path s \<noteq> []
        \<and> sr_Name (sftp_AuthSecretRef s) \<noteq> []))
     \<and> (rs_Type r = RemoteStorageTypeNFS \<longrightarrow> (\<exists>s. rs_NFS r = Some s \<and> nfs_Server s \<noteq> [] \<and> nfs_Path s \<noteq> []))
     \<and> (rs_Type r = RemoteStorageTypeSMB \<longrightarrow> (\<exists>s. rs_SMB r = Some s \<and> smb_Server s \<noteq> [] \<and> smb_Share s \<noteq> []
        \<and> sr_Name (smb_AuthSecretRef s) \<noteq> []))"

definition valid_task :: "BackupTask \<Rightarrow> bool" where
  "valid_task t \<longleftrightarrow> (\<exists>c. cron_ok c \<and> bts_Schedule (bt_Spec t) = show_cron c)
     \<and> bt_Targets t \<noteq> [] \<and> (\<forall>x \<in> set (bt_Targets t). valid_target x)
     \<and> valid_storage (bts_RemoteStorage (bt_Spec t))
     \<and> (case bts_Encryption (bt_Spec t) of None \<Rightarrow> True
        | Some e \<Rightarrow> enc_Enabled e \<longrightarrow> sr_Name (enc_KeySecretRef e) \<noteq> [])"

text \<open>What validation writes: the default port of a known database type, and nothing else.\<close>

definition fill_port :: "DatabaseBackupSpec \<Rightarrow> DatabaseBackupSpec" where
  "fill_port d = (if db_Port d = None then d\<lparr>db_Port := default_port (db_Type d)\<rparr> else d)"

definition fill_target :: "BackupTarget \<Rightarrow> BackupTarget" where
  "fill_target t = (if tgt_Type t = BackupTargetTypeDatabase
     then t\<lparr>tgt_Database := map_option fill_port (tgt_Database t)\<rparr> else t)"

definition fill_task :: "BackupTask \<Rightarrow> BackupTask" where
  "fill_task r = r\<lparr>bt_Spec := (bt_Spec r)
     \<lparr>bts_Targets := map_option (map fill_target) (bts_Targets (bt_Spec r))\<rparr>\<rparr>"

subsection \<open>The error lists against the specification\<close>

lemma default_port_simps:
  "default_port ty = None \<longleftrightarrow> ty \<notin> {''mysql'', ''postgresql'', ''mongodb'', ''redis''}"
  "default_port ty = Some p \<Longrightarrow> 1 \<le> sint p \<and> sint p \<le> 65535"
  "default_port ty = Some p \<Longrightarrow> ty \<in> {''mysql'', ''postgresql'', ''mongodb'', ''redis''}"
  by (auto simp: default_port_def split: if_splits)

lemma validateDatabaseSpec_nil: "fst (validateDatabaseSpec p d) = [] \<longleftrightarrow> valid_database d"
  by (cases "default_port (db_Type d)")
    (auto simp: validateDatabaseSpec_def valid_database_def default_port_simps(1) not_less
      dest: default_port_simps(3) split: option.splits)

lemma validateDatabaseSpec_fill: "snd (validateDatabaseSpec p d) = fill_port d"
  by (auto simp: validateDatabaseSpec_def fill_port_def split: option.splits)

lemma validateDatabaseSpec_again: "fst (validateDatabaseSpec p (fill_port d)) = fst (validateDatabaseSpec p d)"
  by (auto simp: validateDatabaseSpec_def fill_port_def dest: default_port_simps(2) split: option.splits)

lemma validatePaths_nil: "validatePaths p i ds = [] \<longleftrightarrow> (\<forall>d \<in> set ds. dp_Path d \<noteq> [])"
  by (induction ds arbitrary: i) auto

lemma validateDirectorySpec_nil: "validateDirectorySpec p d = [] \<longleftrightarrow> valid_directory d"
  by (auto simp: validateDirectorySpec_def valid_directory_def validatePaths_nil not_less split: option.splits)

lemma validateNFSSpec_nil: "validateNFSSpec p n = [] \<longleftrightarrow> valid_nfs n"
  by (simp add: validateNFSSpec_def valid_nfs_def)

lemma validateRemoteStorage_nil: "validateRemoteStorage p r = [] \<longleftrightarrow> valid_storage r"
proof -
  note defs = validateRemoteStorage_def valid_storage_def api_consts
  consider "rs_Type r = ''s3''" | "rs_Type r = ''sftp''" | "rs_Type r = ''nfs''" | "rs_Type r = ''smb''"
    | "rs_Type r \<notin> {''s3'', ''sftp'', ''nfs'', ''smb''}"
    by blast
  then show ?thesis
  proof cases
    case 1 then show ?thesis by (cases "rs_S3 r") (simp_all add: defs)
  next
    case 2 then show ?thesis by (cases "rs_SFTP r") (simp_all add: defs)
  next
    case 3 then show ?thesis by (cases "rs_NFS r") (simp_all add: defs)
  next
    case 4 then show ?thesis by (cases "rs_SMB r") (simp_all add: defs)
  next
    case 5 then show ?thesis by (simp add: defs)
  qed
qed

lemma validateTarget_nil: "fst (validateTarget p t) = [] \<longleftrightarrow> valid_target t"
  by (simp add: validateTarget_def valid_target_def api_consts validateDatabaseSpec_nil
      validateDirectorySpec_nil validateNFSSpec_nil Let_def case_prod_unfold split: option.split)

lemma validateTarget_fill: "snd (validateTarget p t) = fill_target t"
  by (simp add: validateTarget_def fill_target_def api_consts validateDatabaseSpec_fill
      Let_def case_prod_unfold split: option.split)

lemma validateTarget_again: "fst (validateTarget p (fill_target t)) = fst (validateTarget p t)"
  by (simp add: validateTarget_def fill_target_def Let_def api_consts case_prod_unfold
      validateDatabaseSpec_again split: option.split)

lemma validateTargets_nil: "fst (validateTargets i ts) = [] \<longleftrightarrow> (\<forall>t \<in> set ts. valid_target t)"
  by (induction ts arbitrary: i) (simp_all add: Let_def case_prod_unfold validateTarget_nil)

lemma validateTargets_fill: "snd (validateTargets i ts) = map fill_target ts"
  by (induction ts arbitrary: i) (simp_all add: Let_def case_prod_unfold validateTarget_fill)

lemma validateTargets_again: "fst (validateTargets i (map fill_target ts)) = fst (validateTargets i ts)"
  by (induction ts arbitrary: i) (simp_all add: Let_def case_prod_unfold validateTarget_again)

lemma taskErrors_nil: "fst (taskErrors r) = [] \<longleftrightarrow> valid_task r"
  by (auto simp: taskErrors_def valid_task_def Let_def case_prod_unfold validateTargets_nil
      validateRemoteStorage_nil validateEncryption_def isValidCronSchedule_words words_cron_rx
      split: option.splits if_splits)

lemma taskErrors_fill: "snd (taskErrors r) = fill_task r"
  by (cases "bts_Targets (bt_Spec r)")
    (simp_all add: taskErrors_def fill_task_def Let_def case_prod_unfold validateTargets_fill)

lemma taskErrors_again: "fst (taskErrors (fill_task r)) = fst (taskErrors r)"
  by (cases "bts_Targets (bt_Spec r)")
    (simp_all add: taskErrors_def fill_task_def Let_def case_prod_unfold validateTargets_again)

lemma validateBackupTask_verdict: "fst (validateBackupTask r) = None \<longleftrightarrow> valid_task r"
  by (simp add: validateBackupTask_def Let_def case_prod_unfold taskErrors_nil)

lemma validateBackupTask_object: "snd (validateBackupTask r) = fill_task r"
  by (simp add: validateBackupTask_def Let_def case_prod_unfold taskErrors_fill)

subsection \<open>Where the errors point\<close>

text \<open>\<open>below p es\<close>: the errors \<open>es\<close> concern different fields, all strictly inside the field \<open>p\<close>.\<close>

definition below :: "field_path \<Rightarrow> field_error list \<Rightarrow> bool" where
  "below p es \<longleftrightarrow> distinct (map error_path es) \<and> (\<forall>e \<in> set es. \<exists>x q. error_path e = p @ x # q)"

lemma below_Nil [simp]: "below p []"
  by (simp add: below_def)

lemma below_single [simp]: "below p [e] \<longleftrightarrow> (\<exists>x q. error_path e = p @ x # q)"
  by (simp add: below_def)

lemma below_append:
  "below p es \<Longrightarrow> below p fs \<Longrightarrow> error_path ` set es \<inter> error_path ` set fs = {} \<Longrightarrow> below p (es @ fs)"
  by (auto simp: below_def)

lemma below_deeper: "below (p @ q) es \<Longrightarrow> below p es"
  unfolding below_def by (cases q) fastforce+

lemma below_apart:
  assumes "below (p @ [x]) es" and "below (p @ [y]) fs" and "x \<noteq> y"
  shows "error_path ` set es \<inter> error_path ` set fs = {}"
  using assms unfolding below_def by fastforce

lemma below_validateDatabaseSpec: "below p (fst (validateDatabaseSpec p d))"
  by (simp add: validateDatabaseSpec_def below_def split: option.split)

lemma validatePaths_paths:
  "e \<in> set (validatePaths p i ds) \<Longrightarrow> \<exists>j \<ge> i. error_path e = p @ [Child ''paths'', Index j, Child ''path'']"
  by (induction ds arbitrary: i) (auto split: if_splits dest: Suc_leD)

lemma distinct_validatePaths: "distinct (map error_path (validatePaths p i ds))"
proof (induction ds arbitrary: i)
  case (Cons d ds)
  then show ?case by (auto dest!: validatePaths_paths)
qed simp

lemma below_validatePaths: "below p (validatePaths p i ds)"
  using validatePaths_paths [of _ p i ds] distinct_validatePaths [of p i ds]
  unfolding below_def by fastforce

lemma below_validateDirectorySpec: "below p (validateDirectorySpec p d)"
proof -
  let ?a = "if elems (dir_Paths d) = []
      then [Required (p @ [Child ''paths'']) ''at least one directory path is required''] else []"
  let ?c = "case dir_CompressionLevel d of
          Some l \<Rightarrow> if sint l < 0 \<or> sint l > 9
            then [Invalid (p @ [Child ''compressionLevel'']) (IntValue (sint l))
                    ''compression level must be between 0 and 9'']
            else []
        | None \<Rightarrow> []"
  have c: "below p ?c" "e \<in> set ?c \<Longrightarrow> error_path e = p @ [Child ''compressionLevel'']" for e
    by (auto split: option.splits if_splits)
  have "below p (validatePaths p 0 (elems (dir_Paths d)) @ ?c)"
    by (rule below_append [OF below_validatePaths c(1)]) (use validatePaths_paths c(2) in fastforce)
  then have "below p (?a @ validatePaths p 0 (elems (dir_Paths d)) @ ?c)"
    by (rule below_append [rotated]) (use validatePaths_paths c(2) in \<open>fastforce+\<close>)
  then show ?thesis by (simp add: validateDirectorySpec_def)
qed

lemma below_validateNFSSpec: "below p (validateNFSSpec p n)"
  by (simp add: validateNFSSpec_def below_def)

lemma below_validateRemoteStorage: "below p (validateRemoteStorage p r)"
proof -
  note defs = validateRemoteStorage_def api_consts
  consider "rs_Type r = ''s3''" | "rs_Type r = ''sftp''" | "rs_Type r = ''nfs''" | "rs_Type r = ''smb''"
    | "rs_Type r \<notin> {''s3'', ''sftp'', ''nfs'', ''smb''}"
    by blast
  then show ?thesis
  proof cases
    case 1 then show ?thesis by (cases "rs_S3 r") (simp_all add: defs below_def)
  next
    case 2 then show ?thesis by (cases "rs_SFTP r") (simp_all add: defs below_def)
  next
    case 3 then show ?thesis by (cases "rs_NFS r") (simp_all add: defs below_def)
  next
    case 4 then show ?thesis by (cases "rs_SMB r") (simp_all add: defs below_def)
  next
    case 5 then show ?thesis by (simp add: defs)
  qed
qed

lemma below_validateEncryption: "below p (validateEncryption p e)"
  by (simp add: validateEncryption_def)

lemma below_validateTarget: "below p (fst (validateTarget p t))"
proof -
  note defs = validateTarget_def Let_def case_prod_unfold api_consts
  let ?name = "if tgt_Name t = [] then [Required (p @ [Child ''name'']) ''target name is required''] else []"
  have add_name: "below p (?name @ es)" if "below (p @ [Child x]) es \<or> (\<exists>m. es = [Required (p @ [Child x]) m])"
    and "x \<noteq> ''name''" for x es
  proof (rule below_append)
    show "below p es" using that below_deeper by fastforce
    show "error_path ` set ?name \<inter> error_path ` set es = {}"
      using that unfolding below_def by fastforce
  qed simp
  consider "tgt_Type t = ''database''" | "tgt_Type t = ''config''" | "tgt_Type t = ''directory''" | "tgt_Type t = ''nfs''"
    | "tgt_Type t \<notin> {''database'', ''config'', ''directory'', ''nfs''}"
    by blast
  then show ?thesis
  proof cases
    case 1
    with add_name [of "''database''"] show ?thesis
      by (cases "tgt_Database t") (simp_all add: defs below_validateDatabaseSpec)
  next
    case 2
    with add_name [of "''config''"] show ?thesis
      by (cases "tgt_Config t") (simp_all add: defs)
  next
    case 3
    with add_name [of "''directory''"] show ?thesis
      by (cases "tgt_Directory t") (simp_all add: defs below_validateDirectorySpec)
  next
    case 4
    with add_name [of "''nfs''"] show ?thesis
      by (cases "tgt_NFS t") (simp_all add: defs below_validateNFSSpec)
  next
    case 5
    with add_name [of "''nfs''" "[]"] show ?thesis by (simp add: defs)
  qed
qed

lemma validateTargets_below:
  "e \<in> set (fst (validateTargets i ts)) \<Longrightarrow>
   \<exists>j x q. i \<le> j \<and> j < i + length ts \<and> error_path e = Child ''spec'' # Child ''targets'' # Index j # x # q"
proof (induction ts arbitrary: i)
  case (Cons t ts)
  then consider "e \<in> set (fst (validateTarget [Child ''spec'', Child ''targets'', Index i] t))"
    | "e \<in> set (fst (validateTargets (Suc i) ts))"
    by (auto simp: Let_def case_prod_unfold)
  then show ?case
  proof cases
    case 1
    then obtain x q where "error_path e = [Child ''spec'', Child ''targets'', Index i] @ x # q"
      using below_validateTarget [of "[Child ''spec'', Child ''targets'', Index i]" t]
      unfolding below_def by blast
    then show ?thesis by (intro exI [of _ i]) simp
  next
    case 2
    from Cons.IH [OF this] obtain j x q where "Suc i \<le> j" "j < Suc i + length ts"
      "error_path e = Child ''spec'' # Child ''targets'' # Index j # x # q"
      by blast
    then show ?thesis by (intro exI [of _ j]) simp
  qed
qed simp

lemma distinct_validateTargets: "distinct (map error_path (fst (validateTargets i ts)))"
proof (induction ts arbitrary: i)
  case (Cons t ts)
  let ?p = "[Child ''spec'', Child ''targets'', Index i]"
  let ?e = "fst (validateTarget ?p t)" and ?es = "fst (validateTargets (Suc i) ts)"
  have "error_path a \<noteq> error_path b" if "a \<in> set ?e" "b \<in> set ?es" for a b
  proof -
    obtain x q where "error_path a = ?p @ x # q"
      using below_validateTarget [of ?p t] \<open>a \<in> set ?e\<close> unfolding below_def by blast
    moreover obtain j y u where "Suc i \<le> j" "error_path b = Child ''spec'' # Child ''targets'' # Index j # y # u"
      using validateTargets_below [OF \<open>b \<in> set ?es\<close>] by blast
    ultimately show ?thesis by simp
  qed
  then have "distinct (map error_path (?e @ ?es))"
    using below_validateTarget [of ?p t] Cons [of "Suc i"] unfolding below_def by auto
  then show ?case by (simp add: Let_def case_prod_unfold)
qed simp

text \<open>The fields of a task with \<open>n\<close> targets that an error may name.\<close>

fun path_ok :: "nat \<Rightarrow> field_path \<Rightarrow> bool" where
  "path_ok n (Child s # Child f # q) \<longleftrightarrow> s = ''spec'' \<and>
     (if f = ''schedule'' then q = []
      else if f = ''targets'' then (case q of [] \<Rightarrow> True | [x] \<Rightarrow> False
        | x # y # u \<Rightarrow> (case x of Index i \<Rightarrow> i < n | Child c \<Rightarrow> False))
      else f \<in> {''remoteStorage'', ''encryption''} \<and> q \<noteq> [])"
| "path_ok n p \<longleftrightarrow> False"

text \<open>The part of the task an error belongs to; errors of different parts name different fields.\<close>

definition part :: "field_path \<Rightarrow> path_elem \<times> bool" where
  "part p = (hd (tl p), tl (tl p) = [])"

lemma distinct_parts:
  assumes "distinct (map error_path es)" and "distinct (map error_path fs)"
    and "\<forall>e \<in> set es. part (error_path e) = a" and "\<forall>f \<in> set fs. part (error_path f) \<in> B" and "a \<notin> B"
  shows "distinct (map error_path (es @ fs)) \<and> (\<forall>e \<in> set (es @ fs). part (error_path e) \<in> insert a B)"
  using assms by (auto dest: arg_cong [where f = part])

lemma taskErrors_paths:
  "distinct (map error_path (fst (taskErrors r)))
   \<and> list_all (path_ok (length (bt_Targets r))) (map error_path (fst (taskErrors r)))"
proof -
  let ?s = "bt_Spec r"
  define e1 where "e1 = (if isValidCronSchedule (bts_Schedule ?s) then []
    else [Invalid [Child ''spec'', Child ''schedule''] (StrValue (bts_Schedule ?s)) ''invalid cron schedule format''])"
  define e2 where "e2 = (if bt_Targets r = []
    then [Required [Child ''spec'', Child ''targets''] ''at least one backup target is required''] else [])"
  define e3 where "e3 = fst (validateTargets 0 (bt_Targets r))"
  define e4 where "e4 = validateRemoteStorage [Child ''spec'', Child ''remoteStorage''] (bts_RemoteStorage ?s)"
  define e5 where "e5 = (case bts_Encryption ?s of
      Some e \<Rightarrow> if enc_Enabled e then validateEncryption [Child ''spec'', Child ''encryption''] e else []
    | None \<Rightarrow> [])"
  have split: "fst (taskErrors r) = e1 @ e2 @ e3 @ e4 @ e5"
    by (simp add: taskErrors_def Let_def case_prod_unfold e1_def e2_def e3_def e4_def e5_def)
  have below4: "below [Child ''spec'', Child ''remoteStorage''] e4"
    unfolding e4_def by (rule below_validateRemoteStorage)
  have below5: "below [Child ''spec'', Child ''encryption''] e5"
    unfolding e5_def by (auto intro: below_validateEncryption split: option.split)
  have p3: "path_ok (length (bt_Targets r)) (error_path e) \<and> part (error_path e) = (Child ''targets'', False)"
    if "e \<in> set e3" for e
    using validateTargets_below [OF that [unfolded e3_def]] by (auto simp: part_def)
  have p4: "path_ok n (error_path e) \<and> part (error_path e) = (Child ''remoteStorage'', False)" if "e \<in> set e4" for e n
    using below4 that unfolding below_def by (fastforce simp: part_def)
  have p5: "path_ok n (error_path e) \<and> part (error_path e) = (Child ''encryption'', False)" if "e \<in> set e5" for e n
    using below5 that unfolding below_def by (fastforce simp: part_def)
  have p1: "path_ok n (error_path e) \<and> part (error_path e) = (Child ''schedule'', True)" if "e \<in> set e1" for e n
    using that by (auto simp: e1_def part_def split: if_splits)
  have p2: "path_ok n (error_path e) \<and> part (error_path e) = (Child ''targets'', True)" if "e \<in> set e2" for e n
    using that by (auto simp: e2_def part_def split: if_splits)
  have d: "distinct (map error_path e1)" "distinct (map error_path e2)" "distinct (map error_path e3)"
    "distinct (map error_path e4)" "distinct (map error_path e5)"
    using below4 below5 by (simp_all add: e1_def e2_def e3_def distinct_validateTargets below_def)
  have "distinct (map error_path (e4 @ e5)) \<and> (\<forall>e \<in> set (e4 @ e5). part (error_path e) \<in>
      {(Child ''remoteStorage'', False), (Child ''encryption'', False)})"
    by (rule distinct_parts) (use d p4 p5 in auto)
  then have "distinct (map error_path (e3 @ e4 @ e5)) \<and> (\<forall>e \<in> set (e3 @ e4 @ e5). part (error_path e) \<in>
      {(Child ''targets'', False), (Child ''remoteStorage'', False), (Child ''encryption'', False)})"
    by (intro distinct_parts) (use d p3 in auto)
  then have "distinct (map error_path (e2 @ e3 @ e4 @ e5)) \<and> (\<forall>e \<in> set (e2 @ e3 @ e4 @ e5). part (error_path e) \<in>
      {(Child ''targets'', True), (Child ''targets'', False), (Child ''remoteStorage'', False),
       (Child ''encryption'', False)})"
    by (intro distinct_parts) (use d p2 in auto)
  then have "distinct (map error_path (e1 @ e2 @ e3 @ e4 @ e5)) \<and> (\<forall>e \<in> set (e1 @ e2 @ e3 @ e4 @ e5). part (error_path e) \<in>
      {(Child ''schedule'', True), (Child ''targets'', True), (Child ''targets'', False),
       (Child ''remoteStorage'', False), (Child ''encryption'', False)})"
    by (intro distinct_parts) (use d p1 in auto)
  then have "distinct (map error_path (e1 @ e2 @ e3 @ e4 @ e5))" ..
  moreover have "list_all (path_ok (length (bt_Targets r))) (map error_path (e1 @ e2 @ e3 @ e4 @ e5))"
    using p1 p2 p3 p4 p5 by (auto simp: list_all_iff)
  ultimately show ?thesis unfolding split by blast
qed

section \<open>The contract of an admission chain\<close>

text \<open>
  The API server runs the defaulter, then the validator, and admits what comes out; every later
  update goes through both again.  The chain is stable when an object that was admitted is admitted
  again, unchanged.
\<close>

locale admission =
  fixes dflt :: "'o \<Rightarrow> 'o" and check :: "'o \<Rightarrow> 'e option \<times> 'o"
  assumes dflt_idem: "dflt (dflt t) = dflt t"
    and check_again: "check (snd (check t)) = check t"
    and dflt_check: "dflt (snd (check t)) = snd (check (dflt t))"
    and verdict_dflt: "fst (check (dflt t)) = fst (check t)"
begin

lemma readmission: "check (dflt (snd (check (dflt t)))) = check (dflt t)"
  by (simp add: dflt_check dflt_idem check_again)

lemma admitted_iff: "fst (check (dflt t)) = None \<longleftrightarrow> fst (check t) = None"
  by (simp add: verdict_dflt)

end

lemma fill_port_idem [simp]: "fill_port (fill_port d) = fill_port d"
  by (simp add: fill_port_def)

lemma fill_target_idem [simp]: "fill_target (fill_target t) = fill_target t"
  by (simp add: fill_target_def option.map_comp comp_def)

lemma fill_task_idem [simp]: "fill_task (fill_task r) = fill_task r"
  by (simp add: fill_task_def option.map_comp comp_def)

text \<open>Defaulting in one step: the pod template and the encryption settings are all it writes.\<close>

definition default_encryption :: "EncryptionSpec \<Rightarrow> EncryptionSpec" where
  "default_encryption e = e\<lparr>
     enc_Algorithm := (if enc_Enabled e \<and> enc_Algorithm e = [] then ''aes-256-gcm'' else enc_Algorithm e),
     enc_EncryptAfterCompress := (case enc_EncryptAfterCompress e of None \<Rightarrow> Some True | x \<Rightarrow> x)\<rparr>"

definition default_template :: "PodTemplateSpec option \<Rightarrow> PodTemplateSpec option" where
  "default_template t = (case t of None \<Rightarrow> Some \<lparr>pt_Metadata = None, pt_Spec = None\<rparr> | x \<Rightarrow> x)"

lemma Default_eq:
  "Default r = r\<lparr>bt_Spec := (bt_Spec r)\<lparr>
     bts_Encryption := map_option default_encryption (bts_Encryption (bt_Spec r)),
     bts_PodTemplate := default_template (bts_PodTemplate (bt_Spec r))\<rparr>\<rparr>"
proof -
  obtain m s st where r: "r = \<lparr>bt_Meta = m, bt_Spec = s, bt_Status = st\<rparr>" by (cases r)
  obtain a b c d e f g h i j where s: "s = \<lparr>bts_Schedule = a, bts_Retention = b, bts_Targets = c,
    bts_RemoteStorage = d, bts_Encryption = e, bts_PodTemplate = f, bts_PostBackupHooks = g,
    bts_Resources = h, bts_BackupImage = i, bts_BackupCmd = j\<rparr>"
    by (cases s)
  show ?thesis
  proof (cases e)
    case None
    then show ?thesis by (cases f) (simp_all add: r s Default_def default_template_def Let_def)
  next
    case (Some x)
    obtain en al k ac where "x = \<lparr>enc_Enabled = en, enc_Algorithm = al, enc_KeySecretRef = k,
      enc_EncryptAfterCompress = ac\<rparr>"
      by (cases x)
    with Some show ?thesis
      by (cases f; cases ac; cases en; cases al)
        (simp_all add: r s Default_def default_template_def default_encryption_def Let_def)
  qed
qed

lemma default_encryption_idem: "default_encryption (default_encryption e) = default_encryption e"
  by (cases e; cases "enc_EncryptAfterCompress e") (simp_all add: default_encryption_def)

lemma default_template_idem: "default_template (default_template t) = default_template t"
  by (cases t) (simp_all add: default_template_def)

lemma default_encryption_keeps [simp]:
  "enc_Enabled (default_encryption e) = enc_Enabled e"
  "enc_KeySecretRef (default_encryption e) = enc_KeySecretRef e"
  by (simp_all add: default_encryption_def)

lemma Default_idem: "Default (Default r) = Default r"
  by (simp add: Default_eq option.map_comp comp_def default_encryption_idem default_template_idem)

lemma Default_fill: "Default (fill_task r) = fill_task (Default r)"
  by (simp add: Default_eq fill_task_def)

lemma taskErrors_Default: "fst (taskErrors (Default r)) = fst (taskErrors r)"
  by (cases "bts_Encryption (bt_Spec r)")
    (simp_all add: Default_eq taskErrors_def Let_def case_prod_unfold validateEncryption_def)

lemma Default_meta [simp]: "bt_Meta (Default r) = bt_Meta r"
  by (simp add: Default_eq)

lemma fill_task_meta [simp]: "bt_Meta (fill_task r) = bt_Meta r"
  by (simp add: fill_task_def)

interpretation api: admission Default validateBackupTask
  by unfold_locales
    (simp_all add: Default_idem Default_fill validateBackupTask_def Let_def case_prod_unfold
      taskErrors_fill taskErrors_again taskErrors_Default)

interpretation custom: admission "\<lambda>obj. snd (BackupTaskCustomDefaulter_Default obj)"
    "\<lambda>obj. (BackupTaskCustomValidator_ValidateCreate obj, obj)"
  by unfold_locales (simp_all add: BackupTaskCustomDefaulter_Default_def split: runtime_object.split)

section \<open>Properties\<close>



text \<open>
  An update is accepted exactly when the old object is a BackupTask with the same schedule and
  the new one is valid; in particular the schedule of a task never changes.
\<close>

theorem ValidateUpdate_accepts:
  "fst (ValidateUpdate r old) = None \<longleftrightarrow>
     valid_task r \<and> (\<exists>t. old = ObjTask t \<and> bts_Schedule (bt_Spec t) = bts_Schedule (bt_Spec r))"
  by (auto simp: ValidateUpdate_def validateBackupTask_verdict split: runtime_object.split)

text \<open>
  C31: the chain of defaulting and validation is stable: what it returns for a task, sent through it
  again, gets the same verdict and comes out unchanged.
\<close>

theorem admission_stable:
  "validateBackupTask (Default (snd (validateBackupTask (Default r)))) = validateBackupTask (Default r)"
  by (rule api.readmission)

text \<open>
  The handlers the manager registers admit every BackupTask and change none, although the
  validation of package v1alpha1 rejects some, for example the empty task.
\<close>

theorem registered_webhook_checks_nothing:
  "(\<forall>t. BackupTaskCustomDefaulter_Default (ObjTask t) = (None, ObjTask t)
      \<and> BackupTaskCustomValidator_ValidateCreate (ObjTask t) = None
      \<and> (\<forall>old. BackupTaskCustomValidator_ValidateUpdate old (ObjTask t) = None))
   \<and> fst (ValidateCreate zero_task) \<noteq> None"
  by (simp add: BackupTaskCustomDefaulter_Default_def BackupTaskCustomValidator_ValidateCreate_def
      BackupTaskCustomValidator_ValidateUpdate_def ValidateCreate_def validateBackupTask_verdict
      valid_task_def zero_task_def zero_task_spec_def)

end
