(* ===== verification/Pod_Builder.thy ===== *)
theory Pod_Builder
  imports Api_Types
begin

text \<open>
  What \<open>internal/controller/backuptask_controller.go\<close> builds for a task before it talks to the API
  server: the specification of the cron job with its pod, volumes, container, environment and
  mounts (\<open>buildCronJobSpec\<close> and the functions it calls), with the constants of
  \<open>internal/controller/constants.go\<close>.  The parameter \<open>uni\<close> is the Unicode part of
  \<open>strings.ToUpper\<close>.  The lemmas show that every mount has its volume, when volume names collide,
  and that the retention policy can be read back from the environment of the container.
\<close>

section \<open>Constants\<close>

named_theorems ctrl_consts

definition backupTaskFinalizer :: string where [ctrl_consts]: "backupTaskFinalizer = ''backup.mybackup.com/finalizer''"
definition backupTaskLabelKey :: string where [ctrl_consts]: "backupTaskLabelKey = ''backup.mybackup.com/backup-task''"
definition backupTaskUIDLabelKey :: string where [ctrl_consts]: "backupTaskUIDLabelKey = ''backup.mybackup.com/backup-task-uid''"
definition createdByLabelKey :: string where [ctrl_consts]: "createdByLabelKey = ''backup.mybackup.com/created-by''"
definition backupContainerName :: string where [ctrl_consts]: "backupContainerName = ''backup''"
definition defaultBackupImage :: string where [ctrl_consts]: "defaultBackupImage = ''backup-agent:latest''"
definition defaultBackupCmd :: string where [ctrl_consts]: "defaultBackupCmd = ''/backup/scripts/backup.sh''"
definition backupDataVolumeName :: string where [ctrl_consts]: "backupDataVolumeName = ''backup-data''"
definition configVolumeName :: string where [ctrl_consts]: "configVolumeName = ''backup-config''"
definition temporaryVolumeName :: string where [ctrl_consts]: "temporaryVolumeName = ''temp''"

section \<open>Volumes and mounts\<close>

definition getTargetConfigMapName :: "BackupTask \<Rightarrow> string" where
  "getTargetConfigMapName backupTask = bt_Name backupTask @ ''-targets''"

text \<open>
  The nested loops over targets and directory paths that \<open>buildVolumes\<close> and \<open>buildVolumeMounts\<close>
  share; the body gets the index of the path in its target, the path and its PVC reference.
\<close>

definition for_pvcs :: "(nat \<Rightarrow> DirectoryPath \<Rightarrow> typed_local_ref \<Rightarrow> 'a) \<Rightarrow> BackupTarget list \<Rightarrow> 'a list" where
  "for_pvcs body targets = concat (map (\<lambda>target.
     case tgt_Directory target of
       None \<Rightarrow> []
     | Some dir \<Rightarrow> concat (map (\<lambda>(i, dirPath).
         case dp_PVCRef dirPath of None \<Rightarrow> [] | Some ref \<Rightarrow> [body i dirPath ref])
         (enumerate 0 (elems (dir_Paths dir))))) targets)"

definition uses_nfs :: "RemoteStorageSpec \<Rightarrow> NFSStorageSpec option" where
  "uses_nfs rs = (if rs_Type rs = RemoteStorageTypeNFS then rs_NFS rs else None)"

definition buildVolumes :: "BackupTask \<Rightarrow> volume list" where
  "buildVolumes backupTask =
     [\<lparr>vol_Name = backupDataVolumeName,
       vol_Source = EmptyDir '''' (NewQuantityBinarySI (10 * 1024 * 1024 * 1024))\<rparr>,
      \<lparr>vol_Name = temporaryVolumeName,
       vol_Source = EmptyDir '''' (NewQuantityBinarySI (5 * 1024 * 1024 * 1024))\<rparr>,
      \<lparr>vol_Name = configVolumeName,
       vol_Source = ConfigMapSource (getTargetConfigMapName backupTask)
         [\<lparr>kp_Key = ''targets.json'', kp_Path = ''targets.json''\<rparr>,
          \<lparr>kp_Key = ''remotestorage.json'', kp_Path = ''remotestorage.json''\<rparr>]
         (Some 420)\<rparr>]
     @ for_pvcs (\<lambda>i dirPath ref. \<lparr>vol_Name = ''pvc-'' @ tl_Name ref,
         vol_Source = PersistentVolumeClaim (tl_Name ref) True\<rparr>) (bt_Targets backupTask)
     @ (case uses_nfs (bts_RemoteStorage (bt_Spec backupTask)) of
          Some nfs \<Rightarrow> [\<lparr>vol_Name = ''nfs-storage'', vol_Source = NFSSource (nfs_Server nfs) (nfs_Path nfs)\<rparr>]
        | None \<Rightarrow> [])"

definition buildVolumeMounts :: "BackupTask \<Rightarrow> volume_mount list" where
  "buildVolumeMounts backupTask =
     [\<lparr>vm_Name = backupDataVolumeName, vm_MountPath = ''/backup/data'', vm_SubPath = [], vm_ReadOnly = False\<rparr>,
      \<lparr>vm_Name = temporaryVolumeName, vm_MountPath = ''/tmp'', vm_SubPath = [], vm_ReadOnly = False\<rparr>,
      \<lparr>vm_Name = configVolumeName, vm_MountPath = ''/etc/backup/config'', vm_SubPath = [], vm_ReadOnly = True\<rparr>]
     @ (case uses_nfs (bts_RemoteStorage (bt_Spec backupTask)) of
          Some nfs \<Rightarrow> [\<lparr>vm_Name = ''nfs-storage'', vm_MountPath = ''/mnt/nfs-backup'', vm_SubPath = [], vm_ReadOnly = False\<rparr>]
        | None \<Rightarrow> [])
     @ for_pvcs (\<lambda>i dirPath ref. \<lparr>vm_Name = ''pvc-'' @ tl_Name ref, vm_MountPath = dp_Path dirPath,
         vm_SubPath = dp_SubPath dirPath, vm_ReadOnly = True\<rparr>) (bt_Targets backupTask)"

section \<open>The container\<close>

definition getBackupImage :: "BackupTask \<Rightarrow> string" where
  "getBackupImage backupTask =
     (if bts_BackupImage (bt_Spec backupTask) \<noteq> [] then bts_BackupImage (bt_Spec backupTask)
      else defaultBackupImage)"

text \<open>The source asks for the image here as well, not for the command.\<close>

definition getBackupCmd :: "BackupTask \<Rightarrow> string" where
  "getBackupCmd backupTask =
     (if bts_BackupImage (bt_Spec backupTask) \<noteq> [] then bts_BackupCmd (bt_Spec backupTask)
      else defaultBackupCmd)"

definition env :: "string \<Rightarrow> string \<Rightarrow> env_var" where
  "env name value = \<lparr>ev_Name = name, ev_Value = value, ev_FieldPath = None\<rparr>"

definition env_field :: "string \<Rightarrow> string \<Rightarrow> env_var" where
  "env_field name path = \<lparr>ev_Name = name, ev_Value = [], ev_FieldPath = Some path\<rparr>"

definition retentionPolicyToEnv :: "RetentionPolicy option \<Rightarrow> env_var list" where
  "retentionPolicyToEnv policy =
     (case policy of
        None \<Rightarrow> []
      | Some p \<Rightarrow>
          (case rp_MaxAgeDays p of None \<Rightarrow> []
           | Some n \<Rightarrow> [env ''RETENTION_MAX_AGE_DAYS'' (Itoa (goint n))])
          @ (case rp_MaxBackupCount p of None \<Rightarrow> []
             | Some n \<Rightarrow> [env ''RETENTION_MAX_BACKUP_COUNT'' (Itoa (goint n))])
          @ (case rp_KeepLast p of None \<Rightarrow> []
             | Some k \<Rightarrow>
                 (if kl_Hours k \<noteq> 0 then [env ''RETENTION_KEEP_LAST_HOURS'' (Itoa (goint (kl_Hours k)))] else [])
                 @ (if kl_Days k \<noteq> 0 then [env ''RETENTION_KEEP_LAST_DAYS'' (Itoa (goint (kl_Days k)))] else [])
                 @ (if kl_Weeks k \<noteq> 0 then [env ''RETENTION_KEEP_LAST_WEEKS'' (Itoa (goint (kl_Weeks k)))] else [])
                 @ (if kl_Months k \<noteq> 0 then [env ''RETENTION_KEEP_LAST_MONTHS'' (Itoa (goint (kl_Months k)))] else [])))"

definition buildEnvVars :: "BackupTask \<Rightarrow> env_var list" where
  "buildEnvVars backupTask =
     [env ''BACKUP_TASK_NAME'' (bt_Name backupTask),
      env ''BACKUP_TASK_NAMESPACE'' (bt_Namespace backupTask),
      env_field ''BACKUP_ID'' ''metadata.uid'',
      env_field ''POD_NAME'' ''metadata.name'']
     @ retentionPolicyToEnv (bts_Retention (bt_Spec backupTask))"

text \<open>The prefix of the variables of a database target's secret.\<close>

definition db_prefix :: "(string \<Rightarrow> string) \<Rightarrow> string \<Rightarrow> string" where
  "db_prefix uni name = ''DB_'' @ ToUpper uni (ReplaceAll (CHR ''-'') (CHR ''_'') name) @ ''_''"

definition buildEnvFrom :: "(string \<Rightarrow> string) \<Rightarrow> BackupTask \<Rightarrow> env_from_source list" where
  "buildEnvFrom uni backupTask =
     (case bts_Encryption (bt_Spec backupTask) of
        Some e \<Rightarrow> if sr_Name (enc_KeySecretRef e) \<noteq> []
          then [\<lparr>ef_Prefix = ''ENCRYPTION_'', ef_SecretName = sr_Name (enc_KeySecretRef e), ef_Optional = Some True\<rparr>]
          else []
      | None \<Rightarrow> [])
     @ concat (map (\<lambda>target.
         (case tgt_Database target of
            Some db \<Rightarrow> if tgt_Type target = ''database'' \<and> sr_Name (db_AuthSecretRef db) \<noteq> []
              then [\<lparr>ef_Prefix = db_prefix uni (tgt_Name target), ef_SecretName = sr_Name (db_AuthSecretRef db),
                     ef_Optional = Some True\<rparr>]
              else []
          | None \<Rightarrow> [])) (bt_Targets backupTask))"

definition buildContainerResources :: "BackupTask \<Rightarrow> resource_requirements" where
  "buildContainerResources backupTask =
     (case bts_Resources (bt_Spec backupTask) of
        Some r \<Rightarrow> r
      | None \<Rightarrow> \<lparr>rr_Requests = [(''cpu'', MustParse ''100m''), (''memory'', MustParse ''256Mi'')],
                 rr_Limits = [(''cpu'', MustParse ''500m''), (''memory'', MustParse ''1Gi'')], rr_rest = []\<rparr>)"

definition buildContainers :: "(string \<Rightarrow> string) \<Rightarrow> BackupTask \<Rightarrow> container list" where
  "buildContainers uni backupTask =
     (let containers =
        [\<lparr>c_Name = backupContainerName,
          c_Image = getBackupImage backupTask,
          c_ImagePullPolicy = [],
          c_Command = [''/bin/bash'', ''-c'', getBackupCmd backupTask],
          c_Env = buildEnvVars backupTask,
          c_EnvFrom = buildEnvFrom uni backupTask,
          c_VolumeMounts = buildVolumeMounts backupTask,
          c_Resources = buildContainerResources backupTask,
          c_SecurityContext = None\<rparr>]
      in map (\<lambda>c. if c_ImagePullPolicy c = [] then c\<lparr>c_ImagePullPolicy := ''Always''\<rparr> else c) containers)"

section \<open>The pod and the cron job\<close>

definition default_affinity :: affinity where
  "default_affinity = \<lparr>af_NodePreferred = [\<lparr>pf_Weight = 100, pf_MatchExpressions =
     [\<lparr>lr_Key = ''node-role.kubernetes.io/backup'', lr_Operator = ''In'', lr_Values = [''true'']\<rparr>]\<rparr>],
     af_rest = []\<rparr>"

definition template_pod_spec :: "BackupTask \<Rightarrow> pod_spec" where
  "template_pod_spec backupTask =
     (case bts_PodTemplate (bt_Spec backupTask) of
        None \<Rightarrow> zero_pod_spec
      | Some t \<Rightarrow> (case pt_Spec t of None \<Rightarrow> zero_pod_spec | Some s \<Rightarrow> s))"

definition buildBackupPodSpec :: "(string \<Rightarrow> string) \<Rightarrow> BackupTask \<Rightarrow> pod_spec" where
  "buildBackupPodSpec uni backupTask =
     (let podSpec = template_pod_spec backupTask;
          podSpec = (if ps_RestartPolicy podSpec = [] then podSpec\<lparr>ps_RestartPolicy := ''OnFailure''\<rparr> else podSpec);
          podSpec = podSpec\<lparr>ps_Volumes := buildVolumes backupTask\<rparr>;
          podSpec = podSpec\<lparr>ps_Containers := buildContainers uni backupTask\<rparr>;
          podSpec = (if ps_ServiceAccountName podSpec = [] then podSpec\<lparr>ps_ServiceAccountName := ''backup-agent''\<rparr> else podSpec)
      in if ps_Affinity podSpec = None then podSpec\<lparr>ps_Affinity := Some default_affinity\<rparr> else podSpec)"

definition task_labels :: "BackupTask \<Rightarrow> labels" where
  "task_labels backupTask =
     [(backupTaskLabelKey, bt_Name backupTask),
      (backupTaskUIDLabelKey, om_UID (bt_Meta backupTask)),
      (createdByLabelKey, ''backup-operator'')]"

definition buildCronJobSpec :: "(string \<Rightarrow> string) \<Rightarrow> BackupTask \<Rightarrow> cron_job_spec" where
  "buildCronJobSpec uni backupTask =
     \<lparr>cjs_Schedule = bts_Schedule (bt_Spec backupTask),
      cjs_StartingDeadlineSeconds = Some 300,
      cjs_ConcurrencyPolicy = ''Forbid'',
      cjs_Suspend = Some False,
      cjs_SuccessfulJobsHistoryLimit = Some 3,
      cjs_FailedJobsHistoryLimit = Some 1,
      cjs_JobLabels = task_labels backupTask,
      cjs_JobSpec =
        \<lparr>js_BackoffLimit = Some 3,
         js_TTLSecondsAfterFinished = Some 86400,
         js_PodLabels = task_labels backupTask,
         js_PodSpec = buildBackupPodSpec uni backupTask\<rparr>\<rparr>"

section \<open>The contract between volumes and mounts\<close>

text \<open>
  A pod is accepted by the API server only if every mount names one of its volumes.  A backup reads
  the claims it saves, so a claim is never mounted writable.
\<close>

definition mounts_resolved :: "pod_spec \<Rightarrow> bool" where
  "mounts_resolved p = list_all (\<lambda>c. vm_Name ` set (c_VolumeMounts c) \<subseteq> vol_Name ` set (ps_Volumes p))
     (ps_Containers p)"

fun claim_writable :: "volume_source \<Rightarrow> bool \<Rightarrow> bool" where
  "claim_writable (PersistentVolumeClaim c ro) mount_ro = (\<not> ro \<or> \<not> mount_ro)"
| "claim_writable src mount_ro = False"

definition claims_read_only :: "pod_spec \<Rightarrow> bool" where
  "claims_read_only p = list_all (\<lambda>c. list_all (\<lambda>m. list_all (\<lambda>v.
     \<not> (vol_Name v = vm_Name m \<and> claim_writable (vol_Source v) (vm_ReadOnly m)))
     (ps_Volumes p)) (c_VolumeMounts c)) (ps_Containers p)"

locale volume_contract =
  fixes vols :: "BackupTask \<Rightarrow> volume list" and mounts :: "BackupTask \<Rightarrow> volume_mount list"
  assumes mounts_declared: "vm_Name ` set (mounts t) \<subseteq> vol_Name ` set (vols t)"
    and claims_protected: "m \<in> set (mounts t) \<Longrightarrow> v \<in> set (vols t) \<Longrightarrow> vol_Name v = vm_Name m \<Longrightarrow>
      \<not> claim_writable (vol_Source v) (vm_ReadOnly m)"
begin

lemma pod_accepted:
  assumes "ps_Volumes p = vols t" and "\<And>c. c \<in> set (ps_Containers p) \<Longrightarrow> c_VolumeMounts c = [] \<or> c_VolumeMounts c = mounts t"
  shows "mounts_resolved p \<and> claims_read_only p"
  using assms mounts_declared [of t] claims_protected [of _ t]
  by (fastforce simp: mounts_resolved_def claims_read_only_def list_all_iff)

end

subsection \<open>The loop over the claims\<close>

definition pvc_list :: "BackupTarget list \<Rightarrow> (nat \<times> DirectoryPath \<times> typed_local_ref) list" where
  "pvc_list ts = for_pvcs (\<lambda>i d r. (i, d, r)) ts"

lemma for_pvcs_map: "for_pvcs body ts = map (\<lambda>(i, d, r). body i d r) (pvc_list ts)"
  unfolding pvc_list_def for_pvcs_def map_concat map_map comp_def
  by (intro arg_cong [where f = concat] map_cong refl)
    (auto simp: map_concat comp_def intro!: arg_cong [where f = concat] split: option.split)

definition claim_names :: "BackupTask \<Rightarrow> string list" where
  "claim_names t = map (\<lambda>(i, d, r). tl_Name r) (pvc_list (bt_Targets t))"

lemma buildVolumes_names:
  "map vol_Name (buildVolumes t) = [''backup-data'', ''temp'', ''backup-config''] @ map (\<lambda>n. ''pvc-'' @ n) (claim_names t)
     @ (case uses_nfs (bts_RemoteStorage (bt_Spec t)) of Some nfs \<Rightarrow> [''nfs-storage''] | None \<Rightarrow> [])"
  by (auto simp: buildVolumes_def for_pvcs_map claim_names_def ctrl_consts case_prod_unfold split: option.split)

lemma buildVolumeMounts_names:
  "map vm_Name (buildVolumeMounts t) = [''backup-data'', ''temp'', ''backup-config'']
     @ (case uses_nfs (bts_RemoteStorage (bt_Spec t)) of Some nfs \<Rightarrow> [''nfs-storage''] | None \<Rightarrow> [])
     @ map (\<lambda>n. ''pvc-'' @ n) (claim_names t)"
  by (auto simp: buildVolumeMounts_def for_pvcs_map claim_names_def ctrl_consts case_prod_unfold split: option.split)

lemma buildVolumes_claim:
  "v \<in> set (buildVolumes t) \<Longrightarrow> claim_writable (vol_Source v) ro \<Longrightarrow> \<not> ro \<and> (\<exists>n. vol_Name v = ''pvc-'' @ n)"
  by (auto simp: buildVolumes_def for_pvcs_map split: option.splits)

lemma buildVolumeMounts_claim:
  "m \<in> set (buildVolumeMounts t) \<Longrightarrow> vm_Name m = ''pvc-'' @ n \<Longrightarrow> vm_ReadOnly m"
  by (auto simp: buildVolumeMounts_def for_pvcs_map ctrl_consts split: option.splits)

interpretation internal_pod: volume_contract buildVolumes buildVolumeMounts
proof
  show "vm_Name ` set (buildVolumeMounts t) \<subseteq> vol_Name ` set (buildVolumes t)" for t
    unfolding set_map [symmetric] buildVolumes_names buildVolumeMounts_names set_append
    by blast
  show "\<not> claim_writable (vol_Source v) (vm_ReadOnly m)"
    if "m \<in> set (buildVolumeMounts t)" "v \<in> set (buildVolumes t)" "vol_Name v = vm_Name m" for t m v
    using buildVolumes_claim [OF that(2)] buildVolumeMounts_claim [OF that(1)] that(3) by auto
qed

lemma podSpec_fields:
  "ps_Volumes (buildBackupPodSpec uni t) = buildVolumes t"
  "ps_Containers (buildBackupPodSpec uni t) = buildContainers uni t"
  "ps_rest (buildBackupPodSpec uni t) = ps_rest (template_pod_spec t)"
  "ps_RestartPolicy (buildBackupPodSpec uni t) =
     (if ps_RestartPolicy (template_pod_spec t) = [] then ''OnFailure'' else ps_RestartPolicy (template_pod_spec t))"
  "ps_ServiceAccountName (buildBackupPodSpec uni t) =
     (if ps_ServiceAccountName (template_pod_spec t) = [] then ''backup-agent'' else ps_ServiceAccountName (template_pod_spec t))"
  "ps_Affinity (buildBackupPodSpec uni t) =
     (case ps_Affinity (template_pod_spec t) of None \<Rightarrow> Some default_affinity | Some a \<Rightarrow> Some a)"
  by (simp_all add: buildBackupPodSpec_def Let_def split: option.split)

lemma buildContainers_mounts: "c \<in> set (buildContainers uni t) \<Longrightarrow> c_VolumeMounts c = buildVolumeMounts t"
  by (simp add: buildContainers_def)

section \<open>Reading the environment back\<close>

definition env_lookup :: "string \<Rightarrow> env_var list \<Rightarrow> string option" where
  "env_lookup n es = map_of (map (\<lambda>e. (ev_Name e, ev_Value e)) es) n"

lemma env_lookup_simps [simp]:
  "env_lookup n [] = None"
  "env_lookup n (env m v # es) = (if n = m then Some v else env_lookup n es)"
  "env_lookup n (env_field m p # es) = (if n = m then Some [] else env_lookup n es)"
  "env_lookup n (xs @ ys) = (case env_lookup n xs of None \<Rightarrow> env_lookup n ys | Some v \<Rightarrow> Some v)"
  by (auto simp: env_lookup_def env_def env_field_def map_add_def split: option.splits)

lemma env_lookup_opt [simp]:
  "env_lookup n (case x of None \<Rightarrow> [] | Some v \<Rightarrow> [env m (f v)]) = (if n = m then map_option f x else None)"
  by (cases x) auto

lemma env_lookup_if [simp]:
  "env_lookup n (if b then [env m v] else []) = (if n = m \<and> b then Some v else None)"
  by simp

text \<open>What an agent that reads the variables learns of the policy.\<close>

definition env_int32 :: "string \<Rightarrow> env_var list \<Rightarrow> int32 option" where
  "env_int32 n es = map_option (\<lambda>v. word_of_int (Atoi v)) (env_lookup n es)"

definition env_count :: "string \<Rightarrow> env_var list \<Rightarrow> int32" where
  "env_count n es = (case env_int32 n es of None \<Rightarrow> 0 | Some w \<Rightarrow> w)"

definition keep_last_of_env :: "env_var list \<Rightarrow> KeepLastPolicy" where
  "keep_last_of_env es = \<lparr>kl_Hours = env_count ''RETENTION_KEEP_LAST_HOURS'' es,
     kl_Days = env_count ''RETENTION_KEEP_LAST_DAYS'' es, kl_Weeks = env_count ''RETENTION_KEEP_LAST_WEEKS'' es,
     kl_Months = env_count ''RETENTION_KEEP_LAST_MONTHS'' es\<rparr>"

definition zero_keep_last :: KeepLastPolicy where
  "zero_keep_last = \<lparr>kl_Hours = 0, kl_Days = 0, kl_Weeks = 0, kl_Months = 0\<rparr>"

definition keep_last_or_zero :: "RetentionPolicy option \<Rightarrow> KeepLastPolicy" where
  "keep_last_or_zero r = (case Option.bind r rp_KeepLast of None \<Rightarrow> zero_keep_last | Some k \<Rightarrow> k)"

lemma retention_env_days:
  "env_int32 ''RETENTION_MAX_AGE_DAYS'' (retentionPolicyToEnv r) = Option.bind r rp_MaxAgeDays"
  "env_int32 ''RETENTION_MAX_BACKUP_COUNT'' (retentionPolicyToEnv r) = Option.bind r rp_MaxBackupCount"
  by (auto simp: env_int32_def retentionPolicyToEnv_def option.map_comp comp_def
      split: option.split)

lemma env_count_if: "(case (if b then Some v else None) of None \<Rightarrow> (0 :: int32) | Some w \<Rightarrow> w) = (if b then v else 0)"
  by simp

lemma retention_env_keep_last:
  "keep_last_of_env (retentionPolicyToEnv r) = keep_last_or_zero r"
proof (cases "Option.bind r rp_KeepLast")
  case None
  then show ?thesis
    by (cases r) (simp_all add: keep_last_of_env_def keep_last_or_zero_def zero_keep_last_def env_count_def
        env_int32_def retentionPolicyToEnv_def)
next
  case (Some k)
  then show ?thesis
    by (cases r; cases k) (auto simp: keep_last_of_env_def keep_last_or_zero_def env_count_def
        env_int32_def retentionPolicyToEnv_def)
qed

lemma env_lookup_task: "n \<notin> {''BACKUP_TASK_NAME'', ''BACKUP_TASK_NAMESPACE'', ''BACKUP_ID'', ''POD_NAME''} \<Longrightarrow>
    env_lookup n (buildEnvVars t) = env_lookup n (retentionPolicyToEnv (bts_Retention (bt_Spec t)))"
  by (simp add: buildEnvVars_def)

lemma retention_names: "map ev_Name (retentionPolicyToEnv r) \<in> set (subseqs
   [''RETENTION_MAX_AGE_DAYS'', ''RETENTION_MAX_BACKUP_COUNT'', ''RETENTION_KEEP_LAST_HOURS'',
    ''RETENTION_KEEP_LAST_DAYS'', ''RETENTION_KEEP_LAST_WEEKS'', ''RETENTION_KEEP_LAST_MONTHS''])"
  by (cases r; cases "Option.bind r rp_MaxAgeDays"; cases "Option.bind r rp_MaxBackupCount";
      cases "Option.bind r rp_KeepLast")
    (simp_all add: retentionPolicyToEnv_def env_def Let_def)

lemma distinct_env_names: "distinct (map ev_Name (buildEnvVars t))"
proof -
  let ?ks = "[''RETENTION_MAX_AGE_DAYS'', ''RETENTION_MAX_BACKUP_COUNT'', ''RETENTION_KEEP_LAST_HOURS'',
    ''RETENTION_KEEP_LAST_DAYS'', ''RETENTION_KEEP_LAST_WEEKS'', ''RETENTION_KEEP_LAST_MONTHS'']"
  let ?ns = "map ev_Name (retentionPolicyToEnv (bts_Retention (bt_Spec t)))"
  have "distinct ?ks" by simp
  with retention_names have "distinct ?ns" by (rule subseqs_distinctD)
  moreover have "set ?ns \<in> Pow (set ?ks)"
    unfolding subseqs_powset [symmetric] using retention_names by (rule imageI)
  ultimately show ?thesis
    by (simp add: buildEnvVars_def env_def env_field_def) fastforce
qed

section \<open>The prefixes of the secrets\<close>

definition db_secret_names :: "BackupTask \<Rightarrow> string list" where
  "db_secret_names t = concat (map (\<lambda>target. case tgt_Database target of
      Some db \<Rightarrow> if tgt_Type target = ''database'' \<and> sr_Name (db_AuthSecretRef db) \<noteq> [] then [tgt_Name target] else []
    | None \<Rightarrow> []) (bt_Targets t))"

lemma buildEnvFrom_prefixes:
  "map ef_Prefix (buildEnvFrom uni t) =
     (case bts_Encryption (bt_Spec t) of
        Some e \<Rightarrow> if sr_Name (enc_KeySecretRef e) \<noteq> [] then [''ENCRYPTION_''] else []
      | None \<Rightarrow> [])
     @ map (db_prefix uni) (db_secret_names t)"
  unfolding buildEnvFrom_def db_secret_names_def map_append map_concat map_map comp_def
  by (intro arg_cong2 [where f = append] arg_cong [where f = concat] map_cong refl)
    (simp_all split: option.split)

lemma db_prefix_inject:
  "db_prefix uni m = db_prefix uni n \<longleftrightarrow>
     ToUpper uni (ReplaceAll CHR ''-'' CHR ''_'' m) = ToUpper uni (ReplaceAll CHR ''-'' CHR ''_'' n)"
  by (simp add: db_prefix_def)

section \<open>Properties\<close>


text \<open>
  C40: the volume names of the pod are distinct, as the API server demands, exactly when no claim is
  referenced by two directory paths of the task.
\<close>

theorem backup_volume_names_distinct:
  "distinct (map vol_Name (ps_Volumes (buildBackupPodSpec uni t))) \<longleftrightarrow> distinct (claim_names t)"
  unfolding podSpec_fields buildVolumes_names
  by (auto simp: distinct_map inj_on_def split: option.split)

text \<open>
  C29: the environment of the container carries the retention policy without loss: reading the
  variables back gives the age limit, the count limit and the keep-last numbers of the task (a
  number that is 0 counts as not set), and no variable is defined twice.
\<close>

theorem retention_env_roundtrip:
  "env_int32 ''RETENTION_MAX_AGE_DAYS'' (buildEnvVars t) = Option.bind (bts_Retention (bt_Spec t)) rp_MaxAgeDays
   \<and> env_int32 ''RETENTION_MAX_BACKUP_COUNT'' (buildEnvVars t) = Option.bind (bts_Retention (bt_Spec t)) rp_MaxBackupCount
   \<and> keep_last_of_env (buildEnvVars t) = keep_last_or_zero (bts_Retention (bt_Spec t))
   \<and> distinct (map ev_Name (buildEnvVars t))"
proof -
  let ?r = "bts_Retention (bt_Spec t)"
  have "keep_last_of_env (buildEnvVars t) = keep_last_of_env (retentionPolicyToEnv ?r)"
    by (simp add: keep_last_of_env_def env_count_def env_int32_def env_lookup_task)
  then show ?thesis
    using retention_env_days [of ?r] retention_env_keep_last [of ?r] distinct_env_names [of t]
    by (simp add: env_int32_def env_lookup_task)
qed

text \<open>
  The secrets of a task are imported under distinct prefixes exactly when the names of its
  database targets stay distinct after dashes become underscores and letters become capitals.
\<close>

theorem env_from_prefixes_distinct:
  "distinct (map ef_Prefix (buildEnvFrom uni t)) \<longleftrightarrow>
     distinct (map (\<lambda>n. ToUpper uni (ReplaceAll CHR ''-'' CHR ''_'' n)) (db_secret_names t))"
proof -
  have "''ENCRYPTION_'' \<notin> set (map (db_prefix uni) (db_secret_names t))"
    by (auto simp: db_prefix_def)
  moreover have "distinct (map (db_prefix uni) (db_secret_names t)) \<longleftrightarrow>
      distinct (map (\<lambda>n. ToUpper uni (ReplaceAll CHR ''-'' CHR ''_'' n)) (db_secret_names t))"
    unfolding distinct_map inj_on_def db_prefix_inject by blast
  ultimately show ?thesis
    unfolding buildEnvFrom_prefixes by (simp split: option.split)
qed

text \<open>
  The pod keeps what its template sets, except that the template's volumes and containers are
  replaced; restart policy, service account and affinity get a default when the template leaves
  them empty, and the pod has exactly one container, always pulled, running the backup image.
\<close>

theorem backup_pod_template:
  "ps_rest (buildBackupPodSpec uni t) = ps_rest (template_pod_spec t)
   \<and> ps_RestartPolicy (buildBackupPodSpec uni t) =
       (if ps_RestartPolicy (template_pod_spec t) = [] then ''OnFailure'' else ps_RestartPolicy (template_pod_spec t))
   \<and> ps_ServiceAccountName (buildBackupPodSpec uni t) =
       (if ps_ServiceAccountName (template_pod_spec t) = [] then ''backup-agent''
        else ps_ServiceAccountName (template_pod_spec t))
   \<and> ps_Affinity (buildBackupPodSpec uni t) =
       Some (case ps_Affinity (template_pod_spec t) of None \<Rightarrow> default_affinity | Some a \<Rightarrow> a)
   \<and> map c_Name (ps_Containers (buildBackupPodSpec uni t)) = [''backup'']
   \<and> map c_ImagePullPolicy (ps_Containers (buildBackupPodSpec uni t)) = [''Always'']
   \<and> map c_Image (ps_Containers (buildBackupPodSpec uni t)) = [getBackupImage t]"
  unfolding podSpec_fields
  by (simp add: buildContainers_def ctrl_consts split: option.split)

text \<open>
  The command of the task is used only if the task also sets an image; a task that sets only
  the command runs the default one, and a task that sets only the image runs the empty command.
\<close>

theorem backup_command_follows_image:
  "c_Command (hd (buildContainers uni (zero_task
     \<lparr>bt_Spec := zero_task_spec\<lparr>bts_BackupCmd := ''/own.sh''\<rparr>\<rparr>))) = [''/bin/bash'', ''-c'', ''/backup/scripts/backup.sh'']
   \<and> c_Command (hd (buildContainers uni (zero_task
     \<lparr>bt_Spec := zero_task_spec\<lparr>bts_BackupImage := ''own:1''\<rparr>\<rparr>))) = [''/bin/bash'', ''-c'', []]"
  by (simp add: buildContainers_def getBackupCmd_def zero_task_def zero_task_spec_def ctrl_consts)

end
