(* ===== verification/Target_Config_Map.thy ===== *)
theory Target_Config_Map
  imports Pod_Builder "HOL-Library.List_Lexorder" "HOL-Library.Char_ord"
begin

text \<open>
  The config map that carries the targets and the storage settings to the backup agent:
  \<open>createTargetConfigMap\<close> of \<open>internal/controller/backuptask_controller.go\<close>, with the part of Go's
  package \<open>encoding/json\<close> it uses.  A struct is encoded by its field tags in
  \<open>api/v1alpha1/backuptask_types.go\<close>: in the order of the fields, leaving out empty fields marked
  \<open>omitempty\<close>; a map is encoded with its keys sorted.  The text is that of \<open>MarshalIndent\<close> with
  an empty prefix and two spaces, with the escapes \<open>encoding/json\<close> uses by default.
\<close>

section \<open>JSON text\<close>

datatype json =
    JNull
  | JBool bool
  | JInt int
  | JStr string
  | JArr "json list"
  | JObj "(string \<times> json) list"

abbreviation byte :: "char \<Rightarrow> nat" where
  "byte c \<equiv> of_char c"

definition hex_digit :: "nat \<Rightarrow> char" where
  "hex_digit d = (if d < 10 then char_of (48 + d) else char_of (87 + d))"

text \<open>How many continuation bytes follow the first byte of a valid UTF-8 sequence.\<close>

definition continuation :: "nat \<Rightarrow> nat \<Rightarrow> char \<Rightarrow> bool" where
  "continuation lo hi c \<longleftrightarrow> lo \<le> byte c \<and> byte c \<le> hi"

definition tail_bytes :: "char \<Rightarrow> string \<Rightarrow> nat option" where
  "tail_bytes c t =
     (let b = byte c;
          second = (\<lambda>lo hi. case t of [] \<Rightarrow> False | x # _ \<Rightarrow> continuation lo hi x);
          more = (\<lambda>n. n \<le> length t \<and> list_all (continuation 128 191) (take (n - 1) (tl t)))
      in if 194 \<le> b \<and> b \<le> 223 \<and> second 128 191 then Some 1
         else if b = 224 \<and> second 160 191 \<and> more 2 then Some 2
         else if b = 237 \<and> second 128 159 \<and> more 2 then Some 2
         else if 225 \<le> b \<and> b \<le> 239 \<and> b \<noteq> 237 \<and> second 128 191 \<and> more 2 then Some 2
         else if b = 240 \<and> second 144 191 \<and> more 3 then Some 3
         else if 241 \<le> b \<and> b \<le> 243 \<and> second 128 191 \<and> more 3 then Some 3
         else if b = 244 \<and> second 128 143 \<and> more 3 then Some 3
         else None)"

definition backslash :: char where
  "backslash = CHR 0x5C"

definition escape_ascii :: "char \<Rightarrow> string" where
  "escape_ascii c =
     (let b = byte c
      in if b = 34 \<or> b = 92 then [backslash, c]
         else if b = 8 then [backslash, CHR ''b'']
         else if b = 12 then [backslash, CHR ''f'']
         else if b = 10 then [backslash, CHR ''n'']
         else if b = 13 then [backslash, CHR ''r'']
         else if b = 9 then [backslash, CHR ''t'']
         else if b < 32 \<or> b = 38 \<or> b = 60 \<or> b = 62
           then backslash # ''u00'' @ [hex_digit (b div 16), hex_digit (b mod 16)]
         else [c])"

fun escape :: "string \<Rightarrow> string" where
  "escape [] = []"
| "escape (c # t) =
     (if byte c < 128 then escape_ascii c @ escape t
      else case tail_bytes c t of
          None \<Rightarrow> backslash # ''ufffd'' @ escape t
        | Some n \<Rightarrow>
            (if c = CHR 0xE2 \<and> take n t = [CHR 0x80, CHR 0xA8] then backslash # ''u2028''
             else if c = CHR 0xE2 \<and> take n t = [CHR 0x80, CHR 0xA9] then backslash # ''u2029''
             else c # take n t) @ escape (drop n t))"

definition quote :: "string \<Rightarrow> string" where
  "quote s = CHR 0x22 # escape s @ [CHR 0x22]"

definition newline :: "nat \<Rightarrow> string" where
  "newline depth = CHR 0x0A # replicate (2 * depth) CHR '' ''"

fun join :: "string \<Rightarrow> string list \<Rightarrow> string" where
  "join sep [] = []"
| "join sep [x] = x"
| "join sep (x # y # xs) = x @ sep @ join sep (y # xs)"

fun render :: "nat \<Rightarrow> json \<Rightarrow> string" where
  "render d JNull = ''null''"
| "render d (JBool b) = (if b then ''true'' else ''false'')"
| "render d (JInt i) = Itoa i"
| "render d (JStr s) = quote s"
| "render d (JArr xs) = (if xs = [] then ''[]'' else
     ''['' @ newline (Suc d) @ join ('','' @ newline (Suc d)) (map (render (Suc d)) xs) @ newline d @ '']'')"
| "render d (JObj fs) = (if fs = [] then ''{}'' else
     ''{'' @ newline (Suc d) @ join ('','' @ newline (Suc d))
       (map (\<lambda>(k, v). quote k @ '': '' @ render (Suc d) v) fs) @ newline d @ ''}'')"

text \<open>\<open>json.MarshalIndent\<close> fails on no value of the types it is given here.\<close>

definition MarshalIndent :: "json \<Rightarrow> goerror + string" where
  "MarshalIndent j = Inr (render 0 j)"

section \<open>Fields\<close>

definition f_always :: "string \<Rightarrow> json \<Rightarrow> (string \<times> json) list" where
  "f_always k v = [(k, v)]"

definition f_string :: "string \<Rightarrow> string \<Rightarrow> (string \<times> json) list" where
  "f_string k s = (if s = [] then [] else [(k, JStr s)])"

definition f_strings :: "string \<Rightarrow> string list \<Rightarrow> (string \<times> json) list" where
  "f_strings k ss = (if ss = [] then [] else [(k, JArr (map JStr ss))])"

definition f_pointer :: "string \<Rightarrow> ('a \<Rightarrow> json) \<Rightarrow> 'a option \<Rightarrow> (string \<times> json) list" where
  "f_pointer k enc x = (case x of None \<Rightarrow> [] | Some v \<Rightarrow> [(k, enc v)])"

definition f_bool :: "string \<Rightarrow> bool \<Rightarrow> (string \<times> json) list" where
  "f_bool k b = (if b then [(k, JBool True)] else [])"

definition json_slice :: "('a \<Rightarrow> json) \<Rightarrow> 'a slice \<Rightarrow> json" where
  "json_slice enc s = (case s of None \<Rightarrow> JNull | Some xs \<Rightarrow> JArr (map enc xs))"

definition json_int32 :: "int32 \<Rightarrow> json" where
  "json_int32 w = JInt (sint w)"

section \<open>The structs\<close>

definition json_secret :: "secret_reference \<Rightarrow> json" where
  "json_secret s = JObj (f_string ''name'' (sr_Name s) @ f_string ''namespace'' (sr_Namespace s))"

definition json_requirement :: "label_requirement \<Rightarrow> json" where
  "json_requirement r = JObj (f_always ''key'' (JStr (lr_Key r)) @ f_always ''operator'' (JStr (lr_Operator r))
     @ f_strings ''values'' (lr_Values r))"

definition json_selector :: "label_selector \<Rightarrow> json" where
  "json_selector s = JObj
     ((if ls_MatchLabels s = [] then []
       else [(''matchLabels'', JObj (map (\<lambda>(k, v). (k, JStr v)) (sort_key fst (ls_MatchLabels s))))])
      @ (if ls_MatchExpressions s = [] then []
         else [(''matchExpressions'', JArr (map json_requirement (ls_MatchExpressions s)))]))"

definition json_database :: "DatabaseBackupSpec \<Rightarrow> json" where
  "json_database d = JObj (f_always ''type'' (JStr (db_Type d)) @ f_always ''host'' (JStr (db_Host d))
     @ f_pointer ''port'' json_int32 (db_Port d) @ f_string ''database'' (db_Database d)
     @ f_always ''authSecretRef'' (json_secret (db_AuthSecretRef d))
     @ f_strings ''extraArgs'' (db_ExtraArgs d) @ f_bool ''enablePITR'' (db_EnablePITR d))"

definition json_config :: "ConfigBackupSpec \<Rightarrow> json" where
  "json_config c = JObj (f_strings ''includeNamespaces'' (cb_IncludeNamespaces c)
     @ f_strings ''excludeNamespaces'' (cb_ExcludeNamespaces c)
     @ f_strings ''resourceTypes'' (cb_ResourceTypes c)
     @ f_pointer ''labelSelector'' json_selector (cb_LabelSelector c))"

definition json_typed_ref :: "typed_local_ref \<Rightarrow> json" where
  "json_typed_ref r = JObj
     (f_always ''apiGroup'' (case tl_APIGroup r of None \<Rightarrow> JNull | Some g \<Rightarrow> JStr g)
      @ f_always ''kind'' (JStr (tl_Kind r)) @ f_always ''name'' (JStr (tl_Name r)))"

definition json_path :: "DirectoryPath \<Rightarrow> json" where
  "json_path p = JObj (f_always ''path'' (JStr (dp_Path p)) @ f_pointer ''pvcRef'' json_typed_ref (dp_PVCRef p)
     @ f_string ''subPath'' (dp_SubPath p))"

definition json_directory :: "DirectoryBackupSpec \<Rightarrow> json" where
  "json_directory d = JObj (f_always ''paths'' (json_slice json_path (dir_Paths d))
     @ f_strings ''excludePatterns'' (dir_ExcludePatterns d)
     @ f_pointer ''compressionLevel'' json_int32 (dir_CompressionLevel d))"

definition json_nfs :: "NFSBackupSpec \<Rightarrow> json" where
  "json_nfs n = JObj (f_always ''server'' (JStr (nb_Server n)) @ f_always ''path'' (JStr (nb_Path n))
     @ f_strings ''mountOptions'' (nb_MountOptions n) @ f_string ''subPath'' (nb_SubPath n))"

definition json_target :: "BackupTarget \<Rightarrow> json" where
  "json_target t = JObj (f_always ''name'' (JStr (tgt_Name t)) @ f_always ''type'' (JStr (tgt_Type t))
     @ f_pointer ''database'' json_database (tgt_Database t) @ f_pointer ''config'' json_config (tgt_Config t)
     @ f_pointer ''directory'' json_directory (tgt_Directory t) @ f_pointer ''nfs'' json_nfs (tgt_NFS t))"

definition json_s3 :: "S3StorageSpec \<Rightarrow> json" where
  "json_s3 s = JObj (f_always ''endpoint'' (JStr (s3_Endpoint s)) @ f_always ''bucket'' (JStr (s3_Bucket s))
     @ f_string ''prefix'' (s3_Prefix s) @ f_string ''region'' (s3_Region s)
     @ f_always ''authSecretRef'' (json_secret (s3_AuthSecretRef s))
     @ f_pointer ''useTLS'' JBool (s3_UseTLS s) @ f_pointer ''skipTLSVerify'' JBool (s3_SkipTLSVerify s))"

definition json_sftp :: "SFTPStorageSpec \<Rightarrow> json" where
  "json_sftp s = JObj (f_always ''host'' (JStr (sftp_Host s)) @ f_pointer ''port'' json_int32 (sftp_Port s)
     @ f_always ''path'' (JStr (sftp_Path s)) @ f_always ''authSecretRef'' (json_secret (sftp_AuthSecretRef s))
     @ f_string ''sshKeyType'' (sftp_SSHKeyType s))"

definition json_nfs_storage :: "NFSStorageSpec \<Rightarrow> json" where
  "json_nfs_storage n = JObj (f_always ''server'' (JStr (nfs_Server n)) @ f_always ''path'' (JStr (nfs_Path n))
     @ f_strings ''mountOptions'' (nfs_MountOptions n))"

definition json_smb :: "SMBStorageSpec \<Rightarrow> json" where
  "json_smb s = JObj (f_always ''server'' (JStr (smb_Server s)) @ f_always ''share'' (JStr (smb_Share s))
     @ f_string ''path'' (smb_Path s) @ f_always ''authSecretRef'' (json_secret (smb_AuthSecretRef s))
     @ f_string ''domain'' (smb_Domain s))"

definition json_storage :: "RemoteStorageSpec \<Rightarrow> json" where
  "json_storage r = JObj (f_always ''type'' (JStr (rs_Type r)) @ f_pointer ''s3'' json_s3 (rs_S3 r)
     @ f_pointer ''sftp'' json_sftp (rs_SFTP r) @ f_pointer ''nfs'' json_nfs_storage (rs_NFS r)
     @ f_pointer ''smb'' json_smb (rs_SMB r))"

section \<open>The config map\<close>

definition createTargetConfigMap :: "BackupTask \<Rightarrow> goerror + config_map" where
  "createTargetConfigMap backupTask =
     (let meta = zero_meta\<lparr>om_Name := bt_Name backupTask @ ''-targets'', om_Namespace := bt_Namespace backupTask,
            om_Labels := [(''app'', ''backup-operator''), (''backuptask'', bt_Name backupTask)]\<rparr>
      in case MarshalIndent (json_slice json_target (bts_Targets (bt_Spec backupTask))) of
           Inl err \<Rightarrow> Inl err
         | Inr allTargetsJSON \<Rightarrow>
             (case MarshalIndent (json_storage (bts_RemoteStorage (bt_Spec backupTask))) of
                Inl err \<Rightarrow> Inl err
              | Inr allRemoteStorageJSON \<Rightarrow>
                  Inr \<lparr>cm_Meta = meta,
                       cm_Data = [(''targets.json'', allTargetsJSON),
                         (''remotestorage.json'', allRemoteStorageJSON),
                         (''target-count'', Itoa (int (length (bt_Targets backupTask))))]\<rparr>))"

lemma createTargetConfigMap_total: "\<exists>cm. createTargetConfigMap t = Inr cm"
  by (simp add: createTargetConfigMap_def MarshalIndent_def Let_def)

section \<open>Properties\<close>

text \<open>
  C35: the config map is always built, and it is the one the pod of the task mounts: it has the name
  the pod's volume refers to, lives in the task's namespace, has every key the volume mounts, and
  its count is the number of targets.
\<close>

theorem config_map_serves_pod:
  "\<exists>cm items mode. createTargetConfigMap t = Inr cm
     \<and> \<lparr>vol_Name = configVolumeName, vol_Source = ConfigMapSource (om_Name (cm_Meta cm)) items mode\<rparr> \<in> set (buildVolumes t)
     \<and> om_Namespace (cm_Meta cm) = bt_Namespace t
     \<and> kp_Key ` set items \<subseteq> fst ` set (cm_Data cm)
     \<and> map_option Atoi (map_of (cm_Data cm) ''target-count'') = Some (int (length (bt_Targets t)))"
  by (intro exI conjI, simp add: createTargetConfigMap_def MarshalIndent_def Let_def)
    (auto simp: buildVolumes_def getTargetConfigMapName_def zero_meta_def)

end
