(* ===== verification/Config_Map_Codec.thy ===== *)
theory Config_Map_Codec
  imports Target_Config_Map
begin

text \<open>
  What the backup agent can read back from the config map.  JSON strings are read by \<open>unescape\<close>,
  which returns what follows the string; a text written by \<open>render\<close> is shown to determine its value,
  whatever follows it.  With the fields of each struct compared key by key, the two texts in the
  config map determine the targets and the storage settings.
\<close>

section \<open>Strings\<close>

text \<open>Well-formed UTF-8: what the API server stores in a string.\<close>

fun utf8 :: "string \<Rightarrow> bool" where
  "utf8 [] = True"
| "utf8 (c # t) = (if byte c < 128 then utf8 t else case tail_bytes c t of None \<Rightarrow> False | Some n \<Rightarrow> utf8 (drop n t))"

definition hex_value :: "char \<Rightarrow> nat" where
  "hex_value c = (if byte c < 97 then byte c - 48 else byte c - 87)"

definition short_escape :: "char \<Rightarrow> char" where
  "short_escape e = (if e = CHR ''b'' then CHR 0x08 else if e = CHR ''f'' then CHR 0x0C else if e = CHR ''n'' then CHR 0x0A
     else if e = CHR ''r'' then CHR 0x0D else if e = CHR ''t'' then CHR 0x09 else e)"

definition long_escape :: "string \<Rightarrow> string" where
  "long_escape h = (if h = ''2028'' then [CHR 0xE2, CHR 0x80, CHR 0xA8] else if h = ''2029'' then [CHR 0xE2, CHR 0x80, CHR 0xA9]
     else [char_of (16 * hex_value (h ! 2) + hex_value (h ! 3))])"

fun unescape :: "string \<Rightarrow> (string \<times> string) option" where
  "unescape [] = None"
| "unescape (c # t) =
     (if c = CHR 0x22 then Some ([], t)
      else if c \<noteq> backslash then map_option (apfst ((#) c)) (unescape t)
      else case t of
          [] \<Rightarrow> None
        | e # t \<Rightarrow> if e = CHR ''u'' then map_option (apfst ((@) (long_escape (take 4 t)))) (unescape (drop 4 t))
            else map_option (apfst ((#) (short_escape e))) (unescape t))"

lemma unescape_copy:
  "\<forall>x \<in> set u. x \<noteq> CHR 0x22 \<and> x \<noteq> backslash \<Longrightarrow> unescape (u @ t) = map_option (apfst ((@) u)) (unescape t)"
  by (induction u) (auto simp: option.map_comp comp_def apfst_def map_prod_def option.map_ident split_beta')

lemma hex_value_digit [simp]: "d < 16 \<Longrightarrow> hex_value (hex_digit d) = d"
  by (simp add: hex_value_def hex_digit_def)

lemma unescape_ascii:
  assumes "byte c < 128"
  shows "unescape (escape_ascii c @ t) = map_option (apfst ((#) c)) (unescape t)"
proof -
  have hex: "long_escape [CHR ''0'', CHR ''0'', hex_digit (byte c div 16), hex_digit (byte c mod 16)] = [c]"
    using assms by (simp add: long_escape_def)
  have cons: "(@) [c] = (#) c" by (simp add: fun_eq_iff)
  consider (short) "byte c \<in> {34, 92, 8, 12, 10, 13, 9}"
    | (hex) "byte c \<notin> {34, 92, 8, 12, 10, 13, 9}" "byte c < 32 \<or> byte c = 38 \<or> byte c = 60 \<or> byte c = 62"
    | (plain) "byte c \<notin> {34, 92, 8, 12, 10, 13, 9}" "\<not> (byte c < 32 \<or> byte c = 38 \<or> byte c = 60 \<or> byte c = 62)"
    by blast
  then show ?thesis
  proof cases
    case short
    then have "byte c \<in> byte ` {CHR 0x22, CHR 0x5C, CHR 0x08, CHR 0x0C, CHR 0x0A, CHR 0x0D, CHR 0x09}" by auto
    then have "c \<in> {CHR 0x22, CHR 0x5C, CHR 0x08, CHR 0x0C, CHR 0x0A, CHR 0x0D, CHR 0x09}"
      by (simp only: inj_image_mem_iff [OF inj_of_char])
    then consider "c = CHR 0x22" | "c = CHR 0x5C" | "c = CHR 0x08" | "c = CHR 0x0C" | "c = CHR 0x0A" | "c = CHR 0x0D" | "c = CHR 0x09"
      by blast
    then show ?thesis by cases (simp_all add: escape_ascii_def short_escape_def backslash_def)
  next
    case hex
    then have "escape_ascii c = backslash # ''u00'' @ [hex_digit (byte c div 16), hex_digit (byte c mod 16)]"
      by (simp add: escape_ascii_def Let_def)
    then show ?thesis using \<open>long_escape _ = _\<close> cons by (simp add: backslash_def)
  next
    case plain
    then have "escape_ascii c = [c]" "c \<noteq> CHR 0x22" "c \<noteq> CHR 0x5C" by (auto simp: escape_ascii_def)
    then show ?thesis by (simp add: backslash_def)
  qed
qed

lemma tail_bytes_copy:
  assumes "tail_bytes c t = Some n"
  shows "n \<le> length t" and "x \<in> set (take n t) \<Longrightarrow> 128 \<le> byte x" and "128 \<le> byte c"
proof -
  have second: "128 \<le> byte (hd t) \<and> t \<noteq> []" if "case t of [] \<Rightarrow> False | x # _ \<Rightarrow> continuation lo hi x" "128 \<le> lo" for lo hi
    using that by (cases t) (auto simp: continuation_def)
  have tail: "128 \<le> byte x" if "list_all (continuation 128 191) xs" "x \<in> set xs" for x xs
    using that by (auto simp: list_all_iff continuation_def)
  have n: "n \<noteq> 0 \<and> n \<le> length t \<and> t \<noteq> [] \<and> 128 \<le> byte (hd t) \<and> (\<forall>x \<in> set (take (n - 1) (tl t)). 128 \<le> byte x) \<and> 128 \<le> byte c"
    using assms second tail unfolding tail_bytes_def Let_def
    by (auto split: if_splits simp: Suc_le_eq intro: tail)
  then show "n \<le> length t" "128 \<le> byte c" by auto
  show "128 \<le> byte x" if "x \<in> set (take n t)"
    using n that by (cases t; cases n) auto
qed

lemma unescape_escape: "utf8 s \<Longrightarrow> unescape (escape s @ CHR 0x22 # r) = Some (s, r)"
proof (induction s rule: utf8.induct)
  case (2 c t)
  show ?case
  proof (cases "byte c < 128")
    case True
    with 2 show ?thesis by (simp add: unescape_ascii)
  next
    case False
    with 2(3) obtain n where n: "tail_bytes c t = Some n" "utf8 (drop n t)" by (auto split: option.splits)
    from 2(2) [OF False n] have rest: "unescape (escape (drop n t) @ CHR 0x22 # r) = Some (drop n t, r)" .
    have plain: "\<forall>x \<in> set (c # take n t). x \<noteq> CHR 0x22 \<and> x \<noteq> backslash"
      using tail_bytes_copy [OF n(1)] by (fastforce simp: backslash_def)
    have long: "unescape (backslash # CHR ''u'' # h @ u) = map_option (apfst ((@) (long_escape h))) (unescape u)"
      if "length h = 4" for h u
      using that by (simp add: backslash_def)
    consider (ls) "c = CHR 0xE2" "take n t = [CHR 0x80, CHR 0xA8]" | (ps) "c = CHR 0xE2" "take n t = [CHR 0x80, CHR 0xA9]"
      | (other) "escape (c # t) = (c # take n t) @ escape (drop n t)"
      using False n(1) by (cases "c = CHR 0xE2 \<and> take n t \<in> {[CHR 0x80, CHR 0xA8], [CHR 0x80, CHR 0xA9]}") auto
    then show ?thesis
    proof cases
      case ls
      then have "escape (c # t) = backslash # CHR ''u'' # ''2028'' @ escape (drop n t)"
        using False n(1) by simp
      with ls rest show ?thesis
        using long [of "''2028''"] append_take_drop_id [of n t] by (simp add: long_escape_def del: escape.simps append_take_drop_id)
    next
      case ps
      then have "escape (c # t) = backslash # CHR ''u'' # ''2029'' @ escape (drop n t)"
        using False n(1) by simp
      with ps rest show ?thesis
        using long [of "''2029''"] append_take_drop_id [of n t] by (simp add: long_escape_def del: escape.simps append_take_drop_id)
    next
      case other
      have "unescape ((c # take n t) @ escape (drop n t) @ CHR 0x22 # r) = Some ((c # take n t) @ drop n t, r)"
        unfolding unescape_copy [OF plain] rest by simp
      with other show ?thesis by simp
    qed
  qed
qed simp

lemma quote_inject:
  assumes "utf8 s" and "utf8 s'" and "quote s @ r = quote s' @ r'"
  shows "s = s' \<and> r = r'"
proof -
  have "escape s @ CHR 0x22 # r = escape s' @ CHR 0x22 # r'"
    using assms(3) by (simp add: quote_def)
  then have "unescape (escape s @ CHR 0x22 # r) = unescape (escape s' @ CHR 0x22 # r')" by (rule arg_cong)
  then show ?thesis using assms(1,2) by (simp only: unescape_escape) simp
qed

section \<open>Numbers\<close>

definition is_digit :: "char \<Rightarrow> bool" where
  "is_digit c \<longleftrightarrow> 48 \<le> byte c \<and> byte c \<le> 57"

text \<open>What follows a value in a JSON text is never a digit.\<close>

definition stops :: "string \<Rightarrow> bool" where
  "stops r \<longleftrightarrow> (case r of [] \<Rightarrow> True | c # _ \<Rightarrow> \<not> is_digit c)"

lemma stops_simps [simp]: "stops []" "stops (c # r) \<longleftrightarrow> \<not> is_digit c"
  by (simp_all add: stops_def)

lemma show_nat_digits: "\<forall>c \<in> set (show_nat n). is_digit c"
  using set_show_nat [of n] by (auto simp: is_digit_def digit_char_code)

lemma takeWhile_number: "\<forall>c \<in> set u. is_digit c \<Longrightarrow> stops r \<Longrightarrow> takeWhile is_digit (u @ r) = u"
  by (induction u) (cases r; auto)+

lemma number_inject:
  assumes "\<forall>c \<in> set u. is_digit c" and "\<forall>c \<in> set u'. is_digit c" and "stops r" and "stops r'" and "u @ r = u' @ r'"
  shows "u = u' \<and> r = r'"
  using takeWhile_number [OF assms(1,3)] takeWhile_number [OF assms(2,4)] assms(5) by simp

lemma Itoa_lead: "\<exists>c t. Itoa i = c # t \<and> (c = CHR ''-'' \<or> is_digit c)"
proof (cases "i < 0")
  case False
  then show ?thesis
    using show_nat_digits [of "nat i"] by (cases "show_nat (nat i)") (auto simp: Itoa_def)
qed (auto simp: Itoa_def)

lemma Itoa_stops_inject:
  assumes "stops r" and "stops r'" and "Itoa i @ r = Itoa i' @ r'"
  shows "i = i' \<and> r = r'"
proof -
  have minus: "\<not> is_digit (CHR ''-'')" by (simp add: is_digit_def)
  have clash: "show_nat n @ u \<noteq> CHR ''-'' # v" for n u v
    using show_nat_digits [of n] minus by (cases "show_nat n") auto
  from assms(3) consider "i < 0" "i' < 0" | "\<not> i < 0" "\<not> i' < 0"
    unfolding Itoa_def by (cases "i < 0"; cases "i' < 0") (auto simp: clash clash [symmetric])
  then show ?thesis
  proof cases
    case 1
    then have "show_nat (nat (- i)) @ r = show_nat (nat (- i')) @ r'" using assms(3) by (simp add: Itoa_def)
    from number_inject [OF show_nat_digits show_nat_digits assms(1,2) this] 1 show ?thesis by (simp add: eq_nat_nat_iff)
  next
    case 2
    then have "show_nat (nat i) @ r = show_nat (nat i') @ r'" using assms(3) by (simp add: Itoa_def)
    from number_inject [OF show_nat_digits show_nat_digits assms(1,2) this] 2 show ?thesis by (simp add: eq_nat_nat_iff)
  qed
qed

section \<open>Values\<close>

fun utf8_json :: "json \<Rightarrow> bool" where
  "utf8_json (JStr s) = utf8 s"
| "utf8_json (JArr xs) = list_all utf8_json xs"
| "utf8_json (JObj fs) = list_all (\<lambda>(k, v). utf8 k \<and> utf8_json v) fs"
| "utf8_json _ = True"

lemma join_cons: "join sep (x # xs) = x @ concat (map (\<lambda>y. sep @ y) xs)"
  by (induction xs arbitrary: x) auto

text \<open>A list of items, each led by a separator, and then the end.\<close>

lemma items_inject:
  assumes "\<And>x y r r'. x \<in> set xs \<Longrightarrow> y \<in> set ys \<Longrightarrow> stops r \<Longrightarrow> stops r' \<Longrightarrow> f x @ r = f y @ r' \<Longrightarrow> x = y \<and> r = r'"
    and "sep = a # s" and "e = b # t" and "a \<noteq> b" and "\<not> is_digit a" and "\<not> is_digit b"
    and "concat (map (\<lambda>y. sep @ f y) xs) @ e @ r = concat (map (\<lambda>y. sep @ f y) ys) @ e @ r'"
  shows "xs = ys \<and> r = r'"
  using assms(1,7)
proof (induction xs arbitrary: ys)
  case Nil
  then show ?case using assms(2-4) by (cases ys) auto
next
  case (Cons x xs)
  then obtain y zs where ys: "ys = y # zs" using assms(2-4) by (cases ys) auto
  have stop: "stops (concat (map (\<lambda>y. sep @ f y) us) @ e @ u)" for us u
    using assms(2,3,5,6) by (cases us) auto
  have "f x @ concat (map (\<lambda>y. sep @ f y) xs) @ e @ r = f y @ concat (map (\<lambda>y. sep @ f y) zs) @ e @ r'"
    using Cons.prems(2) ys by simp
  then have "x = y" "concat (map (\<lambda>y. sep @ f y) xs) @ e @ r = concat (map (\<lambda>y. sep @ f y) zs) @ e @ r'"
    using Cons.prems(1) [of x y] stop ys by auto
  with Cons.IH [of zs] Cons.prems(1) ys show ?case by auto
qed

lemma join_inject:
  assumes "\<And>x y r r'. x \<in> set xs \<Longrightarrow> y \<in> set ys \<Longrightarrow> stops r \<Longrightarrow> stops r' \<Longrightarrow> f x @ r = f y @ r' \<Longrightarrow> x = y \<and> r = r'"
    and "xs \<noteq> []" and "ys \<noteq> []"
    and "join ('','' @ newline (Suc d)) (map f xs) @ newline d @ c # r = join ('','' @ newline (Suc d)) (map f ys) @ newline d @ c # r'"
  shows "xs = ys \<and> r = r'"
proof -
  let ?sep = "'','' @ newline (Suc d)" and ?e = "newline d @ [c]"
  have shape: "?sep @ join ?sep (map f us) = concat (map (\<lambda>y. ?sep @ f y) us)" if "us \<noteq> []" for us
    using that by (cases us) (simp_all add: join_cons comp_def)
  have "concat (map (\<lambda>y. ?sep @ f y) xs) @ ?e @ r = concat (map (\<lambda>y. ?sep @ f y) ys) @ ?e @ r'"
    using arg_cong [OF assms(4), of "\<lambda>t. ?sep @ t"] unfolding shape [OF assms(2), symmetric] shape [OF assms(3), symmetric] by simp
  then show ?thesis
    by (intro items_inject [where f = f and xs = xs and ys = ys and sep = ?sep and e = ?e, OF assms(1)])
      (auto simp: newline_def is_digit_def)
qed

lemma first_char: "t \<noteq> [] \<Longrightarrow> t' \<noteq> [] \<Longrightarrow> t @ r = t' @ r' \<Longrightarrow> hd t = hd t'"
  by (cases t; cases t') auto

lemma render_lead:
  "render d JNull = CHR ''n'' # ''ull''" "hd (render d (JBool b)) = (if b then CHR ''t'' else CHR ''f'')"
  "hd (render d (JInt i)) = CHR ''-'' \<or> is_digit (hd (render d (JInt i)))"
  "hd (render d (JStr s)) = CHR 0x22" "hd (render d (JArr xs)) = CHR ''[''" "hd (render d (JObj fs)) = CHR ''{''"
  using Itoa_lead [of i] by (auto simp: quote_def)

lemma render_nonempty [simp]: "render d j \<noteq> []"
  using Itoa_nonempty by (cases j) (auto simp: quote_def)

text \<open>Values of different kinds start with different characters.\<close>

fun kind :: "json \<Rightarrow> nat" where
  "kind JNull = 0"
| "kind (JBool b) = (if b then 1 else 2)"
| "kind (JInt i) = 3"
| "kind (JStr s) = 4"
| "kind (JArr xs) = 5"
| "kind (JObj fs) = 6"

definition kind_of_char :: "char \<Rightarrow> nat" where
  "kind_of_char c = (if c = CHR ''n'' then 0 else if c = CHR ''t'' then 1 else if c = CHR ''f'' then 2 else if c = CHR 0x22 then 4
     else if c = CHR ''['' then 5 else if c = CHR ''{'' then 6 else 3)"

lemma kind_render: "kind_of_char (hd (render d j)) = kind j"
proof (cases j)
  case (JInt i)
  then show ?thesis using render_lead(3) [of d i] by (auto simp: kind_of_char_def is_digit_def)
qed (auto simp: kind_of_char_def quote_def)

lemma render_kind: "render d j @ r = render d j' @ r' \<Longrightarrow> kind j = kind j'"
  using first_char [OF render_nonempty render_nonempty] kind_render by metis

lemma render_inject:
  "utf8_json j \<Longrightarrow> utf8_json j' \<Longrightarrow> stops r \<Longrightarrow> stops r' \<Longrightarrow> render d j @ r = render d j' @ r' \<Longrightarrow> j = j' \<and> r = r'"
proof (induction j arbitrary: j' d r r')
  case JNull
  then show ?case using render_kind [OF JNull(5)] by (cases j') (auto split: if_splits)
next
  case (JBool b)
  then show ?case using render_kind [OF JBool(5)] by (cases j') (auto split: if_splits)
next
  case (JInt i)
  then obtain i' where j': "j' = JInt i'" using render_kind [OF JInt(5)] by (cases j') (auto split: if_splits)
  with JInt(5) have "Itoa i @ r = Itoa i' @ r'" by simp
  from Itoa_stops_inject [OF JInt(3,4) this] j' show ?case by simp
next
  case (JStr s)
  then obtain s' where j': "j' = JStr s'" using render_kind [OF JStr(5)] by (cases j') (auto split: if_splits)
  with JStr have "utf8 s" "utf8 s'" "quote s @ r = quote s' @ r'" by simp_all
  from quote_inject [OF this] j' show ?case by simp
next
  case (JArr xs)
  then obtain ys where j': "j' = JArr ys" using render_kind [OF JArr(6)] by (cases j') (auto split: if_splits)
  have item: "x = y \<and> u = u'" if "x \<in> set xs" "y \<in> set ys" "stops u" "stops u'" "render (Suc d) x @ u = render (Suc d) y @ u'" for x y u u'
    using JArr.IH [OF that(1) _ _ that(3,4,5)] that(1,2) JArr.prems(1,2) j' by (auto simp: list_all_iff)
  show ?case
  proof (cases "xs = [] \<or> ys = []")
    case True
    have "render d (JArr us) @ u \<noteq> ''[]'' @ v" if "us \<noteq> []" for us u v
      using that by (simp add: newline_def)
    then have "xs = []" "ys = []" using True JArr.prems(5) j' by (metis render.simps(5))+
    then show ?thesis using JArr.prems(5) j' by simp
  next
    case False
    then have ne: "xs \<noteq> []" "ys \<noteq> []" by simp_all
    have "join ('','' @ newline (Suc d)) (map (render (Suc d)) xs) @ newline d @ CHR '']'' # r
        = join ('','' @ newline (Suc d)) (map (render (Suc d)) ys) @ newline d @ CHR '']'' # r'"
      using JArr.prems(5) j' ne by simp
    then have "xs = ys \<and> r = r'"
      by (rule join_inject [where f = "render (Suc d)", OF _ ne, rotated]) (rule item)
    then show ?thesis using j' by simp
  qed
next
  case (JObj fs)
  then obtain gs where j': "j' = JObj gs" using render_kind [OF JObj(6)] by (cases j') (auto split: if_splits)
  let ?f = "\<lambda>(k, v). quote k @ '': '' @ render (Suc d) v"
  have item: "x = y \<and> u = u'" if "x \<in> set fs" "y \<in> set gs" "stops u" "stops u'" "?f x @ u = ?f y @ u'" for x y u u'
  proof -
    obtain k v k' v' where xy: "x = (k, v)" "y = (k', v')" by (cases x; cases y)
    with that JObj.prems(1,2) j' have valid: "utf8 k" "utf8 k'" "utf8_json v" "utf8_json v'" by (auto simp: list_all_iff)
    have "quote k @ ('': '' @ render (Suc d) v @ u) = quote k' @ ('': '' @ render (Suc d) v' @ u')"
      using that(5) xy by simp
    from quote_inject [OF valid(1,2) this] have "k = k'" "render (Suc d) v @ u = render (Suc d) v' @ u'" by simp_all
    with JObj.IH [OF that(1), of v v' u u' "Suc d"] valid that(3,4) xy show ?thesis by simp
  qed
  show ?case
  proof (cases "fs = [] \<or> gs = []")
    case True
    have "render d (JObj us) @ u \<noteq> ''{}'' @ v" if "us \<noteq> []" for us u v
      using that by (simp add: newline_def)
    then have "fs = []" "gs = []" using True JObj.prems(5) j' by (metis render.simps(6))+
    then show ?thesis using JObj.prems(5) j' by simp
  next
    case False
    then have ne: "fs \<noteq> []" "gs \<noteq> []" by simp_all
    have "join ('','' @ newline (Suc d)) (map ?f fs) @ newline d @ CHR ''}'' # r
        = join ('','' @ newline (Suc d)) (map ?f gs) @ newline d @ CHR ''}'' # r'"
      using JObj.prems(5) j' ne by simp
    then have "fs = gs \<and> r = r'"
      by (rule join_inject [where f = ?f, OF _ ne, rotated]) (rule item)
    then show ?thesis using j' by simp
  qed
qed

lemma MarshalIndent_inject:
  "utf8_json j \<Longrightarrow> utf8_json j' \<Longrightarrow> MarshalIndent j = MarshalIndent j' \<longleftrightarrow> j = j'"
  using render_inject [of j j' "[]" "[]" 0] by (auto simp: MarshalIndent_def)

section \<open>Structs\<close>

text \<open>
  A struct is read key by key: the fields with the key \<open>q\<close> among the fields of its object, of which
  there is at most one.
\<close>

definition at :: "string \<Rightarrow> (string \<times> json) list \<Rightarrow> (string \<times> json) list" where
  "at q fs = filter (\<lambda>(k, v). k = q) fs"

named_theorems fields

lemma at_append [fields]: "at q (fs @ gs) = at q fs @ at q gs"
  by (simp add: at_def)

lemma at_fields [fields]:
  "at q (f_always k v) = (if k = q then f_always k v else [])"
  "at q (f_string k s) = (if k = q then f_string k s else [])"
  "at q (f_strings k ss) = (if k = q then f_strings k ss else [])"
  "at q (f_pointer k enc x) = (if k = q then f_pointer k enc x else [])"
  "at q (f_bool k b) = (if k = q then f_bool k b else [])"
  by (simp_all add: at_def f_always_def f_string_def f_strings_def f_pointer_def f_bool_def split: option.split)

lemma map_JStr [simp]: "map JStr xs = map JStr ys \<longleftrightarrow> xs = ys"
  by (rule inj_map_eq_map) (simp add: inj_def)

lemma field_inject [fields]:
  "f_always k v = f_always k v' \<longleftrightarrow> v = v'" "f_string k s = f_string k s' \<longleftrightarrow> s = s'"
  "f_strings k ss = f_strings k ss' \<longleftrightarrow> ss = ss'" "f_bool k b = f_bool k b' \<longleftrightarrow> b = b'"
  by (auto simp: f_always_def f_string_def f_strings_def f_bool_def)

lemma pointer_inject:
  assumes "\<And>x y. enc x = enc y \<longleftrightarrow> norm x = norm y"
  shows "f_pointer k enc x = f_pointer k enc y \<longleftrightarrow> map_option norm x = map_option norm y"
  using assms by (cases x; cases y) (auto simp: f_pointer_def)

lemma slice_inject:
  assumes "\<And>x y. enc x = enc y \<longleftrightarrow> norm x = norm y"
  shows "json_slice enc xs = json_slice enc ys \<longleftrightarrow> map_option (map norm) xs = map_option (map norm) ys"
proof -
  have "map enc us = map enc vs \<longleftrightarrow> map norm us = map norm vs" for us vs
    by (induction us arbitrary: vs) (auto simp: assms Cons_eq_map_conv map_eq_Cons_conv)
  then show ?thesis by (cases xs; cases ys) (auto simp: json_slice_def)
qed

lemma pointer_id_inject [fields]:
  "inj enc \<Longrightarrow> f_pointer k enc x = f_pointer k enc y \<longleftrightarrow> x = y"
  using pointer_inject [of enc id] by (simp add: inj_eq option.map_id0)

lemma slice_id_inject [fields]:
  "inj enc \<Longrightarrow> json_slice enc x = json_slice enc y \<longleftrightarrow> x = y"
  using slice_inject [of enc id] by (simp add: inj_eq option.map_id0)

lemma objects_equal: "JObj fs = JObj gs \<Longrightarrow> at q fs = at q gs"
  by simp

lemma inj_base [fields]: "inj json_int32" "inj JBool"
  by (simp_all add: inj_def json_int32_def signed_word_eqI)

lemma inj_secret [fields]: "inj json_secret"
proof (rule injI)
  fix s s' :: secret_reference
  assume "json_secret s = json_secret s'"
  then have *: "at q (f_string ''name'' (sr_Name s) @ f_string ''namespace'' (sr_Namespace s))
      = at q (f_string ''name'' (sr_Name s') @ f_string ''namespace'' (sr_Namespace s'))" for q
    unfolding json_secret_def by (rule objects_equal)
  from * [of "''name''"] * [of "''namespace''"] show "s = s'" by (simp add: fields)
qed

lemmas secret_equal [fields] = inj_eq [OF inj_secret]

lemma at_if [fields]: "at q (if b then fs else gs) = (if b then at q fs else at q gs)"
  by simp

lemma at_single [fields]: "at q [] = []" "at q [(k, v)] = (if k = q then [(k, v)] else [])"
  by (simp_all add: at_def)

lemma inj_typed_ref [fields]: "inj json_typed_ref"
proof (rule injI)
  fix r r' :: typed_local_ref
  assume eq: "json_typed_ref r = json_typed_ref r'"
  show "r = r'"
    using objects_equal [OF eq [unfolded json_typed_ref_def], of "''apiGroup''"]
      objects_equal [OF eq [unfolded json_typed_ref_def], of "''kind''"]
      objects_equal [OF eq [unfolded json_typed_ref_def], of "''name''"]
    by (simp add: fields split: option.splits)
qed

lemma inj_requirement: "inj json_requirement"
proof (rule injI)
  fix r r' :: label_requirement
  assume eq: "json_requirement r = json_requirement r'"
  show "r = r'"
    using objects_equal [OF eq [unfolded json_requirement_def], of "''key''"]
      objects_equal [OF eq [unfolded json_requirement_def], of "''operator''"]
      objects_equal [OF eq [unfolded json_requirement_def], of "''values''"]
    by (simp add: fields)
qed

text \<open>The labels of a selector are a map in Go; the order they are listed in does not count.\<close>

definition by_key :: "label_selector \<Rightarrow> label_selector" where
  "by_key s = s\<lparr>ls_MatchLabels := sort_key fst (ls_MatchLabels s)\<rparr>"

lemma by_key_equal: "by_key s = by_key s' \<longleftrightarrow>
    sort_key fst (ls_MatchLabels s) = sort_key fst (ls_MatchLabels s') \<and> ls_MatchExpressions s = ls_MatchExpressions s'"
  by (cases s; cases s') (auto simp: by_key_def)

lemma selector_inject: "json_selector s = json_selector s' \<longleftrightarrow> by_key s = by_key s'"
proof
  assume eq: "json_selector s = json_selector s'"
  have "inj (\<lambda>(k, v). (k :: string, JStr v))" by (auto simp: inj_def)
  moreover have "sort_key fst us = [] \<longleftrightarrow> us = []" for us :: "(string \<times> string) list"
    by (metis length_sort length_0_conv)
  ultimately show "by_key s = by_key s'"
    using objects_equal [OF eq [unfolded json_selector_def], of "''matchLabels''"]
      objects_equal [OF eq [unfolded json_selector_def], of "''matchExpressions''"]
      inj_requirement
    by (auto simp: fields by_key_equal inj_map_eq_map split: if_splits)
next
  assume "by_key s = by_key s'"
  then have eq: "sort_key fst (ls_MatchLabels s) = sort_key fst (ls_MatchLabels s')" "ls_MatchExpressions s = ls_MatchExpressions s'"
    by (simp_all add: by_key_equal)
  moreover have "ls_MatchLabels s = [] \<longleftrightarrow> ls_MatchLabels s' = []"
    using arg_cong [OF eq(1), of length] by auto
  ultimately show "json_selector s = json_selector s'"
    by (simp add: json_selector_def)
qed

lemma inj_database [fields]: "inj json_database"
proof (rule injI)
  fix s s' :: DatabaseBackupSpec
  assume eq: "json_database s = json_database s'"
  show "s = s'"
    using objects_equal [OF eq [unfolded json_database_def], of "''type''"]
      objects_equal [OF eq [unfolded json_database_def], of "''host''"]
      objects_equal [OF eq [unfolded json_database_def], of "''port''"]
      objects_equal [OF eq [unfolded json_database_def], of "''database''"]
      objects_equal [OF eq [unfolded json_database_def], of "''authSecretRef''"]
      objects_equal [OF eq [unfolded json_database_def], of "''extraArgs''"]
      objects_equal [OF eq [unfolded json_database_def], of "''enablePITR''"]
    by (simp add: fields)
qed

lemma inj_path [fields]: "inj json_path"
proof (rule injI)
  fix s s' :: DirectoryPath
  assume eq: "json_path s = json_path s'"
  show "s = s'"
    using objects_equal [OF eq [unfolded json_path_def], of "''path''"]
      objects_equal [OF eq [unfolded json_path_def], of "''pvcRef''"]
      objects_equal [OF eq [unfolded json_path_def], of "''subPath''"]
    by (simp add: fields)
qed

lemma inj_directory [fields]: "inj json_directory"
proof (rule injI)
  fix s s' :: DirectoryBackupSpec
  assume eq: "json_directory s = json_directory s'"
  show "s = s'"
    using objects_equal [OF eq [unfolded json_directory_def], of "''paths''"]
      objects_equal [OF eq [unfolded json_directory_def], of "''excludePatterns''"]
      objects_equal [OF eq [unfolded json_directory_def], of "''compressionLevel''"]
    by (simp add: fields)
qed

lemma inj_nfs [fields]: "inj json_nfs"
proof (rule injI)
  fix s s' :: NFSBackupSpec
  assume eq: "json_nfs s = json_nfs s'"
  show "s = s'"
    using objects_equal [OF eq [unfolded json_nfs_def], of "''server''"]
      objects_equal [OF eq [unfolded json_nfs_def], of "''path''"]
      objects_equal [OF eq [unfolded json_nfs_def], of "''mountOptions''"]
      objects_equal [OF eq [unfolded json_nfs_def], of "''subPath''"]
    by (simp add: fields)
qed

lemma inj_s3 [fields]: "inj json_s3"
proof (rule injI)
  fix s s' :: S3StorageSpec
  assume eq: "json_s3 s = json_s3 s'"
  show "s = s'"
    using objects_equal [OF eq [unfolded json_s3_def], of "''endpoint''"]
      objects_equal [OF eq [unfolded json_s3_def], of "''bucket''"]
      objects_equal [OF eq [unfolded json_s3_def], of "''prefix''"]
      objects_equal [OF eq [unfolded json_s3_def], of "''region''"]
      objects_equal [OF eq [unfolded json_s3_def], of "''authSecretRef''"]
      objects_equal [OF eq [unfolded json_s3_def], of "''useTLS''"]
      objects_equal [OF eq [unfolded json_s3_def], of "''skipTLSVerify''"]
    by (simp add: fields)
qed

lemma inj_sftp [fields]: "inj json_sftp"
proof (rule injI)
  fix s s' :: SFTPStorageSpec
  assume eq: "json_sftp s = json_sftp s'"
  show "s = s'"
    using objects_equal [OF eq [unfolded json_sftp_def], of "''host''"]
      objects_equal [OF eq [unfolded json_sftp_def], of "''port''"]
      objects_equal [OF eq [unfolded json_sftp_def], of "''path''"]
      objects_equal [OF eq [unfolded json_sftp_def], of "''authSecretRef''"]
      objects_equal [OF eq [unfolded json_sftp_def], of "''sshKeyType''"]
    by (simp add: fields)
qed

lemma inj_nfs_storage [fields]: "inj json_nfs_storage"
proof (rule injI)
  fix s s' :: NFSStorageSpec
  assume eq: "json_nfs_storage s = json_nfs_storage s'"
  show "s = s'"
    using objects_equal [OF eq [unfolded json_nfs_storage_def], of "''server''"]
      objects_equal [OF eq [unfolded json_nfs_storage_def], of "''path''"]
      objects_equal [OF eq [unfolded json_nfs_storage_def], of "''mountOptions''"]
    by (simp add: fields)
qed

lemma inj_smb [fields]: "inj json_smb"
proof (rule injI)
  fix s s' :: SMBStorageSpec
  assume eq: "json_smb s = json_smb s'"
  show "s = s'"
    using objects_equal [OF eq [unfolded json_smb_def], of "''server''"]
      objects_equal [OF eq [unfolded json_smb_def], of "''share''"]
      objects_equal [OF eq [unfolded json_smb_def], of "''path''"]
      objects_equal [OF eq [unfolded json_smb_def], of "''authSecretRef''"]
      objects_equal [OF eq [unfolded json_smb_def], of "''domain''"]
    by (simp add: fields)
qed

lemma inj_storage [fields]: "inj json_storage"
proof (rule injI)
  fix s s' :: RemoteStorageSpec
  assume eq: "json_storage s = json_storage s'"
  show "s = s'"
    using objects_equal [OF eq [unfolded json_storage_def], of "''type''"]
      objects_equal [OF eq [unfolded json_storage_def], of "''s3''"]
      objects_equal [OF eq [unfolded json_storage_def], of "''sftp''"]
      objects_equal [OF eq [unfolded json_storage_def], of "''nfs''"]
      objects_equal [OF eq [unfolded json_storage_def], of "''smb''"]
    by (simp add: fields)
qed

text \<open>Two targets that differ in the order of the labels of a selector only are the same.\<close>

definition target_by_key :: "BackupTarget \<Rightarrow> BackupTarget" where
  "target_by_key t = t\<lparr>tgt_Config := map_option (\<lambda>c. c\<lparr>cb_LabelSelector := map_option by_key (cb_LabelSelector c)\<rparr>) (tgt_Config t)\<rparr>"

lemma config_inject:
  "json_config c = json_config c' \<longleftrightarrow>
    c\<lparr>cb_LabelSelector := map_option by_key (cb_LabelSelector c)\<rparr> = c'\<lparr>cb_LabelSelector := map_option by_key (cb_LabelSelector c')\<rparr>"
proof
  assume eq: "json_config c = json_config c'"
  show "c\<lparr>cb_LabelSelector := map_option by_key (cb_LabelSelector c)\<rparr> = c'\<lparr>cb_LabelSelector := map_option by_key (cb_LabelSelector c')\<rparr>"
    using objects_equal [OF eq [unfolded json_config_def], of "''includeNamespaces''"]
      objects_equal [OF eq [unfolded json_config_def], of "''excludeNamespaces''"]
      objects_equal [OF eq [unfolded json_config_def], of "''resourceTypes''"]
      objects_equal [OF eq [unfolded json_config_def], of "''labelSelector''"]
    by (simp add: fields pointer_inject [OF selector_inject])
next
  assume *: "c\<lparr>cb_LabelSelector := map_option by_key (cb_LabelSelector c)\<rparr> = c'\<lparr>cb_LabelSelector := map_option by_key (cb_LabelSelector c')\<rparr>"
  then have "map_option by_key (cb_LabelSelector c) = map_option by_key (cb_LabelSelector c')"
    by (cases c; cases c') auto
  then have "f_pointer k json_selector (cb_LabelSelector c) = f_pointer k json_selector (cb_LabelSelector c')" for k
    by (simp add: pointer_inject [OF selector_inject])
  with * show "json_config c = json_config c'" by (cases c; cases c') (auto simp: json_config_def)
qed

lemma target_inject: "json_target t = json_target t' \<longleftrightarrow> target_by_key t = target_by_key t'"
proof
  assume eq: "json_target t = json_target t'"
  show "target_by_key t = target_by_key t'"
    using objects_equal [OF eq [unfolded json_target_def], of "''name''"]
      objects_equal [OF eq [unfolded json_target_def], of "''type''"]
      objects_equal [OF eq [unfolded json_target_def], of "''database''"]
      objects_equal [OF eq [unfolded json_target_def], of "''config''"]
      objects_equal [OF eq [unfolded json_target_def], of "''directory''"]
      objects_equal [OF eq [unfolded json_target_def], of "''nfs''"]
    by (simp add: fields pointer_inject [OF config_inject] target_by_key_def)
next
  assume *: "target_by_key t = target_by_key t'"
  then have "map_option (\<lambda>c. c\<lparr>cb_LabelSelector := map_option by_key (cb_LabelSelector c)\<rparr>) (tgt_Config t)
      = map_option (\<lambda>c. c\<lparr>cb_LabelSelector := map_option by_key (cb_LabelSelector c)\<rparr>) (tgt_Config t')"
    by (cases t; cases t') (auto simp: target_by_key_def)
  then have "f_pointer k json_config (tgt_Config t) = f_pointer k json_config (tgt_Config t')" for k
    by (simp add: pointer_inject [OF config_inject])
  with * show "json_target t = json_target t'" by (cases t; cases t') (auto simp: json_target_def target_by_key_def)
qed

section \<open>The config map\<close>

definition named_task :: "string \<Rightarrow> BackupTask" where
  "named_task s = zero_task\<lparr>bt_Spec := zero_task_spec\<lparr>bts_Targets := Some [zero_target\<lparr>tgt_Name := s\<rparr>]\<rparr>\<rparr>"

text \<open>The strings of a task are well-formed UTF-8, as in every object the API server has stored.\<close>

definition utf8_task :: "BackupTask \<Rightarrow> bool" where
  "utf8_task t \<longleftrightarrow> utf8_json (json_slice json_target (bts_Targets (bt_Spec t))) \<and> utf8_json (json_storage (bts_RemoteStorage (bt_Spec t)))"

text \<open>
  C17: the config map carries the targets and the storage settings without loss.  The config maps of
  two tasks hold the same data exactly when the tasks have the same storage settings and the same
  list of targets, up to the order of the labels of a label selector; so the agent can read back
  every setting, also strings with quotes, control characters or any other character.
\<close>

theorem config_map_lossless:
  assumes "createTargetConfigMap t = Inr m" and "createTargetConfigMap t' = Inr m'" and "utf8_task t" and "utf8_task t'"
  shows "cm_Data m = cm_Data m' \<longleftrightarrow>
    map_option (map target_by_key) (bts_Targets (bt_Spec t)) = map_option (map target_by_key) (bts_Targets (bt_Spec t'))
    \<and> bts_RemoteStorage (bt_Spec t) = bts_RemoteStorage (bt_Spec t')"
proof -
  have data: "cm_Data (projr (createTargetConfigMap u)) = [(''targets.json'', render 0 (json_slice json_target (bts_Targets (bt_Spec u)))),
      (''remotestorage.json'', render 0 (json_storage (bts_RemoteStorage (bt_Spec u)))),
      (''target-count'', Itoa (int (length (bt_Targets u))))]" for u
    by (simp add: createTargetConfigMap_def MarshalIndent_def Let_def)
  have same: "render 0 j = render 0 j' \<longleftrightarrow> j = j'" if "utf8_json j" "utf8_json j'" for j j'
    using MarshalIndent_inject [OF that] by (simp add: MarshalIndent_def)
  have count: "length (bt_Targets t) = length (bt_Targets t')"
    if "map_option (map target_by_key) (bts_Targets (bt_Spec t)) = map_option (map target_by_key) (bts_Targets (bt_Spec t'))"
    using that by (auto simp: elems_def dest: map_eq_imp_length_eq split: option.splits)
  show ?thesis
    using data [of t] data [of t'] assms count
    by (auto simp: utf8_task_def same slice_inject [OF target_inject] inj_eq [OF inj_storage])
qed

theorem config_map_lossless_witness:
  "cm_Data (projr (createTargetConfigMap (named_task ''a''))) \<noteq> cm_Data (projr (createTargetConfigMap (named_task [CHR 0x22, CHR 0x0A])))"
proof -
  have "utf8_task (named_task ''a'')" "utf8_task (named_task [CHR 0x22, CHR 0x0A])"
    by (simp_all add: utf8_task_def named_task_def zero_task_def zero_task_spec_def zero_remote_storage_def zero_target_def
        json_slice_def json_target_def json_storage_def f_always_def f_pointer_def)
  moreover obtain m where m: "createTargetConfigMap (named_task ''a'') = Inr m" using createTargetConfigMap_total by blast
  moreover obtain m' where m': "createTargetConfigMap (named_task [CHR 0x22, CHR 0x0A]) = Inr m'"
    using createTargetConfigMap_total by blast
  ultimately show ?thesis
    using config_map_lossless [OF m m'] by (simp add: named_task_def target_by_key_def zero_target_def)
qed

end
