(* ===== verification/Retention.thy ===== *)
theory Retention
  imports Api_Types
begin

text \<open>
  The retention policy as both task controllers apply it: \<open>filterRecordsToDelete\<close> of
  \<open>internal/controller/backuptask_controller.go\<close>.  A slice expression with a negative bound panics,
  so the result is a sum; the durations are 64-bit nanosecond counts that wrap.  The lemmas say
  which records survive, when the age limit means what it says, and what the missing sort costs.
\<close>

datatype gopanic = NilDereference | SliceOutOfRange

section \<open>The filter\<close>

text \<open>\<open>time.Duration(*retention.MaxAgeDays) * 24 * time.Hour\<close>.\<close>

definition days_duration :: "int32 \<Rightarrow> int64" where
  "days_duration days = (scast days :: int64) * 24 * 3600000000000"

definition created :: "BackupRecord \<Rightarrow> gotime" where
  "created r = om_CreationTimestamp (br_Meta r)"

definition expired :: "gotime \<Rightarrow> int32 \<Rightarrow> BackupRecord \<Rightarrow> bool" where
  "expired now days r \<longleftrightarrow> created r + sint (days_duration days) < now"

definition filterRecordsToDelete ::
  "gotime \<Rightarrow> BackupRecord list \<Rightarrow> RetentionPolicy \<Rightarrow> gopanic + BackupRecord list" where
  "filterRecordsToDelete now records retention =
     (let sortedRecords = records;
          byCount = (case rp_MaxBackupCount retention of
              None \<Rightarrow> Inr []
            | Some n \<Rightarrow>
                if int (length sortedRecords) > goint n
                then (if goint n < 0 then Inl SliceOutOfRange
                      else Inr (drop (nat (goint n)) sortedRecords))
                else Inr [])
      in case byCount of
           Inl p \<Rightarrow> Inl p
         | Inr toDelete \<Rightarrow> Inr (toDelete @
             (case rp_MaxAgeDays retention of
                None \<Rightarrow> []
              | Some days \<Rightarrow> filter (expired now days) sortedRecords)))"

text \<open>\<open>int32(len(backupRecords.Items) - len(recordsToDelete))\<close> of \<open>applyRetentionPolicy\<close>.\<close>

definition history_count :: "BackupRecord list \<Rightarrow> BackupRecord list \<Rightarrow> int32" where
  "history_count items toDelete = word_of_int (int (length items) - int (length toDelete))"

section \<open>Which records survive\<close>

definition count_limit :: "RetentionPolicy \<Rightarrow> BackupRecord list \<Rightarrow> nat" where
  "count_limit p rs = (case rp_MaxBackupCount p of None \<Rightarrow> length rs | Some n \<Rightarrow> nat (goint n))"

definition too_old :: "gotime \<Rightarrow> RetentionPolicy \<Rightarrow> BackupRecord \<Rightarrow> bool" where
  "too_old now p r = (case rp_MaxAgeDays p of None \<Rightarrow> False | Some d \<Rightarrow> expired now d r)"

lemma too_old_fun: "too_old now p = (case rp_MaxAgeDays p of None \<Rightarrow> (\<lambda>r. False) | Some d \<Rightarrow> expired now d)"
  by (auto simp: too_old_def fun_eq_iff split: option.split)

lemma filterRecordsToDelete_cases:
  "filterRecordsToDelete now rs p =
     (if (\<exists>n. rp_MaxBackupCount p = Some n \<and> goint n < 0) then Inl SliceOutOfRange
      else Inr (drop (count_limit p rs) rs @ filter (too_old now p) rs))"
  by (auto simp: filterRecordsToDelete_def count_limit_def too_old_fun Let_def split: option.splits)

lemma filter_not_in_drop: "distinct rs \<Longrightarrow> filter (\<lambda>r. r \<notin> set (drop n rs)) rs = take n rs"
proof -
  assume d: "distinct rs"
  have "filter (\<lambda>r. r \<notin> set (drop n rs)) (take n rs @ drop n rs) = take n rs"
    unfolding filter_append using set_take_disj_set_drop_if_distinct [OF d, of n n]
    by (auto simp: filter_id_conv filter_empty_conv)
  then show ?thesis by simp
qed

lemma survivors:
  assumes "distinct rs" and "filterRecordsToDelete now rs p = Inr ds"
  shows "filter (\<lambda>r. r \<notin> set ds) rs = filter (\<lambda>r. \<not> too_old now p r) (take (count_limit p rs) rs)"
proof -
  have ds: "ds = drop (count_limit p rs) rs @ filter (too_old now p) rs"
    using assms(2) by (auto simp: filterRecordsToDelete_cases split: if_splits)
  have "filter (\<lambda>r. r \<notin> set ds) rs =
      filter (\<lambda>r. \<not> too_old now p r) (filter (\<lambda>r. r \<notin> set (drop (count_limit p rs) rs)) rs)"
    unfolding filter_filter by (rule filter_cong) (auto simp: ds)
  also have "\<dots> = filter (\<lambda>r. \<not> too_old now p r) (take (count_limit p rs) rs)"
    by (simp only: filter_not_in_drop [OF assms(1)])
  finally show ?thesis .
qed

section \<open>Durations\<close>

lemma days_duration_of_int: "days_duration d = word_of_int (sint d * 86400000000000)"
proof -
  have "(word_of_int (sint d * 86400000000000) :: int64) = word_of_int (sint d) * word_of_int 86400000000000"
    by (rule of_int_mult)
  also have "(word_of_int 86400000000000 :: int64) = 24 * 3600000000000"
    by simp
  finally show ?thesis
    unfolding days_duration_def scast_eq by (simp only: mult.assoc)
qed

lemma sint64_exact: "sint (word_of_int k :: int64) = k \<longleftrightarrow> - 9223372036854775808 \<le> k \<and> k < 9223372036854775808"
proof
  assume "sint (word_of_int k :: int64) = k"
  then show "- 9223372036854775808 \<le> k \<and> k < 9223372036854775808"
    using sint_greater_eq [of "word_of_int k :: int64"] sint_less [of "word_of_int k :: int64"] by simp
next
  assume "- 9223372036854775808 \<le> k \<and> k < 9223372036854775808"
  then show "sint (word_of_int k :: int64) = k"
    unfolding sint_sbintrunc' by (intro signed_take_bit_int_eq_self) simp_all
qed

lemma days_duration_exact:
  "sint (days_duration d) = sint d * 86400000000000 \<longleftrightarrow> - 106751 \<le> sint d \<and> sint d \<le> 106751"
  unfolding days_duration_of_int sint64_exact by linarith

lemma days_duration_106752: "sint (days_duration 106752) = - 9223371273709551616"
  unfolding days_duration_of_int sint_sbintrunc' by (simp add: signed_take_bit_eq_take_bit_shift take_bit_eq_mod)

section \<open>The history count\<close>

lemma length_survivors:
  assumes "distinct rs" and "set ds \<subseteq> set rs"
  shows "length rs = card (set ds) + length (filter (\<lambda>r. r \<notin> set ds) rs)"
proof -
  have "length rs = length (filter (\<lambda>r. r \<in> set ds) rs) + length (filter (\<lambda>r. r \<notin> set ds) rs)"
    by (rule sum_length_filter_compl [symmetric])
  also have "length (filter (\<lambda>r. r \<in> set ds) rs) = card (set ds)"
    using assms by (subst distinct_card [symmetric]) (auto intro: arg_cong [where f = card])
  finally show ?thesis .
qed

lemma filterRecordsToDelete_subset: "filterRecordsToDelete now rs p = Inr ds \<Longrightarrow> set ds \<subseteq> set rs"
  by (auto simp: filterRecordsToDelete_cases split: if_splits dest: in_set_dropD)

lemma example_records: "filterRecordsToDelete 5 [zero_record] \<lparr>rp_MaxAgeDays = Some 0, rp_MaxBackupCount = Some 0, rp_KeepLast = None\<rparr>
    = Inr [zero_record, zero_record]"
  by (simp add: filterRecordsToDelete_def expired_def days_duration_def created_def zero_record_def zero_meta_def)

section \<open>Properties\<close>



text \<open>
  The age limit is the number of days asked for exactly when it is between -106751 and 106751;
  beyond that the 64-bit duration wraps.
\<close>

theorem age_limit_exact:
  "sint (days_duration d) = sint d * (24 * 60 * 60 * 1000000000) \<longleftrightarrow> - 106751 \<le> sint d \<and> sint d \<le> 106751"
  using days_duration_exact [of d] by simp

text \<open>
  C39: with an age limit of 106752 days (292 years) the policy deletes every record created up to
  the present, because the duration has wrapped to a negative one.
\<close>

theorem huge_age_limit_deletes_all:
  assumes "list_all (\<lambda>r. created r \<le> now) rs"
  shows "filterRecordsToDelete now rs \<lparr>rp_MaxAgeDays = Some 106752, rp_MaxBackupCount = None, rp_KeepLast = k\<rparr> = Inr rs"
  using assms
  by (auto simp: filterRecordsToDelete_def expired_def days_duration_106752 list_all_iff filter_id_conv)

theorem huge_age_limit_deletes_all_witness:
  "filterRecordsToDelete 7 [zero_record] \<lparr>rp_MaxAgeDays = Some 106752, rp_MaxBackupCount = None, rp_KeepLast = None\<rparr>
     = Inr [zero_record]"
  by (rule huge_age_limit_deletes_all) (simp add: created_def zero_record_def zero_meta_def)

text \<open>
  The filter panics exactly when the count limit is negative, whatever the records are.
\<close>

theorem filter_panics_iff:
  "filterRecordsToDelete now rs p = Inl SliceOutOfRange \<longleftrightarrow> (\<exists>n. rp_MaxBackupCount p = Some n \<and> sint n < 0)"
  by (simp add: filterRecordsToDelete_cases)

text \<open>
  On a list ordered from the newest to the oldest record, the count limit never deletes a
  record that is newer than one it keeps.
\<close>

theorem count_limit_keeps_newest:
  assumes "sorted_wrt (\<lambda>a b. created b \<le> created a) rs" and "distinct rs"
    and "filterRecordsToDelete now rs \<lparr>rp_MaxAgeDays = None, rp_MaxBackupCount = n, rp_KeepLast = k\<rparr> = Inr ds"
    and "kept \<in> set rs - set ds" and "gone \<in> set ds"
  shows "created gone \<le> created kept"
proof -
  let ?p = "\<lparr>rp_MaxAgeDays = None, rp_MaxBackupCount = n, rp_KeepLast = k\<rparr>"
  let ?m = "count_limit ?p rs"
  have ds: "ds = drop ?m rs"
    using assms(3) by (auto simp: filterRecordsToDelete_cases too_old_fun split: if_splits)
  have rs: "rs = take ?m rs @ drop ?m rs" by (rule append_take_drop_id [symmetric])
  have "set rs = set (take ?m rs) \<union> set (drop ?m rs)" by (subst rs) (rule set_append)
  with ds assms(4) have "kept \<in> set (take ?m rs)" by blast
  moreover have "sorted_wrt (\<lambda>a b. created b \<le> created a) (take ?m rs @ drop ?m rs)"
    using assms(1) by (subst (asm) rs)
  moreover have "gone \<in> set (drop ?m rs)" using ds assms(5) by simp
  ultimately show ?thesis unfolding sorted_wrt_append by blast
qed

theorem count_limit_keeps_newest_witness:
  "created zero_record \<le> created (zero_record\<lparr>br_Meta := zero_meta\<lparr>om_CreationTimestamp := 3\<rparr>\<rparr>)"
  by (rule count_limit_keeps_newest [where n = "Some 1" and k = None and now = 9
        and rs = "[zero_record\<lparr>br_Meta := zero_meta\<lparr>om_CreationTimestamp := 3\<rparr>\<rparr>, zero_record]" and ds = "[zero_record]"])
    (simp_all add: created_def zero_record_def zero_meta_def filterRecordsToDelete_def)

text \<open>
  The list is not sorted first: a count limit of one keeps the head of the list as it is
  returned by the API, even when every other record is newer.
\<close>

theorem count_limit_keeps_list_head:
  "filterRecordsToDelete now (r # rs) \<lparr>rp_MaxAgeDays = None, rp_MaxBackupCount = Some 1, rp_KeepLast = k\<rparr> = Inr rs"
  by (simp add: filterRecordsToDelete_def Let_def)

text \<open>
  The difference of the two list lengths, which becomes the history count, is the number of
  surviving records exactly when no record is listed for deletion twice, that is when no record
  falls under both limits.
\<close>

theorem history_count_exact:
  assumes "distinct rs" and "filterRecordsToDelete now rs p = Inr ds"
  shows "history_count rs ds = word_of_int (int (length (filter (\<lambda>r. r \<notin> set ds) rs)) + int (card (set ds)) - int (length ds))
    \<and> (int (length rs) - int (length ds) = int (length (filter (\<lambda>r. r \<notin> set ds) rs)) \<longleftrightarrow> distinct ds)"
proof -
  have "length rs = card (set ds) + length (filter (\<lambda>r. r \<notin> set ds) rs)"
    using assms filterRecordsToDelete_subset by (blast intro: length_survivors)
  moreover have "distinct ds \<longleftrightarrow> card (set ds) = length ds"
    using distinct_card card_distinct by blast
  ultimately show ?thesis
    by (auto simp: history_count_def algebra_simps)
qed

theorem history_count_exact_witness:
  "history_count [zero_record] [zero_record, zero_record] = - 1"
  using history_count_exact [OF _ example_records] by simp

end
