(* ===== verification/Cluster_Client.thy ===== *)
theory Cluster_Client
  imports Target_Config_Map Retention
begin

text \<open>
  The calls the controllers make and the way Go runs them.  A controller reads and writes the
  cluster through a client, whose answers depend on everything that happened before: the record
  \<open>world\<close> gives the answer of each call as a function of the events so far, so a theorem for every
  world holds for every cluster, every failure and every other writer.  The functions of packages
  outside the repository that compute on objects only are fields of the same record.

  A Go function with effects is a function from the world and the events so far to a result and the
  events after it (\<open>'a go\<close>); a panic ends it at once, and a function that returns an error returns a
  sum.  What is logged is left out.
\<close>

section \<open>Events\<close>

text \<open>Every event is a call with its arguments and the answer it got.\<close>

datatype event =
    GetTask key "goerror + BackupTask"
  | UpdateTask BackupTask "goerror + BackupTask"
  | UpdateTaskStatus BackupTask "goerror + BackupTask"
  | CreateConfigMap config_map "goerror + config_map"
  | UpdateConfigMap config_map "goerror + config_map"
  | CreateOrUpdateCronJob cron_job "goerror + cron_job"
  | DeleteCronJob key "goerror + unit"
  | ListRecords string labels "goerror + BackupRecord list"
  | DeleteRecord BackupRecord "goerror + unit"
  | GetRecord key "goerror + BackupRecord"
  | UpdateRecordStatus BackupRecord "goerror + BackupRecord"
  | ListJobs string labels "goerror + job list"
  | ListPods string labels "goerror + pod list"
  | Now gotime
  | RecordEvent BackupTask string string string goerror

text \<open>
  The world: the client, the clock, the Unicode part of \<open>strings.ToUpper\<close>, the functions of
  \<open>controllerutil\<close>, the formatting of a floating-point number of seconds between two times, the texts of
  errors, and whether the field \<open>Recorder\<close> of the reconciler is set.  \<open>CreateOrUpdate\<close> gets the mutation it runs
  on the object it has fetched or is going to create; \<open>CreateOrUpdateTry\<close> is the same function for a
  mutation that may panic.
\<close>

record world =
  w_GetTask :: "event list \<Rightarrow> key \<Rightarrow> goerror + BackupTask"
  w_UpdateTask :: "event list \<Rightarrow> BackupTask \<Rightarrow> goerror + BackupTask"
  w_UpdateTaskStatus :: "event list \<Rightarrow> BackupTask \<Rightarrow> goerror + BackupTask"
  w_CreateConfigMap :: "event list \<Rightarrow> config_map \<Rightarrow> goerror + config_map"
  w_UpdateConfigMap :: "event list \<Rightarrow> config_map \<Rightarrow> goerror + config_map"
  w_CreateOrUpdate :: "event list \<Rightarrow> cron_job \<Rightarrow> (cron_job \<Rightarrow> goerror + cron_job) \<Rightarrow> goerror + cron_job"
  w_CreateOrUpdateTry :: "event list \<Rightarrow> cron_job \<Rightarrow> (cron_job \<Rightarrow> gopanic + (goerror + cron_job)) \<Rightarrow> gopanic + (goerror + cron_job)"
  w_DeleteCronJob :: "event list \<Rightarrow> key \<Rightarrow> goerror + unit"
  w_ListRecords :: "event list \<Rightarrow> string \<Rightarrow> labels \<Rightarrow> goerror + BackupRecord list"
  w_DeleteRecord :: "event list \<Rightarrow> BackupRecord \<Rightarrow> goerror + unit"
  w_GetRecord :: "event list \<Rightarrow> key \<Rightarrow> goerror + BackupRecord"
  w_UpdateRecordStatus :: "event list \<Rightarrow> BackupRecord \<Rightarrow> goerror + BackupRecord"
  w_ListJobs :: "event list \<Rightarrow> string \<Rightarrow> labels \<Rightarrow> goerror + job list"
  w_ListPods :: "event list \<Rightarrow> string \<Rightarrow> labels \<Rightarrow> goerror + pod list"
  w_Now :: "event list \<Rightarrow> gotime"
  w_ToUpper :: "string \<Rightarrow> string"
  w_ContainsFinalizer :: "BackupTask \<Rightarrow> string \<Rightarrow> bool"
  w_AddFinalizer :: "BackupTask \<Rightarrow> string \<Rightarrow> BackupTask"
  w_RemoveFinalizer :: "BackupTask \<Rightarrow> string \<Rightarrow> BackupTask"
  w_SetControllerReference :: "BackupTask \<Rightarrow> cron_job \<Rightarrow> goerror + cron_job"
  w_FormatSeconds :: "gotime \<Rightarrow> gotime \<Rightarrow> string"
  w_ErrorText :: "goerror \<Rightarrow> string"
  w_Recorder :: bool

section \<open>Running Go code\<close>

type_synonym 'a go = "world \<Rightarrow> event list \<Rightarrow> (gopanic + 'a) \<times> event list"

definition go_return :: "'a \<Rightarrow> 'a go" where
  "go_return x w h = (Inr x, h)"

definition go_panic :: "gopanic \<Rightarrow> 'a go" where
  "go_panic p w h = (Inl p, h)"

definition go_bind :: "'a go \<Rightarrow> ('a \<Rightarrow> 'b go) \<Rightarrow> 'b go" where
  "go_bind m k w h = (case m w h of (Inl p, h') \<Rightarrow> (Inl p, h') | (Inr x, h') \<Rightarrow> k x w h')"

text \<open>\<open>if err := m; err != nil { return err }\<close>, and the same with the error wrapped first.\<close>

definition go_check :: "(goerror + 'a) go \<Rightarrow> ('a \<Rightarrow> (goerror + 'b) go) \<Rightarrow> (goerror + 'b) go" where
  "go_check m k = go_bind m (\<lambda>r. case r of Inl err \<Rightarrow> go_return (Inl err) | Inr x \<Rightarrow> k x)"

definition go_wrap :: "string \<Rightarrow> (goerror + 'a) go \<Rightarrow> (goerror + 'a) go" where
  "go_wrap msg m = go_bind m (\<lambda>r. go_return (case r of Inl err \<Rightarrow> Inl (Wrapf msg err) | Inr x \<Rightarrow> Inr x))"

definition go_lift :: "gopanic + 'a \<Rightarrow> 'a go" where
  "go_lift r w h = (r, h)"

definition go_world :: "(world \<Rightarrow> 'a) \<Rightarrow> 'a go" where
  "go_world f w h = (Inr (f w), h)"

fun for_each :: "('a \<Rightarrow> unit go) \<Rightarrow> 'a list \<Rightarrow> unit go" where
  "for_each body [] = go_return ()"
| "for_each body (x # xs) = go_bind (body x) (\<lambda>_. for_each body xs)"

text \<open>A call: the answer of the world is returned and the event appended to the log.\<close>

definition call :: "(world \<Rightarrow> event list \<Rightarrow> 'a) \<Rightarrow> ('a \<Rightarrow> event) \<Rightarrow> 'a go" where
  "call f mk w h = (let r = f w h in (Inr r, h @ [mk r]))"

definition client_GetTask :: "key \<Rightarrow> (goerror + BackupTask) go" where
  "client_GetTask k = call (\<lambda>w h. w_GetTask w h k) (GetTask k)"

definition client_UpdateTask :: "BackupTask \<Rightarrow> (goerror + BackupTask) go" where
  "client_UpdateTask t = call (\<lambda>w h. w_UpdateTask w h t) (UpdateTask t)"

definition client_UpdateTaskStatus :: "BackupTask \<Rightarrow> (goerror + BackupTask) go" where
  "client_UpdateTaskStatus t = call (\<lambda>w h. w_UpdateTaskStatus w h t) (UpdateTaskStatus t)"

definition client_CreateConfigMap :: "config_map \<Rightarrow> (goerror + config_map) go" where
  "client_CreateConfigMap m = call (\<lambda>w h. w_CreateConfigMap w h m) (CreateConfigMap m)"

definition client_UpdateConfigMap :: "config_map \<Rightarrow> (goerror + config_map) go" where
  "client_UpdateConfigMap m = call (\<lambda>w h. w_UpdateConfigMap w h m) (UpdateConfigMap m)"

definition client_CreateOrUpdate :: "cron_job \<Rightarrow> (cron_job \<Rightarrow> goerror + cron_job) \<Rightarrow> (goerror + cron_job) go" where
  "client_CreateOrUpdate c mutate = call (\<lambda>w h. w_CreateOrUpdate w h c mutate) (CreateOrUpdateCronJob c)"

definition client_CreateOrUpdateTry :: "cron_job \<Rightarrow> (cron_job \<Rightarrow> gopanic + (goerror + cron_job)) \<Rightarrow> (goerror + cron_job) go" where
  "client_CreateOrUpdateTry c mutate w h = (case w_CreateOrUpdateTry w h c mutate of
     Inl p \<Rightarrow> (Inl p, h)
   | Inr r \<Rightarrow> (Inr r, h @ [CreateOrUpdateCronJob c r]))"

definition client_DeleteCronJob :: "key \<Rightarrow> (goerror + unit) go" where
  "client_DeleteCronJob k = call (\<lambda>w h. w_DeleteCronJob w h k) (DeleteCronJob k)"

definition client_ListRecords :: "string \<Rightarrow> labels \<Rightarrow> (goerror + BackupRecord list) go" where
  "client_ListRecords ns ls = call (\<lambda>w h. w_ListRecords w h ns ls) (ListRecords ns ls)"

definition client_DeleteRecord :: "BackupRecord \<Rightarrow> (goerror + unit) go" where
  "client_DeleteRecord r = call (\<lambda>w h. w_DeleteRecord w h r) (DeleteRecord r)"

definition client_GetRecord :: "key \<Rightarrow> (goerror + BackupRecord) go" where
  "client_GetRecord k = call (\<lambda>w h. w_GetRecord w h k) (GetRecord k)"

definition client_UpdateRecordStatus :: "BackupRecord \<Rightarrow> (goerror + BackupRecord) go" where
  "client_UpdateRecordStatus r = call (\<lambda>w h. w_UpdateRecordStatus w h r) (UpdateRecordStatus r)"

definition client_ListJobs :: "string \<Rightarrow> labels \<Rightarrow> (goerror + job list) go" where
  "client_ListJobs ns ls = call (\<lambda>w h. w_ListJobs w h ns ls) (ListJobs ns ls)"

definition client_ListPods :: "string \<Rightarrow> labels \<Rightarrow> (goerror + pod list) go" where
  "client_ListPods ns ls = call (\<lambda>w h. w_ListPods w h ns ls) (ListPods ns ls)"

definition time_Now :: "gotime go" where
  "time_Now = call (\<lambda>w h. w_Now w h) Now"

text \<open>\<open>Recorder.Eventf\<close>: a method call on a nil interface panics.\<close>

definition recorder_Eventf :: "BackupTask \<Rightarrow> string \<Rightarrow> string \<Rightarrow> string \<Rightarrow> goerror \<Rightarrow> unit go" where
  "recorder_Eventf t eventtype reason msg err =
     go_bind (go_world w_Recorder) (\<lambda>present.
       if present then call (\<lambda>w h. ()) (\<lambda>_. RecordEvent t eventtype reason msg err)
       else go_panic NilDereference)"

named_theorems client_defs
lemmas [client_defs] = client_GetTask_def client_UpdateTask_def client_UpdateTaskStatus_def
  client_CreateConfigMap_def client_UpdateConfigMap_def client_CreateOrUpdate_def client_DeleteCronJob_def
  client_ListRecords_def client_DeleteRecord_def client_GetRecord_def client_UpdateRecordStatus_def
  client_ListJobs_def client_ListPods_def time_Now_def

lemmas go_run = go_return_def go_panic_def go_bind_def go_check_def go_wrap_def go_lift_def go_world_def
  call_def Let_def client_defs

section \<open>Reasoning about runs\<close>

text \<open>
  \<open>runs w P m Q\<close>: started after events that satisfy \<open>P\<close>, \<open>m\<close> ends with a result and events that
  satisfy \<open>Q\<close>; a panic is a result.
\<close>

definition runs :: "world \<Rightarrow> (event list \<Rightarrow> bool) \<Rightarrow> 'a go \<Rightarrow> (gopanic + 'a \<Rightarrow> event list \<Rightarrow> bool) \<Rightarrow> bool" where
  "runs w P m Q \<longleftrightarrow> (\<forall>h. P h \<longrightarrow> Q (fst (m w h)) (snd (m w h)))"

lemma runsD: "runs w P m Q \<Longrightarrow> P h \<Longrightarrow> Q (fst (m w h)) (snd (m w h))"
  by (simp add: runs_def)

lemma runs_pre: "runs w P' m Q \<Longrightarrow> (\<And>h. P h \<Longrightarrow> P' h) \<Longrightarrow> runs w P m Q"
  by (simp add: runs_def)

lemma runs_post: "runs w P m Q' \<Longrightarrow> (\<And>r h. Q' r h \<Longrightarrow> Q r h) \<Longrightarrow> runs w P m Q"
  by (simp add: runs_def)

lemma runs_return: "(\<And>h. P h \<Longrightarrow> Q (Inr x) h) \<Longrightarrow> runs w P (go_return x) Q"
  by (simp add: runs_def go_return_def)

lemma runs_panic: "(\<And>h. P h \<Longrightarrow> Q (Inl p) h) \<Longrightarrow> runs w P (go_panic p) Q"
  by (simp add: runs_def go_panic_def)

lemma runs_lift: "(\<And>h. P h \<Longrightarrow> Q r h) \<Longrightarrow> runs w P (go_lift r) Q"
  by (simp add: runs_def go_lift_def)

lemma runs_world: "(\<And>h. P h \<Longrightarrow> Q (Inr (f w)) h) \<Longrightarrow> runs w P (go_world f) Q"
  by (simp add: runs_def go_world_def)

lemma runs_call: "(\<And>h. P h \<Longrightarrow> Q (Inr (f w h)) (h @ [mk (f w h)])) \<Longrightarrow> runs w P (call f mk) Q"
  by (simp add: runs_def call_def Let_def)

lemma runs_bind:
  assumes "runs w P m R"
    and "\<And>p h. R (Inl p) h \<Longrightarrow> Q (Inl p) h"
    and "\<And>x. runs w (R (Inr x)) (k x) Q"
  shows "runs w P (go_bind m k) Q"
proof -
  have "Q (fst (go_bind m k w h)) (snd (go_bind m k w h))" if "P h" for h
  proof -
    obtain r h' where m: "m w h = (r, h')" by fastforce
    from runsD [OF assms(1) that] have R: "R r h'" by (simp add: m)
    show ?thesis
      using R assms(2) runsD [OF assms(3)] by (cases r) (auto simp: go_bind_def m)
  qed
  then show ?thesis by (simp add: runs_def)
qed

lemma runs_check:
  assumes "runs w P m R"
    and "\<And>p h. R (Inl p) h \<Longrightarrow> Q (Inl p) h"
    and "\<And>e h. R (Inr (Inl e)) h \<Longrightarrow> Q (Inr (Inl e)) h"
    and "\<And>x. runs w (R (Inr (Inr x))) (k x) Q"
  shows "runs w P (go_check m k) Q"
  unfolding go_check_def
  by (rule runs_bind [OF assms(1)]) (auto intro!: runs_return assms(2,3,4) split: sum.split)

lemma runs_wrap:
  assumes "runs w P m R"
    and "\<And>p h. R (Inl p) h \<Longrightarrow> Q (Inl p) h"
    and "\<And>e h. R (Inr (Inl e)) h \<Longrightarrow> Q (Inr (Inl (Wrapf msg e))) h"
    and "\<And>x h. R (Inr (Inr x)) h \<Longrightarrow> Q (Inr (Inr x)) h"
  shows "runs w P (go_wrap msg m) Q"
  unfolding go_wrap_def
  by (rule runs_bind [OF assms(1)]) (auto intro!: runs_return assms(2,3,4) split: sum.split)

text \<open>A loop keeps an invariant on the log and the elements already done.\<close>

lemma runs_for_each:
  assumes "\<And>done x rest. xs = done @ x # rest \<Longrightarrow>
      runs w (I done) (body x) (\<lambda>r h. case r of Inl p \<Rightarrow> False | Inr _ \<Rightarrow> I (done @ [x]) h)"
    and "\<And>h. I xs h \<Longrightarrow> Q (Inr ()) h"
  shows "runs w (I []) (for_each body xs) Q"
proof -
  have "runs w (I done) (for_each body ys) Q" if "xs = done @ ys" for ys "done"
    using that
  proof (induction ys arbitrary: "done")
    case Nil
    then show ?case using assms(2) by (auto intro: runs_return)
  next
    case (Cons y ys)
    have rest: "runs w (I (done @ [y])) (for_each body ys) Q"
      using Cons.prems by (intro Cons.IH) simp
    show ?case
      unfolding for_each.simps by (rule runs_bind [OF assms(1) [OF Cons.prems]]) (simp_all add: rest)
  qed
  from this [of "[]" xs] show ?thesis by simp
qed

text \<open>The log only grows.\<close>

definition grows :: "'a go \<Rightarrow> bool" where
  "grows m \<longleftrightarrow> (\<forall>w h. \<exists>es. snd (m w h) = h @ es)"

lemma grows_basic: "grows (go_return x)" "grows (go_panic p)" "grows (go_lift r)" "grows (go_world f)" "grows (call g mk)"
  by (simp_all add: grows_def go_return_def go_panic_def go_lift_def go_world_def call_def Let_def)

lemma grows_bind: "grows m \<Longrightarrow> (\<And>x. grows (k x)) \<Longrightarrow> grows (go_bind m k)"
proof -
  assume m: "grows m" and k: "\<And>x. grows (k x)"
  have "\<exists>es. snd (go_bind m k w h) = h @ es" for w h
  proof -
    obtain r h' where run: "m w h = (r, h')" by fastforce
    moreover obtain es where "h' = h @ es" using m run unfolding grows_def by (metis snd_conv)
    ultimately show ?thesis
    proof (cases r)
      case (Inr x)
      obtain fs where "snd (k x w h') = h' @ fs" using k unfolding grows_def by blast
      with Inr run \<open>h' = h @ es\<close> show ?thesis by (simp add: go_bind_def)
    qed (auto simp: go_bind_def)
  qed
  then show ?thesis by (simp add: grows_def)
qed

lemma grows_check: "grows m \<Longrightarrow> (\<And>x. grows (k x)) \<Longrightarrow> grows (go_check m k)"
  unfolding go_check_def by (rule grows_bind) (auto intro: grows_basic split: sum.split)

lemma grows_wrap: "grows m \<Longrightarrow> grows (go_wrap msg m)"
  unfolding go_wrap_def by (rule grows_bind) (auto intro: grows_basic)

lemmas grows_intros = grows_basic grows_bind grows_check grows_wrap

end
