(* ===== verification/Protocol.thy ===== *)
theory Protocol
  imports Cluster_Client
begin

text \<open>
  Protocols against the cluster.  A protocol is a transition relation on stages whose labels are
  events; \<open>reaches\<close> are the stages a log leads to, \<open>path\<close> what happens between two stages.  With
  \<open>moves\<close> a Go function is shown to follow a protocol call by call.  The locale
  \<open>controller_protocol\<close> is the contract between a reconciler and its protocol: the run follows the
  protocol and ends as it prescribes, and every stage has its evidence in the log.  Both
  controllers interpret it.
\<close>

section \<open>Stages and logs\<close>

inductive reaches :: "('s \<Rightarrow> event \<Rightarrow> 's \<Rightarrow> bool) \<Rightarrow> 's \<Rightarrow> event list \<Rightarrow> 's \<Rightarrow> bool" for step start where
  none: "reaches step start [] start"
| more: "reaches step start h s \<Longrightarrow> step s e s' \<Longrightarrow> reaches step start (h @ [e]) s'"

fun path :: "('s \<Rightarrow> event \<Rightarrow> 's \<Rightarrow> bool) \<Rightarrow> 's \<Rightarrow> event list \<Rightarrow> 's \<Rightarrow> bool" where
  "path step s [] s' = (s = s')"
| "path step s (e # es) s' = (\<exists>s1. step s e s1 \<and> path step s1 es s')"

lemma path_snoc: "path step s es s1 \<Longrightarrow> step s1 e s2 \<Longrightarrow> path step s (es @ [e]) s2"
  by (induction es arbitrary: s) auto

lemma reaches_split: "reaches step start (xs @ ys) s \<Longrightarrow> \<exists>s1. reaches step start xs s1 \<and> path step s1 ys s"
proof (induction ys arbitrary: s rule: rev_induct)
  case Nil
  then show ?case by auto
next
  case (snoc y ys)
  from snoc.prems obtain s' where "reaches step start (xs @ ys) s'" and last: "step s' y s"
    by (cases rule: reaches.cases) auto
  with snoc.IH obtain s1 where "reaches step start xs s1" "path step s1 ys s'" by blast
  with last show ?case by (blast intro: path_snoc)
qed

lemma path_append: "path step s (xs @ ys) s' \<Longrightarrow> \<exists>s1. path step s xs s1 \<and> path step s1 ys s'"
proof (induction xs arbitrary: s)
  case (Cons x xs)
  then obtain s1 where "step s x s1" "path step s1 (xs @ ys) s'" by auto
  with Cons.IH show ?case by fastforce
qed simp

lemma reaches_prefix: "reaches step start h s \<Longrightarrow> \<exists>s'. path step start (take n h) s'"
proof -
  assume "reaches step start h s"
  then have "reaches step start ([] @ h) s" by simp
  from reaches_split [OF this] obtain s1 where "reaches step start [] s1" "path step s1 h s" by blast
  then have "path step start (take n h @ drop n h) s"
    by (auto elim: reaches.cases)
  from path_append [OF this] show ?thesis by blast
qed

section \<open>Functions that follow a protocol\<close>

text \<open>\<open>moves step start w S m Q\<close>: started in a stage of a protocol of \<open>S\<close>, \<open>m\<close> ends with a result and a stage that satisfy \<open>Q\<close>.\<close>

definition moves :: "('s \<Rightarrow> event \<Rightarrow> 's \<Rightarrow> bool) \<Rightarrow> 's \<Rightarrow> world \<Rightarrow> ('s \<Rightarrow> bool) \<Rightarrow> 'a go \<Rightarrow> (gopanic + 'a \<Rightarrow> 's \<Rightarrow> bool) \<Rightarrow> bool" where
  "moves step start w S m Q \<longleftrightarrow> runs w (\<lambda>h. \<exists>s. reaches step start h s \<and> S s) m (\<lambda>r h. \<exists>s. reaches step start h s \<and> Q r s)"

lemma moves_return: "(\<And>s. S s \<Longrightarrow> Q (Inr x) s) \<Longrightarrow> moves step start w S (go_return x) Q"
  unfolding moves_def by (rule runs_return) blast

lemma moves_panic: "(\<And>s. S s \<Longrightarrow> Q (Inl x) s) \<Longrightarrow> moves step start w S (go_panic x) Q"
  unfolding moves_def by (rule runs_panic) blast

lemma moves_lift: "(\<And>s. S s \<Longrightarrow> Q x s) \<Longrightarrow> moves step start w S (go_lift x) Q"
  unfolding moves_def by (rule runs_lift) blast

lemma moves_world: "(\<And>s. S s \<Longrightarrow> Q (Inr (f w)) s) \<Longrightarrow> moves step start w S (go_world f) Q"
  unfolding moves_def by (rule runs_world) blast

lemma moves_world_bind: "moves step start w S (m (f w)) Q \<Longrightarrow> moves step start w S (go_bind (go_world f) m) Q"
  by (simp add: moves_def runs_def go_bind_def go_world_def)

lemma moves_call_at:
  assumes "\<And>s h. S s \<Longrightarrow> \<exists>s'. step s (mk (f w h)) s' \<and> Q (Inr (f w h)) s'"
  shows "moves step start w S (call f mk) Q"
  unfolding moves_def by (rule runs_call) (use assms in \<open>blast intro: reaches.more\<close>)

lemma moves_call:
  assumes "\<And>s x. S s \<Longrightarrow> \<exists>s'. step s (mk x) s' \<and> Q (Inr x) s'"
  shows "moves step start w S (call f mk) Q"
  unfolding moves_def by (rule runs_call) (use assms in \<open>blast intro: reaches.more\<close>)

lemma moves_call_sum:
  assumes "\<And>s e. S s \<Longrightarrow> \<exists>s'. step s (mk (Inl e)) s' \<and> Q (Inr (Inl e)) s'"
    and "\<And>s x. S s \<Longrightarrow> \<exists>s'. step s (mk (Inr x)) s' \<and> Q (Inr (Inr x)) s'"
  shows "moves step start w S (call f mk) Q"
proof (rule moves_call)
  fix s x
  assume "S s"
  then show "\<exists>s'. step s (mk x) s' \<and> Q (Inr x) s'"
    using assms by (cases x) blast+
qed

lemma moves_bind:
  assumes "moves step start w S m R" and "\<And>p s. R (Inl p) s \<Longrightarrow> Q (Inl p) s" and "\<And>x. moves step start w (R (Inr x)) (f x) Q"
  shows "moves step start w S (go_bind m f) Q"
  unfolding moves_def
  by (rule runs_bind [OF assms(1) [unfolded moves_def]]) (use assms(2,3) in \<open>auto simp: moves_def\<close>)

lemma moves_check:
  assumes "moves step start w S m R" and "\<And>p s. R (Inl p) s \<Longrightarrow> Q (Inl p) s"
    and "\<And>e s. R (Inr (Inl e)) s \<Longrightarrow> Q (Inr (Inl e)) s" and "\<And>x. moves step start w (R (Inr (Inr x))) (f x) Q"
  shows "moves step start w S (go_check m f) Q"
  unfolding moves_def
  by (rule runs_check [OF assms(1) [unfolded moves_def]]) (use assms(2,3,4) in \<open>auto simp: moves_def\<close>)

lemma moves_wrap:
  assumes "moves step start w S m (\<lambda>r. Q (map_sum id (map_sum (Wrapf msg) id) r))"
  shows "moves step start w S (go_wrap msg m) Q"
  unfolding moves_def
  by (rule runs_wrap [OF assms [unfolded moves_def]]) auto

lemma moves_pre: "moves step start w S' m Q \<Longrightarrow> (\<And>s. S s \<Longrightarrow> S' s) \<Longrightarrow> moves step start w S m Q"
  unfolding moves_def by (erule runs_pre) blast

lemma moves_post: "moves step start w S m Q' \<Longrightarrow> (\<And>r s. Q' r s \<Longrightarrow> Q r s) \<Longrightarrow> moves step start w S m Q"
  unfolding moves_def by (erule runs_post) blast

text \<open>The usual shape of \<open>Q\<close>: no panic, and a stage for an error and for a value.\<close>

definition either :: "('e \<Rightarrow> 's \<Rightarrow> bool) \<Rightarrow> ('a \<Rightarrow> 's \<Rightarrow> bool) \<Rightarrow> gopanic + ('e + 'a) \<Rightarrow> 's \<Rightarrow> bool" where
  "either E V r s = (case r of Inl p \<Rightarrow> False | Inr (Inl e) \<Rightarrow> E e s | Inr (Inr x) \<Rightarrow> V x s)"

lemma either_simps [simp]:
  "either E V (Inl p) = (\<lambda>s. False)" "either E V (Inr (Inl e)) = E e" "either E V (Inr (Inr x)) = V x"
  by (simp_all add: either_def fun_eq_iff)

section \<open>The contract of a reconciler\<close>

locale controller_protocol =
  fixes step :: "'s \<Rightarrow> event \<Rightarrow> 's \<Rightarrow> bool" and start :: 's
    and run :: "(gopanic + 'r) \<times> event list"
    and outcome :: "'s \<Rightarrow> gopanic + 'r \<Rightarrow> bool"
    and evidence :: "event list \<Rightarrow> 's \<Rightarrow> bool"
  assumes follows: "\<exists>s. reaches step start (snd run) s \<and> outcome s (fst run)"
    and evidence_start: "evidence [] start"
    and evidence_more: "step s e s' \<Longrightarrow> evidence h s \<Longrightarrow> evidence (h @ [e]) s'"
begin

lemma reached_evidence: "reaches step start h s \<Longrightarrow> evidence h s"
  by (induction rule: reaches.induct) (auto intro: evidence_start evidence_more)

text \<open>How the run ends, and in which stage an event in the middle of it happens.\<close>

lemma result:
  obtains s where "evidence (snd run) s" and "outcome s (fst run)"
  using follows reached_evidence by blast

lemma event:
  assumes "snd run = xs @ e # ys"
  obtains s s' s'' where "evidence xs s" and "step s e s'" and "path step s' ys s''" and "outcome s'' (fst run)"
proof -
  obtain s'' where r: "reaches step start (xs @ e # ys) s''" and o: "outcome s'' (fst run)"
    using follows assms by auto
  obtain s where "reaches step start xs s" "path step s (e # ys) s''"
    using reaches_split [OF r] by blast
  then show thesis
    using that o by (auto dest: reached_evidence)
qed

end

end
