(* ===== verification/Task_Reconciler.thy ===== *)
theory Task_Reconciler
  imports Protocol
begin

text \<open>
  The controller of backup tasks that \<open>cmd/main.go\<close> starts: \<open>Reconcile\<close> of
  \<open>internal/controller/backuptask_controller.go\<close> and every function it calls.  A pointer that a
  callee changes is returned.  What the functions do is stated in \<open>Task_Lifecycle\<close>.
\<close>

section \<open>The functions\<close>

text \<open>\<open>ctrl.Result\<close> with its requeue time in nanoseconds; \<open>ctrl.Result{}\<close> has 0.\<close>

record ctrl_result =
  res_RequeueAfter :: int

definition zero_result :: ctrl_result where
  "zero_result = \<lparr>res_RequeueAfter = 0\<rparr>"

definition seconds :: "int \<Rightarrow> int" where
  "seconds n = n * 1000000000"

definition cronJobName :: "BackupTask \<Rightarrow> string" where
  "cronJobName backupTask = ''backup-'' @ bt_Name backupTask"

definition cron_key :: "BackupTask \<Rightarrow> key" where
  "cron_key t = \<lparr>k_Namespace = bt_Namespace t, k_Name = cronJobName t\<rparr>"

definition record_selector :: "BackupTask \<Rightarrow> labels" where
  "record_selector t = [(backupTaskLabelKey, bt_Name t)]"

definition new_cron_job :: "BackupTask \<Rightarrow> cron_job" where
  "new_cron_job t = \<lparr>cj_Meta = zero_meta\<lparr>om_Name := cronJobName t, om_Namespace := bt_Namespace t, om_Labels := task_labels t\<rparr>,
     cj_Spec = zero_cron_job_spec, cj_Status = zero_cron_job_status\<rparr>"

definition mutate_cron_job ::
  "(string \<Rightarrow> string) \<Rightarrow> (BackupTask \<Rightarrow> cron_job \<Rightarrow> goerror + cron_job) \<Rightarrow> BackupTask \<Rightarrow> cron_job \<Rightarrow> goerror + cron_job" where
  "mutate_cron_job uni set_reference t cronJob = set_reference t (cronJob\<lparr>cj_Spec := buildCronJobSpec uni t\<rparr>)"

definition createOrUpdateCronJob :: "BackupTask \<Rightarrow> (goerror + cron_job) go" where
  "createOrUpdateCronJob backupTask =
     go_bind (go_world (\<lambda>w. mutate_cron_job (w_ToUpper w) (w_SetControllerReference w) backupTask)) (\<lambda>mutate.
     client_CreateOrUpdate (new_cron_job backupTask) mutate)"

text \<open>The assignments of \<open>updateBackupTaskStatus\<close> before the conditions.\<close>

definition observed_status :: "BackupTask \<Rightarrow> cron_job \<Rightarrow> BackupTaskStatus \<Rightarrow> BackupTaskStatus" where
  "observed_status backupTask cronJob st =
     (let active = cjst_Active (cj_Status cronJob);
          st = st\<lparr>bst_ObservedGeneration := om_Generation (bt_Meta backupTask)\<rparr>;
          st = (if cjs_Suspend (cj_Spec cronJob) = Some True then st\<lparr>bst_Phase := BackupPhasePending\<rparr>
                else if length active > 0 then st\<lparr>bst_Phase := BackupPhaseRunning\<rparr>
                else if cjst_LastScheduleTime (cj_Status cronJob) \<noteq> None then st\<lparr>bst_Phase := BackupPhaseCompleted\<rparr>
                else st\<lparr>bst_Phase := BackupPhasePending\<rparr>);
          st = (case cjst_LastScheduleTime (cj_Status cronJob) of
                  Some time \<Rightarrow> st\<lparr>bst_LastScheduledTime := Some time\<rparr>
                | None \<Rightarrow> st)
      in case active of
           job # _ \<Rightarrow> st\<lparr>bst_ActiveBackupJob := Some \<lparr>or_APIVersion = ''batch/v1'', or_Kind = ''Job'',
             or_Name = or_Name job, or_Namespace = om_Namespace (cj_Meta cronJob), or_UID = []\<rparr>\<rparr>
         | [] \<Rightarrow> st\<lparr>bst_ActiveBackupJob := None\<rparr>)"

definition conditions_at :: "gotime \<Rightarrow> BackupTaskStatus \<Rightarrow> BackupTaskCondition list" where
  "conditions_at now st =
     (let scheduledCondition = \<lparr>btc_Type = BackupTaskScheduled, btc_Status = ''True'', btc_LastTransitionTime = now,
            btc_Reason = [], btc_Message = []\<rparr>;
          scheduledCondition = (if bst_LastScheduledTime st = None
            then scheduledCondition\<lparr>btc_Status := ''False'', btc_Reason := ''NotScheduled'',
              btc_Message := ''Backup task has not been scheduled yet''\<rparr>
            else scheduledCondition);
          runningCondition = \<lparr>btc_Type = BackupTaskRunning, btc_Status = ''False'', btc_LastTransitionTime = now,
            btc_Reason = [], btc_Message = []\<rparr>;
          runningCondition = (if bst_Phase st = BackupPhaseRunning
            then runningCondition\<lparr>btc_Status := ''True'', btc_Reason := ''BackupInProgress'',
              btc_Message := ''Backup is currently running''\<rparr>
            else runningCondition)
      in [scheduledCondition, runningCondition])"

definition updateConditions :: "BackupTask \<Rightarrow> BackupTask go" where
  "updateConditions backupTask = go_bind time_Now (\<lambda>now. go_return (backupTask\<lparr>bt_Status :=
     (bt_Status backupTask)\<lparr>bst_Conditions := conditions_at now (bt_Status backupTask)\<rparr>\<rparr>))"

definition updateBackupTaskStatus :: "BackupTask \<Rightarrow> cron_job \<Rightarrow> (goerror + unit) go" where
  "updateBackupTaskStatus backupTask cronJob =
     go_check (client_GetTask (key_of (bt_Meta backupTask))) (\<lambda>latestBackupTask.
     go_bind (updateConditions (latestBackupTask\<lparr>bt_Status := observed_status backupTask cronJob (bt_Status latestBackupTask)\<rparr>))
       (\<lambda>latestBackupTask.
     go_check (client_UpdateTaskStatus latestBackupTask) (\<lambda>_. go_return (Inr ()))))"

definition delete_all :: "BackupRecord list \<Rightarrow> unit go" where
  "delete_all = for_each (\<lambda>record. go_bind (client_DeleteRecord record) (\<lambda>_. go_return ()))"

definition applyRetentionPolicy :: "BackupTask \<Rightarrow> (goerror + BackupTask) go" where
  "applyRetentionPolicy backupTask =
     (case bts_Retention (bt_Spec backupTask) of
        None \<Rightarrow> go_return (Inr backupTask)
      | Some retention \<Rightarrow>
          go_check (go_wrap ''failed to list BackupRecords''
            (client_ListRecords (bt_Namespace backupTask) (record_selector backupTask))) (\<lambda>items.
          go_bind time_Now (\<lambda>now.
          go_bind (go_lift (filterRecordsToDelete now items retention)) (\<lambda>recordsToDelete.
          go_bind (delete_all recordsToDelete) (\<lambda>_.
          go_return (Inr (backupTask\<lparr>bt_Status := (bt_Status backupTask)
            \<lparr>bst_BackupHistoryCount := history_count items recordsToDelete\<rparr>\<rparr>)))))))"

definition calculateNextSchedule :: "BackupTask \<Rightarrow> cron_job \<Rightarrow> int" where
  "calculateNextSchedule backupTask cronJob = seconds 300"

definition reconcileBackupTask :: "BackupTask \<Rightarrow> (goerror + ctrl_result) go" where
  "reconcileBackupTask backupTask =
     go_check (go_wrap ''failed to create/update CronJob'' (createOrUpdateCronJob backupTask)) (\<lambda>cronJob.
     go_check (go_wrap ''failed to update status'' (updateBackupTaskStatus backupTask cronJob)) (\<lambda>_.
     if length (cjst_Active (cj_Status cronJob)) > 0
     then go_return (Inr \<lparr>res_RequeueAfter = seconds 30\<rparr>)
     else
       go_bind (applyRetentionPolicy backupTask) (\<lambda>r.
       let backupTask = (case r of Inl err \<Rightarrow> backupTask | Inr t \<Rightarrow> t);
           requeueAfter = calculateNextSchedule backupTask cronJob
       in if requeueAfter > 0 then go_return (Inr \<lparr>res_RequeueAfter = requeueAfter\<rparr>)
          else go_return (Inr \<lparr>res_RequeueAfter = seconds 300\<rparr>))))"

definition finalizeBackupTask :: "BackupTask \<Rightarrow> (goerror + unit) go" where
  "finalizeBackupTask backupTask =
     go_bind (client_DeleteCronJob (cron_key backupTask)) (\<lambda>r.
     let continue = go_check (go_wrap ''failed to list BackupRecords''
           (client_ListRecords (bt_Namespace backupTask) (record_selector backupTask))) (\<lambda>items.
           go_bind (delete_all items) (\<lambda>_. go_return (Inr ())))
     in case r of
          Inl err \<Rightarrow> if \<not> IsNotFound err then go_return (Inl (Wrapf ''failed to delete CronJob'' err)) else continue
        | Inr _ \<Rightarrow> continue)"

definition deleting :: "BackupTask \<Rightarrow> bool" where
  "deleting t \<longleftrightarrow> \<not> IsZero (om_DeletionTimestamp (bt_Meta t))"

definition has_finalizer :: "world \<Rightarrow> BackupTask \<Rightarrow> bool" where
  "has_finalizer w t \<longleftrightarrow> w_ContainsFinalizer w t backupTaskFinalizer"

definition with_finalizer :: "world \<Rightarrow> BackupTask \<Rightarrow> BackupTask" where
  "with_finalizer w t = w_AddFinalizer w t backupTaskFinalizer"

definition without_finalizer :: "world \<Rightarrow> BackupTask \<Rightarrow> BackupTask" where
  "without_finalizer w t = w_RemoveFinalizer w t backupTaskFinalizer"

text \<open>The three parts of \<open>Reconcile\<close> after the task has been read.\<close>

definition reconcile_deleted :: "BackupTask \<Rightarrow> (goerror + ctrl_result) go" where
  "reconcile_deleted backupTask =
     go_bind (go_world (\<lambda>w. has_finalizer w backupTask)) (\<lambda>contains.
     if contains then
       go_check (finalizeBackupTask backupTask) (\<lambda>_.
       go_bind (go_world (\<lambda>w. without_finalizer w backupTask)) (\<lambda>backupTask.
       go_check (client_UpdateTask backupTask) (\<lambda>_.
       go_return (Inr zero_result))))
     else go_return (Inr zero_result))"

definition ensure_finalizer :: "BackupTask \<Rightarrow> (goerror + BackupTask) go" where
  "ensure_finalizer backupTask =
     go_bind (go_world (\<lambda>w. has_finalizer w backupTask)) (\<lambda>contains.
     if \<not> contains then
       go_bind (go_world (\<lambda>w. with_finalizer w backupTask)) (\<lambda>backupTask. client_UpdateTask backupTask)
     else go_return (Inr backupTask))"

definition ensure_config_map :: "BackupTask \<Rightarrow> (goerror + unit) go" where
  "ensure_config_map backupTask =
     go_check (go_return (createTargetConfigMap backupTask)) (\<lambda>configMap.
     go_bind (client_CreateConfigMap configMap) (\<lambda>r.
     case r of
       Inl err \<Rightarrow>
         if \<not> IsAlreadyExists err then go_return (Inl err)
         else go_check (client_UpdateConfigMap configMap) (\<lambda>_. go_return (Inr ()))
     | Inr _ \<Rightarrow> go_return (Inr ())))"

definition Reconcile :: "key \<Rightarrow> (goerror + ctrl_result) go" where
  "Reconcile req =
     go_bind (client_GetTask req) (\<lambda>r.
     case r of
       Inl err \<Rightarrow> if IsNotFound err then go_return (Inr zero_result) else go_return (Inl err)
     | Inr backupTask \<Rightarrow>
         if deleting backupTask then reconcile_deleted backupTask
         else
           go_check (ensure_finalizer backupTask) (\<lambda>backupTask.
           go_check (ensure_config_map backupTask) (\<lambda>_.
           go_bind (reconcileBackupTask backupTask) (\<lambda>result.
           case result of
             Inl err \<Rightarrow> go_bind (recorder_Eventf backupTask ''Warning'' ''ReconcileFailed''
                 ''Failed to reconcile BackupTask: %v'' err) (\<lambda>_. go_return result)
           | Inr _ \<Rightarrow> go_return result))))"

end
