(* ===== verification/Task_Protocol.thy ===== *)
theory Task_Protocol
  imports Task_Reconciler
begin

text \<open>
  The protocol of a controller of backup tasks against the cluster, as a transition system on stages
  (\<open>lifecycle\<close>).  The repository has two such controllers, which differ in what they store before the
  cron job and in how they build it; \<open>Reconcile_with\<close> is what they have in common.  The locale
  \<open>task_protocol\<close> is the contract between this common part and the two functions it is completed with:
  if these follow a protocol that agrees with \<open>lifecycle\<close> on all other stages, so does the
  whole.  There is one lemma (\<open>moves\<close>) per function.
\<close>

section \<open>The protocol\<close>

text \<open>
  A stage says what the controller knows and what it may do next.  \<open>Claiming\<close> and \<open>Claimed\<close>: the
  task lives, without and with the finalizer.  \<open>Colliding\<close>: its config map exists already.
  \<open>Configured\<close>, \<open>Scheduled\<close>: the config map and then the cron job are stored.  \<open>Observed\<close>,
  \<open>Judged\<close>, \<open>Reported\<close>: the latest task is read, its new status computed, and stored.  \<open>Listed\<close>,
  \<open>Pruning\<close>: the records are read and the superfluous ones deleted.  \<open>Cleaning\<close>,
  \<open>Unscheduled\<close>, \<open>Purging\<close>: the task is being deleted, its cron job is gone, its records go.
  \<open>Broken\<close>: an error is to be reported as an event.  \<open>Finished\<close>, \<open>Crashed\<close>: the end.
\<close>

datatype stage =
    Start
  | Claiming BackupTask
  | Claimed BackupTask
  | Colliding BackupTask config_map
  | Configured BackupTask
  | Scheduled BackupTask cron_job
  | Observed BackupTask cron_job BackupTask
  | Judged BackupTask cron_job BackupTask
  | Reported BackupTask cron_job
  | Listed RetentionPolicy "BackupRecord list"
  | Pruning "BackupRecord list"
  | Cleaning BackupTask
  | Unscheduled BackupTask
  | Purging BackupTask "BackupRecord list"
  | Broken BackupTask goerror
  | Finished "goerror + ctrl_result"
  | Crashed gopanic

definition five_minutes :: ctrl_result where
  "five_minutes = \<lparr>res_RequeueAfter = 300 * 1000000000\<rparr>"

definition half_a_minute :: ctrl_result where
  "half_a_minute = \<lparr>res_RequeueAfter = 30 * 1000000000\<rparr>"

definition reported_status :: "BackupTask \<Rightarrow> cron_job \<Rightarrow> gotime \<Rightarrow> BackupTaskStatus \<Rightarrow> BackupTaskStatus" where
  "reported_status t c now st = (let st' = observed_status t c st in st'\<lparr>bst_Conditions := conditions_at now st'\<rparr>)"

text \<open>\<open>c\<close> is an answer of \<open>CreateOrUpdate\<close> for the mutation that builds the cron job of \<open>t\<close>.\<close>

definition written_cron_job :: "world \<Rightarrow> BackupTask \<Rightarrow> cron_job \<Rightarrow> bool" where
  "written_cron_job w t c \<longleftrightarrow> (\<exists>h. w_CreateOrUpdate w h (new_cron_job t)
     (mutate_cron_job (w_ToUpper w) (w_SetControllerReference w) t) = Inr c)"

definition refused_cron_job :: "world \<Rightarrow> BackupTask \<Rightarrow> goerror \<Rightarrow> bool" where
  "refused_cron_job w t e \<longleftrightarrow> (\<exists>h. w_CreateOrUpdate w h (new_cron_job t)
     (mutate_cron_job (w_ToUpper w) (w_SetControllerReference w) t) = Inl e)"

inductive lifecycle :: "world \<Rightarrow> key \<Rightarrow> stage \<Rightarrow> event \<Rightarrow> stage \<Rightarrow> bool" for w k where
  absent: "lifecycle w k Start (GetTask k (Inl e)) (Finished (if IsNotFound e then Inr zero_result else Inl e))"
| released: "deleting t \<Longrightarrow> \<not> has_finalizer w t \<Longrightarrow> lifecycle w k Start (GetTask k (Inr t)) (Finished (Inr zero_result))"
| clean: "deleting t \<Longrightarrow> has_finalizer w t \<Longrightarrow> lifecycle w k Start (GetTask k (Inr t)) (Cleaning t)"
| unclaimed: "\<not> deleting t \<Longrightarrow> \<not> has_finalizer w t \<Longrightarrow> lifecycle w k Start (GetTask k (Inr t)) (Claiming t)"
| claimed: "\<not> deleting t \<Longrightarrow> has_finalizer w t \<Longrightarrow> lifecycle w k Start (GetTask k (Inr t)) (Claimed t)"
| claim: "lifecycle w k (Claiming t) (UpdateTask (with_finalizer w t) (Inr t')) (Claimed t')"
| claim_failed: "lifecycle w k (Claiming t) (UpdateTask (with_finalizer w t) (Inl e)) (Finished (Inl e))"
| configure: "createTargetConfigMap t = Inr m \<Longrightarrow>
    lifecycle w k (Claimed t) (CreateConfigMap m (Inr m')) (Configured t)"
| config_exists: "createTargetConfigMap t = Inr m \<Longrightarrow> IsAlreadyExists e \<Longrightarrow>
    lifecycle w k (Claimed t) (CreateConfigMap m (Inl e)) (Colliding t m)"
| config_failed: "createTargetConfigMap t = Inr m \<Longrightarrow> \<not> IsAlreadyExists e \<Longrightarrow>
    lifecycle w k (Claimed t) (CreateConfigMap m (Inl e)) (Finished (Inl e))"
| reconfigure: "lifecycle w k (Colliding t m) (UpdateConfigMap m (Inr m')) (Configured t)"
| reconfigure_failed: "lifecycle w k (Colliding t m) (UpdateConfigMap m (Inl e)) (Finished (Inl e))"
| schedule: "written_cron_job w t c \<Longrightarrow> lifecycle w k (Configured t) (CreateOrUpdateCronJob (new_cron_job t) (Inr c)) (Scheduled t c)"
| schedule_failed: "refused_cron_job w t e \<Longrightarrow> lifecycle w k (Configured t) (CreateOrUpdateCronJob (new_cron_job t) (Inl e))
    (Broken t (Wrapf ''failed to create/update CronJob'' e))"
| observe: "lifecycle w k (Scheduled t c) (GetTask (key_of (bt_Meta t)) (Inr l)) (Observed t c l)"
| observe_failed: "lifecycle w k (Scheduled t c) (GetTask (key_of (bt_Meta t)) (Inl e))
    (Broken t (Wrapf ''failed to update status'' e))"
| judge: "lifecycle w k (Observed t c l) (Now n) (Judged t c (l\<lparr>bt_Status := reported_status t c n (bt_Status l)\<rparr>))"
| report: "lifecycle w k (Judged t c l) (UpdateTaskStatus l (Inr l')) (Reported t c)"
| report_failed: "lifecycle w k (Judged t c l) (UpdateTaskStatus l (Inl e)) (Broken t (Wrapf ''failed to update status'' e))"
| review: "cjst_Active (cj_Status c) = [] \<Longrightarrow> bts_Retention (bt_Spec t) = Some p \<Longrightarrow>
    lifecycle w k (Reported t c) (ListRecords (bt_Namespace t) (record_selector t) (Inr rs)) (Listed p rs)"
| review_failed: "cjst_Active (cj_Status c) = [] \<Longrightarrow> bts_Retention (bt_Spec t) = Some p \<Longrightarrow>
    lifecycle w k (Reported t c) (ListRecords (bt_Namespace t) (record_selector t) (Inl e)) (Finished (Inr five_minutes))"
| select: "lifecycle w k (Listed p rs) (Now n)
    (case filterRecordsToDelete n rs p of Inl x \<Rightarrow> Crashed x | Inr ds \<Rightarrow> Pruning ds)"
| prune: "lifecycle w k (Pruning (d # ds)) (DeleteRecord d a) (Pruning ds)"
| unschedule: "(case a of Inr _ \<Rightarrow> True | Inl e \<Rightarrow> IsNotFound e) \<Longrightarrow>
    lifecycle w k (Cleaning t) (DeleteCronJob (cron_key t) a) (Unscheduled t)"
| unschedule_failed: "\<not> IsNotFound e \<Longrightarrow>
    lifecycle w k (Cleaning t) (DeleteCronJob (cron_key t) (Inl e)) (Finished (Inl (Wrapf ''failed to delete CronJob'' e)))"
| survey: "lifecycle w k (Unscheduled t) (ListRecords (bt_Namespace t) (record_selector t) (Inr rs)) (Purging t rs)"
| survey_failed: "lifecycle w k (Unscheduled t) (ListRecords (bt_Namespace t) (record_selector t) (Inl e))
    (Finished (Inl (Wrapf ''failed to list BackupRecords'' e)))"
| purge: "lifecycle w k (Purging t (r # rs)) (DeleteRecord r a) (Purging t rs)"
| release: "lifecycle w k (Purging t []) (UpdateTask (without_finalizer w t) (Inr t')) (Finished (Inr zero_result))"
| release_failed: "lifecycle w k (Purging t []) (UpdateTask (without_finalizer w t) (Inl e)) (Finished (Inl e))"
| complain: "w_Recorder w \<Longrightarrow>
    lifecycle w k (Broken t e) (RecordEvent t ''Warning'' ''ReconcileFailed'' ''Failed to reconcile BackupTask: %v'' e) (Finished (Inl e))"

text \<open>The results a stage allows \<open>Reconcile\<close> to end with.\<close>

inductive outcome :: "world \<Rightarrow> stage \<Rightarrow> gopanic + (goerror + ctrl_result) \<Rightarrow> bool" for w where
  finished: "outcome w (Finished r) (Inr r)"
| crashed: "outcome w (Crashed p) (Inl p)"
| pruned: "outcome w (Pruning []) (Inr (Inr five_minutes))"
| active: "cjst_Active (cj_Status c) \<noteq> [] \<Longrightarrow> outcome w (Reported t c) (Inr (Inr half_a_minute))"
| unlimited: "cjst_Active (cj_Status c) = [] \<Longrightarrow> bts_Retention (bt_Spec t) = None \<Longrightarrow>
    outcome w (Reported t c) (Inr (Inr five_minutes))"
| no_recorder: "\<not> w_Recorder w \<Longrightarrow> outcome w (Broken t e) (Inl NilDereference)"

section \<open>What the two reconcilers have in common\<close>

definition reconcile_with :: "(BackupTask \<Rightarrow> (goerror + cron_job) go) \<Rightarrow> BackupTask \<Rightarrow> (goerror + ctrl_result) go" where
  "reconcile_with create backupTask =
     go_check (go_wrap ''failed to create/update CronJob'' (create backupTask)) (\<lambda>cronJob.
     go_check (go_wrap ''failed to update status'' (updateBackupTaskStatus backupTask cronJob)) (\<lambda>_.
     if length (cjst_Active (cj_Status cronJob)) > 0
     then go_return (Inr \<lparr>res_RequeueAfter = seconds 30\<rparr>)
     else
       go_bind (applyRetentionPolicy backupTask) (\<lambda>r.
       let backupTask = (case r of Inl err \<Rightarrow> backupTask | Inr t \<Rightarrow> t);
           requeueAfter = calculateNextSchedule backupTask cronJob
       in if requeueAfter > 0 then go_return (Inr \<lparr>res_RequeueAfter = requeueAfter\<rparr>)
          else go_return (Inr \<lparr>res_RequeueAfter = seconds 300\<rparr>))))"

definition Reconcile_with ::
  "(BackupTask \<Rightarrow> (goerror + unit) go) \<Rightarrow> (BackupTask \<Rightarrow> (goerror + cron_job) go) \<Rightarrow> key \<Rightarrow> (goerror + ctrl_result) go" where
  "Reconcile_with prepare create req =
     go_bind (client_GetTask req) (\<lambda>r.
     case r of
       Inl err \<Rightarrow> if IsNotFound err then go_return (Inr zero_result) else go_return (Inl err)
     | Inr backupTask \<Rightarrow>
         if deleting backupTask then reconcile_deleted backupTask
         else
           go_check (ensure_finalizer backupTask) (\<lambda>backupTask.
           go_check (prepare backupTask) (\<lambda>_.
           go_bind (reconcile_with create backupTask) (\<lambda>result.
           case result of
             Inl err \<Rightarrow> go_bind (recorder_Eventf backupTask ''Warning'' ''ReconcileFailed''
                 ''Failed to reconcile BackupTask: %v'' err) (\<lambda>_. go_return result)
           | Inr _ \<Rightarrow> go_return result))))"

text \<open>The stages in which the two differ.\<close>

fun shared_stage :: "stage \<Rightarrow> bool" where
  "shared_stage (Claimed t) = False"
| "shared_stage (Colliding t m) = False"
| "shared_stage (Configured t) = False"
| "shared_stage s = True"

text \<open>The result of a function that may also panic, which is then the result \<open>F\<close> of the run.\<close>

definition ends :: "(stage \<Rightarrow> gopanic + (goerror + ctrl_result) \<Rightarrow> bool) \<Rightarrow> ('e \<Rightarrow> stage \<Rightarrow> bool) \<Rightarrow> ('a \<Rightarrow> stage \<Rightarrow> bool) \<Rightarrow> gopanic + ('e + 'a) \<Rightarrow> stage \<Rightarrow> bool" where
  "ends F E V r s = (case r of Inl p \<Rightarrow> F s (Inl p) | Inr (Inl e) \<Rightarrow> E e s | Inr (Inr x) \<Rightarrow> V x s)"

lemma ends_simps [simp]:
  "ends F E V (Inl p) = (\<lambda>s. F s (Inl p))" "ends F E V (Inr (Inl e)) = E e" "ends F E V (Inr (Inr x)) = V x"
  by (simp_all add: ends_def fun_eq_iff)

definition reviewed :: "world \<Rightarrow> stage \<Rightarrow> bool" where
  "reviewed w s \<longleftrightarrow> outcome w s (Inr (Inr five_minutes))"

lemma reviewed_intros: "reviewed w (Pruning [])" "reviewed w (Finished (Inr five_minutes))"
  "cjst_Active (cj_Status c) = [] \<Longrightarrow> bts_Retention (bt_Spec t) = None \<Longrightarrow> reviewed w (Reported t c)"
  by (simp_all add: reviewed_def outcome.intros)

lemma go_check_return: "go_check (go_return (Inr x)) f = f x"
  by (simp add: fun_eq_iff go_check_def go_bind_def go_return_def)

section \<open>The common part follows the protocol\<close>

locale task_protocol =
  fixes step :: "stage \<Rightarrow> event \<Rightarrow> stage \<Rightarrow> bool" and w :: world and k :: key
    and final :: "stage \<Rightarrow> gopanic + (goerror + ctrl_result) \<Rightarrow> bool"
    and ready :: "BackupTask \<Rightarrow> stage"
    and prepare :: "BackupTask \<Rightarrow> (goerror + unit) go"
    and create :: "BackupTask \<Rightarrow> (goerror + cron_job) go"
  assumes shared: "lifecycle w k s e s' \<Longrightarrow> shared_stage s \<Longrightarrow> step s e s'"
    and final: "outcome w s r \<Longrightarrow> final s r"
    and prepare: "moves step Start w (\<lambda>s. s = Claimed t) (prepare t) (either (\<lambda>e s. s = Finished (Inl e)) (\<lambda>_ s. s = ready t))"
    and create: "moves step Start w (\<lambda>s. s = ready t) (go_wrap ''failed to create/update CronJob'' (create t))
      (ends final (\<lambda>e s. s = Broken t e) (\<lambda>c s. s = Scheduled t c))"
begin

lemmas step_intros = lifecycle.intros [THEN shared]
lemmas final_intros = outcome.intros [THEN final]

lemmas step_absent = shared [OF lifecycle.absent, simplified]
lemmas step_survey = shared [OF lifecycle.survey, simplified]
lemmas step_survey_failed = shared [OF lifecycle.survey_failed, simplified]
lemmas step_review = shared [OF lifecycle.review, simplified]
lemmas step_review_failed = shared [OF lifecycle.review_failed, simplified]
lemmas step_select = shared [OF lifecycle.select, simplified]
lemmas step_prune = shared [OF lifecycle.prune, simplified]
lemmas step_purge = shared [OF lifecycle.purge, simplified]
lemmas step_judge = shared [OF lifecycle.judge, simplified, unfolded reported_status_def Let_def]
lemmas step_complain = shared [OF lifecycle.complain, simplified]

lemma moves_delete_all:
  assumes "\<And>d ds a. step (F (d # ds)) (DeleteRecord d a) (F ds)"
  shows "moves step Start w (\<lambda>s. s = F ds) (delete_all ds) (\<lambda>r s. r = Inr () \<and> s = F [])"
proof (induction ds)
  case Nil
  then show ?case by (simp add: delete_all_def moves_return)
next
  case (Cons d ds)
  have "moves step Start w (\<lambda>s. s = F (d # ds)) (go_bind (client_DeleteRecord d) (\<lambda>_. go_return ()))
      (\<lambda>r s. r = Inr () \<and> s = F ds)"
    unfolding client_defs
    by (rule moves_bind [where R = "\<lambda>r s. (\<exists>a. r = Inr a) \<and> s = F ds"])
      (use assms in \<open>auto intro!: moves_call moves_return\<close>)
  from moves_bind [OF this] Cons show ?case
    by (simp add: delete_all_def)
qed

lemma moves_updateConditions:
  "moves step Start w (\<lambda>s. s = Observed t c l) (updateConditions (l\<lparr>bt_Status := observed_status t c (bt_Status l)\<rparr>))
     (\<lambda>r s. \<exists>l'. r = Inr l' \<and> s = Judged t c l')"
  unfolding updateConditions_def client_defs
  by (rule moves_bind [where R = "\<lambda>r s. \<exists>n. r = Inr n \<and> s = Judged t c (l\<lparr>bt_Status := reported_status t c n (bt_Status l)\<rparr>)"])
    (auto intro!: moves_call moves_return step_judge simp: reported_status_def Let_def)

lemma moves_updateBackupTaskStatus:
  "moves step Start w (\<lambda>s. s = Scheduled t c) (go_wrap ''failed to update status'' (updateBackupTaskStatus t c))
     (either (\<lambda>e s. s = Broken t e) (\<lambda>_ s. s = Reported t c))"
proof (rule moves_wrap)
  let ?Q = "\<lambda>r. either (\<lambda>e s. s = Broken t e) (\<lambda>_ s. s = Reported t c) (map_sum id (map_sum (Wrapf ''failed to update status'') id) r)"
  have get: "moves step Start w (\<lambda>s. s = Scheduled t c) (client_GetTask (key_of (bt_Meta t)))
      (either (\<lambda>e s. s = Broken t (Wrapf ''failed to update status'' e)) (\<lambda>l s. s = Observed t c l))"
    unfolding client_defs
    by (rule moves_call_sum) (auto intro: step_intros)
  have put: "moves step Start w (\<lambda>s. s = Judged t c l) (client_UpdateTaskStatus l)
      (either (\<lambda>e s. s = Broken t (Wrapf ''failed to update status'' e)) (\<lambda>_ s. s = Reported t c))" for l
    unfolding client_defs
    by (rule moves_call_sum) (auto intro: step_intros)
  have rest: "moves step Start w (\<lambda>s. \<exists>l'. Inr l = Inr l' \<and> s = Judged t c l')
      (go_check (client_UpdateTaskStatus l) (\<lambda>_. go_return (Inr ()))) ?Q" for l :: BackupTask
    by (rule moves_check [OF moves_pre [OF put]]) (auto intro: moves_return)
  show "moves step Start w (\<lambda>s. s = Scheduled t c) (updateBackupTaskStatus t c) ?Q"
    unfolding updateBackupTaskStatus_def
    by (rule moves_check [OF get]) (auto intro!: moves_bind [OF moves_updateConditions] rest [simplified])
qed

lemma moves_list:
  assumes "\<And>e. step S (ListRecords (bt_Namespace t) (record_selector t) (Inl e)) (E e)"
    and "\<And>rs. step S (ListRecords (bt_Namespace t) (record_selector t) (Inr rs)) (V rs)"
  shows "moves step Start w (\<lambda>s. s = S) (go_wrap msg (client_ListRecords (bt_Namespace t) (record_selector t)))
     (either (\<lambda>e s. \<exists>e'. e = Wrapf msg e' \<and> s = E e') (\<lambda>rs s. s = V rs))"
  unfolding client_defs
  by (rule moves_wrap, rule moves_call_sum) (use assms in auto)

lemma moves_finalizeBackupTask:
  "moves step Start w (\<lambda>s. s = Cleaning t) (finalizeBackupTask t)
     (either (\<lambda>e s. s = Finished (Inl e)) (\<lambda>_ s. s = Purging t []))"
proof -
  have del: "moves step Start w (\<lambda>s. s = Cleaning t) (client_DeleteCronJob (cron_key t))
      (either (\<lambda>e s. s = (if IsNotFound e then Unscheduled t else Finished (Inl (Wrapf ''failed to delete CronJob'' e))))
        (\<lambda>_ s. s = Unscheduled t))"
    unfolding client_defs
    by (rule moves_call_sum) (auto intro!: step_intros)
  have list: "moves step Start w (\<lambda>s. s = Unscheduled t) (go_check (go_wrap ''failed to list BackupRecords''
        (client_ListRecords (bt_Namespace t) (record_selector t))) (\<lambda>items.
        go_bind (delete_all items) (\<lambda>_. go_return (Inr ()))))
      (either (\<lambda>e s. s = Finished (Inl e)) (\<lambda>_ s. s = Purging t []))"
    by (rule moves_check [OF moves_list [OF step_survey_failed step_survey]])
      (auto intro!: moves_return moves_bind [OF moves_delete_all] step_purge)
  show ?thesis
    unfolding finalizeBackupTask_def Let_def
    by (rule moves_bind [OF del]) (auto split: sum.split intro!: moves_return list moves_pre [OF list])
qed

lemma moves_applyRetentionPolicy:
  assumes "cjst_Active (cj_Status c) = []"
  shows "moves step Start w (\<lambda>s. s = Reported t c) (applyRetentionPolicy t)
    (ends final (\<lambda>_. reviewed w) (\<lambda>_. reviewed w))"
    (is "moves step Start w ?S _ ?Q")
proof (cases "bts_Retention (bt_Spec t)")
  case None
  then show ?thesis
    using assms by (auto simp: applyRetentionPolicy_def intro!: moves_return reviewed_intros)
next
  case (Some p)
  have del: "moves step Start w (\<lambda>s. s = Pruning ds) (go_bind (delete_all ds) (\<lambda>_. go_return (Inr t'))) ?Q"
    for ds and t' :: BackupTask
    by (rule moves_bind [OF moves_delete_all]) (auto intro!: moves_return step_prune reviewed_intros)
  have sel: "moves step Start w (\<lambda>s. s = Listed p rs)
      (go_bind time_Now (\<lambda>now. go_bind (go_lift (filterRecordsToDelete now rs p)) (\<lambda>ds.
        go_bind (delete_all ds) (\<lambda>_. go_return (Inr (f ds)))))) ?Q" for rs and f :: "BackupRecord list \<Rightarrow> BackupTask"
    unfolding client_defs
  proof (rule moves_bind [where R = "\<lambda>r s. \<exists>n. r = Inr n \<and> s = (case filterRecordsToDelete n rs p of Inl x \<Rightarrow> Crashed x | Inr ds \<Rightarrow> Pruning ds)"], goal_cases)
    case 1
    show ?case by (rule moves_call) (use step_select in blast)
  next
    case (3 n)
    show ?case
      by (rule moves_bind [where R = "\<lambda>r s. case r of Inl x \<Rightarrow> s = Crashed x | Inr ds \<Rightarrow> s = Pruning ds"])
        (auto intro!: moves_lift del final_intros split: sum.splits)
  qed auto
  have review: "step (Reported t c) (ListRecords (bt_Namespace t) (record_selector t) (Inr rs)) (Listed p rs)"
    "step (Reported t c) (ListRecords (bt_Namespace t) (record_selector t) (Inl e)) (Finished (Inr five_minutes))" for rs e
    using assms Some by (auto intro: step_review step_review_failed)
  show ?thesis
    unfolding applyRetentionPolicy_def Some option.case
    by (rule moves_check [OF moves_list [OF review(2,1)]]) (auto intro: reviewed_intros sel)
qed

lemma moves_reconcile_with:
  "moves step Start w (\<lambda>s. s = ready t) (reconcile_with create t)
     (ends final (\<lambda>e s. s = Broken t e) (\<lambda>x s. final s (Inr (Inr x))))"
    (is "moves step Start w _ _ ?Q")
proof -
  have rest: "moves step Start w (\<lambda>s. s = Reported t c)
      (if length (cjst_Active (cj_Status c)) > 0 then go_return (Inr \<lparr>res_RequeueAfter = seconds 30\<rparr>)
       else go_bind (applyRetentionPolicy t) (\<lambda>r.
         let backupTask = (case r of Inl err \<Rightarrow> t | Inr t \<Rightarrow> t); requeueAfter = calculateNextSchedule backupTask c
         in if requeueAfter > 0 then go_return (Inr \<lparr>res_RequeueAfter = requeueAfter\<rparr>)
            else go_return (Inr \<lparr>res_RequeueAfter = seconds 300\<rparr>))) ?Q" for c
  proof (cases "cjst_Active (cj_Status c) = []")
    case True
    have "moves step Start w (ends final (\<lambda>_. reviewed w) (\<lambda>_. reviewed w) (Inr r)) (go_return (Inr five_minutes)) ?Q"
      for r :: "goerror + BackupTask"
      by (cases r) (auto simp: reviewed_def intro!: moves_return final)
    then have "moves step Start w (\<lambda>s. s = Reported t c) (go_bind (applyRetentionPolicy t) (\<lambda>r. go_return (Inr five_minutes))) ?Q"
      by (intro moves_bind [OF moves_applyRetentionPolicy [OF True]]) simp_all
    with True show ?thesis
      by (simp add: calculateNextSchedule_def seconds_def five_minutes_def)
  next
    case False
    then show ?thesis
      using final [OF outcome.active [OF False, of w t]]
      by (auto simp: seconds_def half_a_minute_def intro!: moves_return)
  qed
  show ?thesis
    unfolding reconcile_with_def
  proof (rule moves_check [OF create], goal_cases)
    case (3 c)
    show ?case
      unfolding ends_simps
      by (rule moves_check [OF moves_updateBackupTaskStatus], simp, simp) (simp only: either_simps, rule rest)
  qed simp_all
qed

lemma moves_reconcile_deleted:
  assumes "has_finalizer w t"
  shows "moves step Start w (\<lambda>s. s = Cleaning t) (reconcile_deleted t) (\<lambda>r s. final s r)"
proof -
  have put: "moves step Start w (\<lambda>s. s = Purging t []) (client_UpdateTask (without_finalizer w t))
      (either (\<lambda>e s. s = Finished (Inl e)) (\<lambda>_ s. s = Finished (Inr zero_result)))"
    unfolding client_defs
    by (rule moves_call_sum) (auto intro: step_intros)
  have release: "moves step Start w (\<lambda>s. s = Purging t []) (go_bind (go_world (\<lambda>w. without_finalizer w t)) (\<lambda>t.
      go_check (client_UpdateTask t) (\<lambda>_. go_return (Inr zero_result)))) (\<lambda>r s. final s r)"
    by (rule moves_world_bind) (auto intro!: moves_check [OF put] moves_return final_intros)
  show ?thesis
    unfolding reconcile_deleted_def
    by (rule moves_world_bind) (use assms in \<open>auto intro!: moves_check [OF moves_finalizeBackupTask] final_intros release\<close>)
qed

lemma moves_ensure_finalizer:
  "moves step Start w (\<lambda>s. s = (if has_finalizer w t then Claimed t else Claiming t)) (ensure_finalizer t)
     (either (\<lambda>e s. s = Finished (Inl e)) (\<lambda>t' s. s = Claimed t'))"
proof -
  have put: "moves step Start w (\<lambda>s. s = Claiming t) (client_UpdateTask (with_finalizer w t))
      (either (\<lambda>e s. s = Finished (Inl e)) (\<lambda>t' s. s = Claimed t'))"
    unfolding client_defs
    by (rule moves_call_sum) (auto intro: step_intros)
  show ?thesis
    unfolding ensure_finalizer_def
    by (rule moves_world_bind, cases "has_finalizer w t") (simp_all add: moves_return moves_world_bind put)
qed

lemma moves_Reconcile_with: "moves step Start w (\<lambda>s. s = Start) (Reconcile_with prepare create k) (\<lambda>r s. final s r)"
proof -
  have get: "moves step Start w (\<lambda>s. s = Start) (client_GetTask k)
      (either (\<lambda>e s. s = Finished (if IsNotFound e then Inr zero_result else Inl e))
        (\<lambda>t s. s = (if deleting t then if has_finalizer w t then Cleaning t else Finished (Inr zero_result)
                   else if has_finalizer w t then Claimed t else Claiming t)))"
    unfolding client_defs
  proof (rule moves_call_sum, goal_cases)
    case (1 s e)
    then show ?case using step_absent [of e] by auto
  qed (auto intro: step_intros)
  have dead: "moves step Start w (\<lambda>s. s = (if has_finalizer w t then Cleaning t else Finished (Inr zero_result)))
      (reconcile_deleted t) (\<lambda>r s. final s r)" for t
  proof (cases "has_finalizer w t")
    case True
    then show ?thesis by (simp add: moves_reconcile_deleted)
  next
    case False
    then show ?thesis
      unfolding reconcile_deleted_def by (intro moves_world_bind) (auto intro!: moves_return final_intros)
  qed
  have event: "moves step Start w (\<lambda>s. s = Broken t e) (recorder_Eventf t ''Warning'' ''ReconcileFailed''
      ''Failed to reconcile BackupTask: %v'' e)
      (\<lambda>r s. case r of Inl p \<Rightarrow> final s (Inl p) | Inr _ \<Rightarrow> s = Finished (Inl e))" for t e
    unfolding recorder_Eventf_def
    by (rule moves_world_bind, cases "w_Recorder w")
      (auto intro!: moves_call moves_panic final_intros intro: step_complain)
  have work: "moves step Start w (\<lambda>s. s = ready t) (go_bind (reconcile_with create t) (\<lambda>result. case result of
      Inl err \<Rightarrow> go_bind (recorder_Eventf t ''Warning'' ''ReconcileFailed'' ''Failed to reconcile BackupTask: %v'' err) (\<lambda>_. go_return result)
    | Inr _ \<Rightarrow> go_return result)) (\<lambda>r s. final s r)" for t
  proof (rule moves_bind [OF moves_reconcile_with], goal_cases)
    case (2 result)
    show ?case
      by (cases result) (auto intro!: moves_return moves_bind [OF event] final_intros)
  qed (auto intro: final_intros)
  have live: "moves step Start w (\<lambda>s. s = (if has_finalizer w t then Claimed t else Claiming t))
      (go_check (ensure_finalizer t) (\<lambda>t. go_check (prepare t) (\<lambda>_.
       go_bind (reconcile_with create t) (\<lambda>result. case result of
         Inl err \<Rightarrow> go_bind (recorder_Eventf t ''Warning'' ''ReconcileFailed'' ''Failed to reconcile BackupTask: %v'' err) (\<lambda>_. go_return result)
       | Inr _ \<Rightarrow> go_return result)))) (\<lambda>r s. final s r)" for t
  proof (rule moves_check [OF moves_ensure_finalizer], goal_cases)
    case (3 t)
    show ?case
      unfolding either_simps
      by (rule moves_check [OF prepare]) (simp_all add: final_intros work)
  qed (simp_all add: final_intros)
  show ?thesis
    unfolding Reconcile_with_def
  proof (rule moves_bind [OF get], goal_cases)
    case (2 r)
    show ?case
    proof (cases r)
      case (Inl e)
      then show ?thesis by (auto intro!: moves_return final_intros)
    next
      case (Inr t)
      then show ?thesis
        using dead [of t] live [of t] by simp
    qed
  qed simp
qed

end

end
