(* ===== verification/Task_Lifecycle.thy ===== *)
theory Task_Lifecycle
  imports Task_Protocol
begin

text \<open>
  The controller of backup tasks that is started follows the protocol of \<open>Task_Protocol\<close>: every run
  of \<open>Reconcile\<close> is a path of it with the result it prescribes.  What the log of every stage contains
  is an invariant of the protocol (\<open>evidence\<close>), from which the safety properties follow.
\<close>

section \<open>Runs follow the protocol\<close>

abbreviation task_moves :: "world \<Rightarrow> key \<Rightarrow> (stage \<Rightarrow> bool) \<Rightarrow> 'a go \<Rightarrow> (gopanic + 'a \<Rightarrow> stage \<Rightarrow> bool) \<Rightarrow> bool" where
  "task_moves w k \<equiv> moves (lifecycle w k) Start w"

lemma moves_CreateOrUpdate:
  "task_moves w k (\<lambda>s. s = Configured t) (client_CreateOrUpdate (new_cron_job t)
      (mutate_cron_job (w_ToUpper w) (w_SetControllerReference w) t))
     (either (\<lambda>e s. s = Broken t (Wrapf ''failed to create/update CronJob'' e)) (\<lambda>c s. s = Scheduled t c))"
  unfolding client_defs
proof (rule moves_call_at, goal_cases)
  case (1 s h)
  then show ?case
    by (cases "w_CreateOrUpdate w h (new_cron_job t) (mutate_cron_job (w_ToUpper w) (w_SetControllerReference w) t)")
      (auto simp: written_cron_job_def refused_cron_job_def intro!: lifecycle.intros exI [of _ h])
qed

lemma moves_createOrUpdateCronJob:
  "task_moves w k (\<lambda>s. s = Configured t) (go_wrap ''failed to create/update CronJob'' (createOrUpdateCronJob t))
     (ends (outcome w) (\<lambda>e s. s = Broken t e) (\<lambda>c s. s = Scheduled t c))"
  unfolding createOrUpdateCronJob_def
  by (rule moves_wrap, rule moves_world_bind, rule moves_post [OF moves_CreateOrUpdate])
    (auto simp: either_def ends_def split: sum.splits)

lemma moves_ensure_config_map:
  "task_moves w k (\<lambda>s. s = Claimed t) (ensure_config_map t)
     (either (\<lambda>e s. s = Finished (Inl e)) (\<lambda>_ s. s = Configured t))"
proof -
  obtain m where m: "createTargetConfigMap t = Inr m" using createTargetConfigMap_total by blast
  have create: "task_moves w k (\<lambda>s. s = Claimed t) (client_CreateConfigMap m)
      (either (\<lambda>e s. s = (if IsAlreadyExists e then Colliding t m else Finished (Inl e))) (\<lambda>_ s. s = Configured t))"
    unfolding client_defs
    by (rule moves_call_sum) (use m in \<open>auto intro: lifecycle.intros\<close>)
  have update: "task_moves w k (\<lambda>s. s = Colliding t m) (client_UpdateConfigMap m)
      (either (\<lambda>e s. s = Finished (Inl e)) (\<lambda>_ s. s = Configured t))"
    unfolding client_defs
    by (rule moves_call_sum) (auto intro: lifecycle.intros)
  have body: "task_moves w k (\<lambda>s. s = Claimed t) (go_bind (client_CreateConfigMap m) (\<lambda>r. case r of
       Inl err \<Rightarrow> if \<not> IsAlreadyExists err then go_return (Inl err)
         else go_check (client_UpdateConfigMap m) (\<lambda>_. go_return (Inr ()))
     | Inr _ \<Rightarrow> go_return (Inr ())))
      (either (\<lambda>e s. s = Finished (Inl e)) (\<lambda>_ s. s = Configured t))"
    by (rule moves_bind [OF create])
      (auto split: sum.split intro!: moves_return moves_check [OF moves_pre [OF update]])
  show ?thesis
    unfolding ensure_config_map_def m go_check_return by (rule body)
qed

text \<open>\<open>Reconcile\<close> is the common part completed with the config map and the cron job.\<close>

lemma Reconcile_parts: "Reconcile k = Reconcile_with ensure_config_map createOrUpdateCronJob k"
proof -
  have same: "reconcileBackupTask t = reconcile_with createOrUpdateCronJob t" for t
    by (simp only: reconcileBackupTask_def reconcile_with_def)
  show ?thesis by (simp only: Reconcile_def Reconcile_with_def same)
qed

interpretation live_protocol: task_protocol "lifecycle w k" w k "outcome w" Configured ensure_config_map createOrUpdateCronJob for w k
  by unfold_locales (auto intro: moves_ensure_config_map moves_createOrUpdateCronJob)

lemma moves_Reconcile: "task_moves w k (\<lambda>s. s = Start) (Reconcile k) (\<lambda>r s. outcome w s r)"
  unfolding Reconcile_parts by (rule live_protocol.moves_Reconcile_with)

section \<open>What the log of a stage contains\<close>

definition claimed_by :: "world \<Rightarrow> key \<Rightarrow> event list \<Rightarrow> BackupTask \<Rightarrow> bool" where
  "claimed_by w k h t \<longleftrightarrow> (\<exists>t0. GetTask k (Inr t0) \<in> set h \<and> \<not> deleting t0 \<and>
     (if has_finalizer w t0 then t = t0 else UpdateTask (with_finalizer w t0) (Inr t) \<in> set h))"

definition config_stored :: "event list \<Rightarrow> BackupTask \<Rightarrow> bool" where
  "config_stored h t \<longleftrightarrow> (\<exists>m m'. createTargetConfigMap t = Inr m \<and>
     (CreateConfigMap m (Inr m') \<in> set h \<or> UpdateConfigMap m (Inr m') \<in> set h))"

definition configured_by :: "world \<Rightarrow> key \<Rightarrow> event list \<Rightarrow> BackupTask \<Rightarrow> bool" where
  "configured_by w k h t \<longleftrightarrow> claimed_by w k h t \<and> config_stored h t"

definition scheduled_by :: "world \<Rightarrow> key \<Rightarrow> event list \<Rightarrow> BackupTask \<Rightarrow> cron_job \<Rightarrow> bool" where
  "scheduled_by w k h t c \<longleftrightarrow> configured_by w k h t \<and> written_cron_job w t c \<and> CreateOrUpdateCronJob (new_cron_job t) (Inr c) \<in> set h"

definition judged_by :: "event list \<Rightarrow> BackupTask \<Rightarrow> cron_job \<Rightarrow> BackupTask \<Rightarrow> bool" where
  "judged_by h t c l \<longleftrightarrow> (\<exists>l0 n. GetTask (key_of (bt_Meta t)) (Inr l0) \<in> set h \<and>
     l = l0\<lparr>bt_Status := reported_status t c n (bt_Status l0)\<rparr>)"

definition reported_by :: "world \<Rightarrow> key \<Rightarrow> event list \<Rightarrow> BackupTask \<Rightarrow> cron_job \<Rightarrow> bool" where
  "reported_by w k h t c \<longleftrightarrow> scheduled_by w k h t c \<and>
     (\<exists>l l'. judged_by h t c l \<and> UpdateTaskStatus l (Inr l') \<in> set h)"

definition listed_by :: "event list \<Rightarrow> BackupTask \<Rightarrow> BackupRecord list \<Rightarrow> bool" where
  "listed_by h t rs \<longleftrightarrow> ListRecords (bt_Namespace t) (record_selector t) (Inr rs) \<in> set h"

definition idle_with_policy :: "world \<Rightarrow> key \<Rightarrow> event list \<Rightarrow> RetentionPolicy \<Rightarrow> BackupRecord list \<Rightarrow> bool" where
  "idle_with_policy w k h p rs \<longleftrightarrow> (\<exists>t c. reported_by w k h t c \<and> cjst_Active (cj_Status c) = [] \<and>
     bts_Retention (bt_Spec t) = Some p \<and> listed_by h t rs)"

definition all_tried :: "event list \<Rightarrow> BackupRecord list \<Rightarrow> bool" where
  "all_tried h ds \<longleftrightarrow> (\<forall>d \<in> set ds. \<exists>a. DeleteRecord d a \<in> set h)"

definition unscheduled_by :: "world \<Rightarrow> key \<Rightarrow> event list \<Rightarrow> BackupTask \<Rightarrow> bool" where
  "unscheduled_by w k h t \<longleftrightarrow> GetTask k (Inr t) \<in> set h \<and> deleting t \<and> has_finalizer w t \<and>
     (\<exists>a. DeleteCronJob (cron_key t) a \<in> set h \<and> (case a of Inr _ \<Rightarrow> True | Inl e \<Rightarrow> IsNotFound e))"

definition failed_step :: "event list \<Rightarrow> bool" where
  "failed_step h \<longleftrightarrow> (\<exists>c e. CreateOrUpdateCronJob c (Inl e) \<in> set h) \<or> (\<exists>l e. UpdateTaskStatus l (Inl e) \<in> set h)
     \<or> (\<exists>t c k e. CreateOrUpdateCronJob t (Inr c) \<in> set h \<and> GetTask k (Inl e) \<in> set h)"

fun answer_error :: "event \<Rightarrow> goerror option" where
  "answer_error (GetTask k (Inl e)) = Some e"
| "answer_error (UpdateTask t (Inl e)) = Some e"
| "answer_error (UpdateTaskStatus t (Inl e)) = Some e"
| "answer_error (CreateConfigMap m (Inl e)) = Some e"
| "answer_error (UpdateConfigMap m (Inl e)) = Some e"
| "answer_error (CreateOrUpdateCronJob c (Inl e)) = Some e"
| "answer_error (DeleteCronJob k (Inl e)) = Some e"
| "answer_error (ListRecords ns ls (Inl e)) = Some e"
| "answer_error (DeleteRecord r (Inl e)) = Some e"
| "answer_error (GetRecord k (Inl e)) = Some e"
| "answer_error (UpdateRecordStatus r (Inl e)) = Some e"
| "answer_error (ListJobs ns ls (Inl e)) = Some e"
| "answer_error (ListPods ns ls (Inl e)) = Some e"
| "answer_error e = None"

text \<open>The error of some call, as it is or wrapped once.\<close>

definition reported_error :: "event list \<Rightarrow> goerror \<Rightarrow> bool" where
  "reported_error h e \<longleftrightarrow> (\<exists>ev \<in> set h. \<exists>e0. answer_error ev = Some e0 \<and> (e = e0 \<or> (\<exists>m. e = Wrapf m e0)))"

text \<open>Nothing is left to do: the task is gone, or its deletion is complete, or no backup runs.\<close>

definition gone :: "world \<Rightarrow> key \<Rightarrow> event list \<Rightarrow> bool" where
  "gone w k h \<longleftrightarrow> (\<exists>e. GetTask k (Inl e) \<in> set h \<and> IsNotFound e)
     \<or> (\<exists>t. GetTask k (Inr t) \<in> set h \<and> deleting t \<and> \<not> has_finalizer w t)
     \<or> (\<exists>t t'. unscheduled_by w k h t \<and> UpdateTask (without_finalizer w t) (Inr t') \<in> set h)"

definition waits :: "world \<Rightarrow> key \<Rightarrow> event list \<Rightarrow> bool" where
  "waits w k h \<longleftrightarrow> (\<exists>t c. reported_by w k h t c \<and> cjst_Active (cj_Status c) = [])"

definition works :: "world \<Rightarrow> key \<Rightarrow> event list \<Rightarrow> bool" where
  "works w k h \<longleftrightarrow> (\<exists>t c. reported_by w k h t c \<and> cjst_Active (cj_Status c) \<noteq> [])"

definition settled :: "world \<Rightarrow> key \<Rightarrow> event list \<Rightarrow> ctrl_result \<Rightarrow> bool" where
  "settled w k h x \<longleftrightarrow> (x = zero_result \<and> gone w k h) \<or> (x = five_minutes \<and> waits w k h) \<or> (x = half_a_minute \<and> works w k h)"

lemmas log_defs = claimed_by_def config_stored_def configured_by_def scheduled_by_def judged_by_def reported_by_def
  listed_by_def idle_with_policy_def all_tried_def unscheduled_by_def failed_step_def

fun evidence :: "world \<Rightarrow> key \<Rightarrow> event list \<Rightarrow> stage \<Rightarrow> bool" where
  "evidence w k h Start = (h = [])"
| "evidence w k h (Claiming t) = (h = [GetTask k (Inr t)] \<and> \<not> deleting t \<and> \<not> has_finalizer w t)"
| "evidence w k h (Claimed t) = claimed_by w k h t"
| "evidence w k h (Colliding t m) = (claimed_by w k h t \<and> createTargetConfigMap t = Inr m)"
| "evidence w k h (Configured t) = configured_by w k h t"
| "evidence w k h (Scheduled t c) = scheduled_by w k h t c"
| "evidence w k h (Observed t c l) = (scheduled_by w k h t c \<and> GetTask (key_of (bt_Meta t)) (Inr l) \<in> set h)"
| "evidence w k h (Judged t c l) = (scheduled_by w k h t c \<and> judged_by h t c l)"
| "evidence w k h (Reported t c) = reported_by w k h t c"
| "evidence w k h (Listed p rs) = idle_with_policy w k h p rs"
| "evidence w k h (Pruning ds) = (\<exists>p rs n done. idle_with_policy w k h p rs
     \<and> filterRecordsToDelete n rs p = Inr (done @ ds) \<and> all_tried h done)"
| "evidence w k h (Cleaning t) = (GetTask k (Inr t) \<in> set h \<and> deleting t \<and> has_finalizer w t)"
| "evidence w k h (Unscheduled t) = unscheduled_by w k h t"
| "evidence w k h (Purging t rs) = (\<exists>done. unscheduled_by w k h t \<and> listed_by h t (done @ rs) \<and> all_tried h done)"
| "evidence w k h (Broken t e) = (configured_by w k h t \<and> failed_step h \<and> reported_error h e)"
| "evidence w k h (Finished r) = (case r of Inl e \<Rightarrow> reported_error h e | Inr x \<Rightarrow> settled w k h x)"
| "evidence w k h (Crashed x) = (\<exists>p rs n. idle_with_policy w k h p rs \<and> filterRecordsToDelete n rs p = Inl x)"

text \<open>What a log contains, every longer log contains.\<close>

lemma log_mono:
  assumes "set h \<subseteq> set h'"
  shows "claimed_by w k h t \<Longrightarrow> claimed_by w k h' t"
    and "config_stored h t \<Longrightarrow> config_stored h' t"
    and "judged_by h t c l \<Longrightarrow> judged_by h' t c l"
    and "listed_by h t rs \<Longrightarrow> listed_by h' t rs"
    and "all_tried h ds \<Longrightarrow> all_tried h' ds"
    and "unscheduled_by w k h t \<Longrightarrow> unscheduled_by w k h' t"
    and "failed_step h \<Longrightarrow> failed_step h'"
    and "reported_error h e \<Longrightarrow> reported_error h' e"
proof -
  show "claimed_by w k h t \<Longrightarrow> claimed_by w k h' t" using assms unfolding claimed_by_def by (metis subsetD)
  show "config_stored h t \<Longrightarrow> config_stored h' t" using assms unfolding config_stored_def by blast
  show "judged_by h t c l \<Longrightarrow> judged_by h' t c l" using assms unfolding judged_by_def by blast
  show "listed_by h t rs \<Longrightarrow> listed_by h' t rs" using assms unfolding listed_by_def by blast
  show "all_tried h ds \<Longrightarrow> all_tried h' ds" using assms unfolding all_tried_def by blast
  show "unscheduled_by w k h t \<Longrightarrow> unscheduled_by w k h' t" using assms unfolding unscheduled_by_def by blast
  show "failed_step h \<Longrightarrow> failed_step h'" using assms unfolding failed_step_def by blast
  show "reported_error h e \<Longrightarrow> reported_error h' e" using assms unfolding reported_error_def by blast
qed

lemma log_mono_stages:
  assumes "set h \<subseteq> set h'"
  shows "configured_by w k h t \<Longrightarrow> configured_by w k h' t"
    and "scheduled_by w k h t c \<Longrightarrow> scheduled_by w k h' t c"
    and "reported_by w k h t c \<Longrightarrow> reported_by w k h' t c"
    and "idle_with_policy w k h p rs \<Longrightarrow> idle_with_policy w k h' p rs"
proof -
  show c: "configured_by w k h t \<Longrightarrow> configured_by w k h' t" for t
    using log_mono(1,2) [OF assms] unfolding configured_by_def by blast
  show s: "scheduled_by w k h t c \<Longrightarrow> scheduled_by w k h' t c" for t c
    using c assms unfolding scheduled_by_def by blast
  show r: "reported_by w k h t c \<Longrightarrow> reported_by w k h' t c" for t c
    using s log_mono(3) [OF assms] assms unfolding reported_by_def by blast
  show "idle_with_policy w k h p rs \<Longrightarrow> idle_with_policy w k h' p rs"
    using r log_mono(4) [OF assms] unfolding idle_with_policy_def by blast
qed

lemma set_snoc: "set h \<subseteq> set (h @ [e])"
  by auto

lemmas log_step = log_mono [OF set_snoc] log_mono_stages [OF set_snoc]

lemma reported_errorI: "answer_error ev = Some e0 \<Longrightarrow> e = e0 \<or> (\<exists>m. e = Wrapf m e0) \<Longrightarrow> reported_error (h @ [ev]) e"
  by (auto simp: reported_error_def)

lemma evidence_step: "lifecycle w k s e s' \<Longrightarrow> evidence w k h s \<Longrightarrow> evidence w k (h @ [e]) s'"
proof (induction rule: lifecycle.induct)
  case (select p rs n)
  then have idle: "idle_with_policy w k (h @ [Now n]) p rs" by (simp add: log_step)
  show ?case
  proof (cases "filterRecordsToDelete n rs p")
    case (Inl x)
    with idle show ?thesis by auto
  next
    case (Inr ds)
    show ?thesis
      unfolding Inr sum.case evidence.simps
      using idle Inr by (intro exI [of _ p] exI [of _ rs] exI [of _ n] exI [of _ "[]"]) (simp add: all_tried_def)
  qed
next
  case (prune d ds a)
  then obtain p rs n "done" where "idle_with_policy w k h p rs" "filterRecordsToDelete n rs p = Inr (done @ d # ds)" "all_tried h done"
    by auto
  then have "idle_with_policy w k (h @ [DeleteRecord d a]) p rs \<and> filterRecordsToDelete n rs p = Inr ((done @ [d]) @ ds)
      \<and> all_tried (h @ [DeleteRecord d a]) (done @ [d])"
    by (auto simp: all_tried_def intro: log_step)
  then show ?case unfolding evidence.simps by blast
next
  case (survey t rs)
  then have "unscheduled_by w k (h @ [ListRecords (bt_Namespace t) (record_selector t) (Inr rs)]) t
      \<and> listed_by (h @ [ListRecords (bt_Namespace t) (record_selector t) (Inr rs)]) t ([] @ rs)
      \<and> all_tried (h @ [ListRecords (bt_Namespace t) (record_selector t) (Inr rs)]) []"
    by (auto simp: listed_by_def all_tried_def intro: log_step)
  then show ?case unfolding evidence.simps by blast
next
  case (purge t d ds a)
  then obtain "done" where "unscheduled_by w k h t" "listed_by h t (done @ d # ds)" "all_tried h done"
    by auto
  then have "unscheduled_by w k (h @ [DeleteRecord d a]) t \<and> listed_by (h @ [DeleteRecord d a]) t ((done @ [d]) @ ds)
      \<and> all_tried (h @ [DeleteRecord d a]) (done @ [d])"
    by (auto simp: all_tried_def intro: log_step)
  then show ?case unfolding evidence.simps by blast
next
  case (judge t c l n)
  then have "scheduled_by w k (h @ [Now n]) t c" "GetTask (key_of (bt_Meta t)) (Inr l) \<in> set (h @ [Now n])"
    by (auto intro: log_step)
  then show ?case unfolding evidence.simps judged_by_def by blast
next
  case (observe_failed t c e)
  then show ?case
    by (auto simp: scheduled_by_def failed_step_def intro: log_step reported_errorI)
next
  case (review c t p rs)
  then have "reported_by w k (h @ [ListRecords (bt_Namespace t) (record_selector t) (Inr rs)]) t c"
    by (auto intro: log_step)
  with review show ?case
    unfolding evidence.simps idle_with_policy_def listed_by_def by fastforce
next
  case (report t c l l')
  then have "scheduled_by w k (h @ [UpdateTaskStatus l (Inr l')]) t c" "judged_by (h @ [UpdateTaskStatus l (Inr l')]) t c l"
    by (auto intro: log_step)
  then show ?case unfolding evidence.simps reported_by_def by fastforce
next
  case (report_failed t c l e)
  then show ?case by (auto simp: scheduled_by_def failed_step_def intro: log_step reported_errorI)
next
  case (unschedule a t)
  then show ?case unfolding evidence.simps unscheduled_by_def by fastforce
next
  case (schedule t c)
  then show ?case by (auto simp: scheduled_by_def intro: log_step)
next
  case (schedule_failed t e)
  then show ?case by (auto simp: failed_step_def intro: log_step reported_errorI)
next
  case (configure t m m')
  then show ?case by (auto simp: configured_by_def config_stored_def intro: log_step)
next
  case (reconfigure t m m')
  then show ?case by (auto simp: configured_by_def config_stored_def intro: log_step)
next
  case (claim t t')
  then show ?case by (auto simp: claimed_by_def)
next
  case (claimed t)
  then show ?case by (auto simp: claimed_by_def)
next
  case (released t)
  then show ?case by (auto simp: settled_def gone_def)
next
  case (review_failed c t p e)
  then have "reported_by w k (h @ [ListRecords (bt_Namespace t) (record_selector t) (Inl e)]) t c"
    by (simp add: log_step)
  with review_failed show ?case by (auto simp: settled_def waits_def)
next
  case (release t t')
  then have "unscheduled_by w k (h @ [UpdateTask (without_finalizer w t) (Inr t')]) t"
    by (auto simp: log_step)
  then show ?case by (auto simp: settled_def gone_def)
next
  case (absent e)
  then show ?case
    using reported_errorI [of "GetTask k (Inl e)" e e "[]"] by (auto simp: settled_def gone_def)
next
  case (claim_failed t e)
  then show ?case
    using reported_errorI [of "UpdateTask (with_finalizer w t) (Inl e)" e e h] by simp
qed (simp_all add: log_step reported_errorI)

lemma Reconcile_reaches:
  "\<exists>s. reaches (lifecycle w k) Start (snd (Reconcile k w [])) s \<and> outcome w s (fst (Reconcile k w []))"
proof -
  have "\<exists>s. reaches (lifecycle w k) Start [] s \<and> s = Start" by (blast intro: reaches.none)
  from runsD [OF moves_Reconcile [unfolded moves_def] this] show ?thesis .
qed

interpretation task_run: controller_protocol "lifecycle w k" Start "Reconcile k w []" "outcome w" "evidence w k" for w k
  by unfold_locales (auto intro: Reconcile_reaches evidence_step)

lemmas Reconcile_event = task_run.event [of w k for w k]

inductive_simps UpdateTask_step: "lifecycle w k s (UpdateTask t r) s'"
inductive_simps CronJob_step: "lifecycle w k s (CreateOrUpdateCronJob c r) s'"
inductive_simps Status_step: "lifecycle w k s (UpdateTaskStatus l r) s'"
inductive_simps Delete_step: "lifecycle w k s (DeleteRecord d a) s'"
inductive_cases outcome_value: "outcome w s (Inr (Inr x))"
inductive_cases outcome_panic: "outcome w s (Inl p)"

lemma finished_path: "path (lifecycle w k) (Finished r) ys s \<Longrightarrow> ys = []"
  by (cases ys) (auto elim: lifecycle.cases)

section \<open>A world without failures\<close>

text \<open>Every read of the task gives \<open>t\<close>, every write succeeds, the records are \<open>rs\<close>; used in the examples.\<close>

definition steady :: "BackupTask \<Rightarrow> BackupRecord list \<Rightarrow> (cron_job \<Rightarrow> cron_job) \<Rightarrow> world" where
  "steady t rs answer = \<lparr>w_GetTask = (\<lambda>h k. Inr t), w_UpdateTask = (\<lambda>h t. Inr t), w_UpdateTaskStatus = (\<lambda>h t. Inr t),
     w_CreateConfigMap = (\<lambda>h m. Inr m), w_UpdateConfigMap = (\<lambda>h m. Inr m),
     w_CreateOrUpdate = (\<lambda>h c f. map_sum id answer (f c)),
     w_CreateOrUpdateTry = (\<lambda>h c f. map_sum id (map_sum id answer) (f c)), w_DeleteCronJob = (\<lambda>h k. Inl NotFoundError),
     w_ListRecords = (\<lambda>h ns ls. Inr rs), w_DeleteRecord = (\<lambda>h r. Inr ()), w_GetRecord = (\<lambda>h k. Inl NotFoundError),
     w_UpdateRecordStatus = (\<lambda>h r. Inr r), w_ListJobs = (\<lambda>h ns ls. Inr []), w_ListPods = (\<lambda>h ns ls. Inr []),
     w_Now = (\<lambda>h. 7), w_ToUpper = id, w_ContainsFinalizer = (\<lambda>t f. f \<in> set (om_Finalizers (bt_Meta t))),
     w_AddFinalizer = (\<lambda>t f. t\<lparr>bt_Meta := (bt_Meta t)\<lparr>om_Finalizers := om_Finalizers (bt_Meta t) @ [f]\<rparr>\<rparr>),
     w_RemoveFinalizer = (\<lambda>t f. t\<lparr>bt_Meta := (bt_Meta t)\<lparr>om_Finalizers := removeAll f (om_Finalizers (bt_Meta t))\<rparr>\<rparr>),
     w_SetControllerReference = (\<lambda>t c. Inr c), w_FormatSeconds = (\<lambda>a b. ''1.00''), w_ErrorText = (\<lambda>e. ''error''), w_Recorder = False\<rparr>"

definition doomed_task :: BackupTask where
  "doomed_task = zero_task\<lparr>bt_Meta := zero_meta\<lparr>om_Name := ''t'', om_DeletionTimestamp := Some 3,
     om_Finalizers := [backupTaskFinalizer]\<rparr>\<rparr>"

lemmas run_defs = Reconcile_def reconcile_deleted_def finalizeBackupTask_def ensure_finalizer_def ensure_config_map_def
  reconcileBackupTask_def createOrUpdateCronJob_def updateBackupTaskStatus_def updateConditions_def
  applyRetentionPolicy_def recorder_Eventf_def delete_all_def go_run

definition live_task :: BackupTask where
  "live_task = zero_task\<lparr>bt_Meta := zero_meta\<lparr>om_Name := ''t''\<rparr>, bt_Spec := zero_task_spec\<lparr>bts_Retention :=
     Some \<lparr>rp_MaxAgeDays = None, rp_MaxBackupCount = Some 0, rp_KeepLast = None\<rparr>\<rparr>\<rparr>"

definition doomed_world :: world where
  "doomed_world = steady doomed_task [zero_record] id"

definition live_world :: world where
  "live_world = steady live_task [zero_record] id"

definition doomed_log :: "event list" where
  "doomed_log = [GetTask (key_of (bt_Meta doomed_task)) (Inr doomed_task), DeleteCronJob (cron_key doomed_task) (Inl NotFoundError),
     ListRecords [] (record_selector doomed_task) (Inr [zero_record]), DeleteRecord zero_record (Inr ())]"

lemma doomed_run: "snd (Reconcile (key_of (bt_Meta doomed_task)) doomed_world []) =
    doomed_log @ UpdateTask (without_finalizer doomed_world doomed_task) (Inr (without_finalizer doomed_world doomed_task)) # []"
  by (simp add: run_defs doomed_world_def doomed_log_def steady_def deleting_def doomed_task_def has_finalizer_def
      without_finalizer_def zero_task_def zero_meta_def)

text \<open>The run for a live task without finalizer, whose only record its policy does not keep.\<close>

definition claimed_live :: BackupTask where
  "claimed_live = with_finalizer live_world live_task"

definition live_cron_job :: cron_job where
  "live_cron_job = (new_cron_job claimed_live)\<lparr>cj_Spec := buildCronJobSpec id claimed_live\<rparr>"

definition live_report :: BackupTask where
  "live_report = live_task\<lparr>bt_Status := reported_status claimed_live live_cron_job 7 (bt_Status live_task)\<rparr>"

definition live_config_map :: config_map where
  "live_config_map = (case createTargetConfigMap claimed_live of Inr m \<Rightarrow> m | Inl e \<Rightarrow> \<lparr>cm_Meta = zero_meta, cm_Data = []\<rparr>)"

definition live_log :: "event list" where
  "live_log = [GetTask (key_of (bt_Meta live_task)) (Inr live_task), UpdateTask claimed_live (Inr claimed_live),
     CreateConfigMap live_config_map (Inr live_config_map),
     CreateOrUpdateCronJob (new_cron_job claimed_live) (Inr live_cron_job),
     GetTask (key_of (bt_Meta live_task)) (Inr live_task), Now 7, UpdateTaskStatus live_report (Inr live_report),
     ListRecords [] (record_selector claimed_live) (Inr [zero_record]), Now 7, DeleteRecord zero_record (Inr ())]"

lemma live_config_map: "createTargetConfigMap claimed_live = Inr live_config_map"
  using createTargetConfigMap_total [of claimed_live] by (auto simp: live_config_map_def)

lemma live_facts:
  "\<not> deleting live_task" "\<not> has_finalizer live_world live_task"
  "bt_Spec claimed_live = bt_Spec live_task" "key_of (bt_Meta claimed_live) = key_of (bt_Meta live_task)"
  "bt_Namespace claimed_live = []"
  by (simp_all add: deleting_def has_finalizer_def claimed_live_def with_finalizer_def live_world_def steady_def
      live_task_def zero_task_def zero_meta_def key_of_def)

lemma live_policy:
  "bts_Retention (bt_Spec live_task) = Some \<lparr>rp_MaxAgeDays = None, rp_MaxBackupCount = Some 0, rp_KeepLast = None\<rparr>"
  by (simp add: live_task_def)

lemma live_reads:
  "w_GetTask live_world h k = Inr live_task" "w_UpdateTask live_world h t = Inr t"
  "w_UpdateTaskStatus live_world h t = Inr t" "w_CreateConfigMap live_world h m = Inr m"
  "w_CreateOrUpdate live_world h c f = map_sum id id (f c)" "w_ListRecords live_world h ns ls = Inr [zero_record]"
  "w_DeleteRecord live_world h r = Inr ()" "w_Now live_world h = 7" "w_ToUpper live_world = id"
  "w_SetControllerReference live_world t c = Inr c"
  by (simp_all add: live_world_def steady_def)

lemma live_cron_job: "mutate_cron_job id (w_SetControllerReference live_world) claimed_live (new_cron_job claimed_live) = Inr live_cron_job"
  by (simp add: mutate_cron_job_def live_reads live_cron_job_def)

lemma live_cron_active: "cjst_Active (cj_Status live_cron_job) = []"
  by (simp add: live_cron_job_def new_cron_job_def zero_cron_job_status_def)

lemma live_report: "live_task\<lparr>bt_Status := (observed_status claimed_live live_cron_job (bt_Status live_task))
     \<lparr>bst_Conditions := conditions_at 7 (observed_status claimed_live live_cron_job (bt_Status live_task))\<rparr>\<rparr> = live_report"
  by (simp add: live_report_def reported_status_def Let_def)

lemma live_run: "snd (Reconcile (key_of (bt_Meta live_task)) live_world []) = live_log"
  by (simp add: run_defs live_reads live_facts claimed_live_def [symmetric] live_config_map live_cron_job live_cron_active
      live_report live_policy filterRecordsToDelete_def calculateNextSchedule_def seconds_def live_log_def)

definition keeps_suspend :: "world \<Rightarrow> bool" where
  "keeps_suspend w \<longleftrightarrow>
     (\<forall>t c c'. w_SetControllerReference w t c = Inr c' \<longrightarrow> cj_Spec c' = cj_Spec c) \<and>
     (\<forall>h c f c'. w_CreateOrUpdate w h c f = Inr c' \<longrightarrow>
        (\<exists>c0 c1. f c0 = Inr c1 \<and> cjs_Suspend (cj_Spec c') = cjs_Suspend (cj_Spec c1)))"

lemma written_not_suspended:
  assumes "keeps_suspend w" and "written_cron_job w t c"
  shows "cjs_Suspend (cj_Spec c) = Some False"
proof -
  from assms obtain c0 c1 where "mutate_cron_job (w_ToUpper w) (w_SetControllerReference w) t c0 = Inr c1"
    and c: "cjs_Suspend (cj_Spec c) = cjs_Suspend (cj_Spec c1)"
    unfolding keeps_suspend_def written_cron_job_def by metis
  then have "cj_Spec c1 = buildCronJobSpec (w_ToUpper w) t"
    using assms(1) unfolding keeps_suspend_def mutate_cron_job_def by fastforce
  with c show ?thesis by (simp add: buildCronJobSpec_def)
qed

lemma phase_table:
  "bst_Phase (reported_status t c n st) = (if cjs_Suspend (cj_Spec c) = Some True then ''Pending''
      else if cjst_Active (cj_Status c) \<noteq> [] then ''Running''
      else if cjst_LastScheduleTime (cj_Status c) \<noteq> None then ''Completed'' else ''Pending'')"
  by (cases "cjst_Active (cj_Status c)"; cases "cjst_LastScheduleTime (cj_Status c)")
    (simp_all add: reported_status_def observed_status_def Let_def api_consts)

lemma status_event:
  assumes "snd (Reconcile k w []) = xs @ UpdateTaskStatus l r # ys"
  obtains t c l0 n where "scheduled_by w k xs t c" and "GetTask (key_of (bt_Meta t)) (Inr l0) \<in> set xs"
    and "l = l0\<lparr>bt_Status := reported_status t c n (bt_Status l0)\<rparr>"
proof -
  obtain s s' s'' where s: "evidence w k xs s" "lifecycle w k s (UpdateTaskStatus l r) s'"
    using assms by (rule Reconcile_event)
  from s(2) obtain t c where "s = Judged t c l" unfolding Status_step by blast
  with s(1) have "scheduled_by w k xs t c \<and> judged_by xs t c l" by simp
  then show thesis using that unfolding judged_by_def by blast
qed

lemma delete_all_total: "\<exists>es. delete_all ds w h = (Inr (), h @ es)"
proof (induction ds arbitrary: h)
  case Nil
  then show ?case by (simp add: delete_all_def go_run)
next
  case (Cons d ds)
  from Cons [of "h @ [DeleteRecord d (w_DeleteRecord w h d)]"] obtain es where
    "delete_all ds w (h @ [DeleteRecord d (w_DeleteRecord w h d)]) = (Inr (), h @ DeleteRecord d (w_DeleteRecord w h d) # es)"
    by auto
  then show ?case by (auto simp: delete_all_def go_run)
qed

lemma finalize_run:
  assumes "case a of Inr _ \<Rightarrow> True | Inl e \<Rightarrow> IsNotFound e" and "w_DeleteCronJob w h (cron_key t) = a"
    and "w_ListRecords w (h @ [DeleteCronJob (cron_key t) a]) (bt_Namespace t) (record_selector t) = Inr rs"
  shows "\<exists>es. finalizeBackupTask t w h = (Inr (Inr ()), h @ DeleteCronJob (cron_key t) a # es)"
proof -
  obtain es where "delete_all rs w (h @ [DeleteCronJob (cron_key t) a, ListRecords (bt_Namespace t) (record_selector t) (Inr rs)])
      = (Inr (), h @ [DeleteCronJob (cron_key t) a, ListRecords (bt_Namespace t) (record_selector t) (Inr rs)] @ es)"
    using delete_all_total [of rs w "h @ [DeleteCronJob (cron_key t) a, ListRecords (bt_Namespace t) (record_selector t) (Inr rs)]"]
    by auto
  with assms show ?thesis
    by (cases a) (simp_all add: finalizeBackupTask_def go_run)
qed

lemma live_keeps_suspend: "keeps_suspend live_world"
proof -
  have "map_sum id id (x :: goerror + cron_job) = x" for x by (cases x) auto
  then show ?thesis by (auto simp: keeps_suspend_def live_reads)
qed

text \<open>The same run on a cluster that refuses the cron job.\<close>

definition quota_world :: world where
  "quota_world = live_world\<lparr>w_CreateOrUpdate := (\<lambda>h c f. Inl (OtherError ''quota''))\<rparr>"

lemma quota_run: "snd (Reconcile (key_of (bt_Meta live_task)) quota_world []) =
    take 3 live_log @ CreateOrUpdateCronJob (new_cron_job claimed_live) (Inl (OtherError ''quota'')) # []"
proof -
  have "has_finalizer quota_world live_task = has_finalizer live_world live_task" "with_finalizer quota_world live_task = claimed_live"
    by (simp_all add: quota_world_def has_finalizer_def with_finalizer_def claimed_live_def)
  then show ?thesis
    by (simp add: quota_world_def run_defs live_reads live_facts live_config_map live_log_def)
      (simp add: live_world_def steady_def)
qed

section \<open>Properties\<close>

text \<open>
  C1: every run of the controller, whatever the cluster answers, is a path of the protocol, and
  its result (a requeue time, an error or a panic) is the one the protocol prescribes for the stage
  it ends in.
\<close>

theorem reconcile_follows_lifecycle:
  "\<exists>s. reaches (lifecycle w k) Start (snd (Reconcile k w [])) s \<and> outcome w s (fst (Reconcile k w []))"
  by (rule Reconcile_reaches)

text \<open>
  C3: the task object is written in two cases only: a live task gets the finalizer, or the finalizer
  of a task being deleted is removed.  The second happens as the last call of a run, after the
  deletion of the cron job was acknowledged and after a deletion was tried for every record listed.
\<close>

theorem finalizer_released_last:
  assumes "snd (Reconcile k w []) = xs @ UpdateTask t r # ys"
  shows "(\<exists>t0. xs = [GetTask k (Inr t0)] \<and> \<not> deleting t0 \<and> \<not> has_finalizer w t0 \<and> t = with_finalizer w t0)
    \<or> (\<exists>t0 rs. unscheduled_by w k xs t0 \<and> listed_by xs t0 rs \<and> all_tried xs rs \<and> t = without_finalizer w t0 \<and> ys = [])"
proof -
  obtain s s' s'' where s: "evidence w k xs s" "lifecycle w k s (UpdateTask t r) s'" "path (lifecycle w k) s' ys s''"
    using assms by (rule Reconcile_event)
  from s(2) consider (claim) t0 where "s = Claiming t0" "t = with_finalizer w t0"
    | (release) t0 x where "s = Purging t0 []" "t = without_finalizer w t0" "s' = Finished x"
    unfolding UpdateTask_step by blast
  then show ?thesis
  proof cases
    case claim
    with s(1) show ?thesis by (intro disjI1 exI [of _ t0]) simp
  next
    case release
    with s(1) obtain rs where "unscheduled_by w k xs t0 \<and> listed_by xs t0 rs \<and> all_tried xs rs" by auto
    with release s(3) finished_path show ?thesis by blast
  qed
qed

theorem finalizer_released_last_witness:
  "unscheduled_by doomed_world (key_of (bt_Meta doomed_task)) doomed_log doomed_task \<and> listed_by doomed_log doomed_task [zero_record]"
  using finalizer_released_last [OF doomed_run]
  by (auto simp: listed_by_def unscheduled_by_def doomed_log_def)

text \<open>
  C14: a cron job is written only for a live task whose finalizer is stored and whose config map is
  stored, and it is the cron job of that task.
\<close>

theorem cron_job_after_finalizer:
  assumes "snd (Reconcile k w []) = xs @ CreateOrUpdateCronJob c r # ys"
  shows "\<exists>t. claimed_by w k xs t \<and> config_stored xs t \<and> c = new_cron_job t"
proof -
  obtain s s' s'' where s: "evidence w k xs s" "lifecycle w k s (CreateOrUpdateCronJob c r) s'"
    using assms by (rule Reconcile_event)
  from s(2) obtain t where "s = Configured t" "c = new_cron_job t"
    unfolding CronJob_step by blast
  with s(1) show ?thesis by (auto simp: configured_by_def)
qed

theorem cron_job_after_finalizer_witness:
  "\<exists>t. claimed_by live_world (key_of (bt_Meta live_task)) (take 3 live_log) t \<and> config_stored (take 3 live_log) t
     \<and> new_cron_job claimed_live = new_cron_job t"
  by (rule cron_job_after_finalizer [where ys = "drop 4 live_log"]) (simp add: live_run, simp add: live_log_def)



text \<open>
  C13: the status written for a task is computed from the cron job as the cluster returned it and
  from the latest task read; nothing but the status of that task is changed, and of the status
  neither the history count nor the next schedule time.
\<close>

theorem status_report:
  assumes "snd (Reconcile k w []) = xs @ UpdateTaskStatus l r # ys"
  shows "\<exists>t c l0 n. scheduled_by w k xs t c \<and> GetTask (key_of (bt_Meta t)) (Inr l0) \<in> set xs
    \<and> l = l0\<lparr>bt_Status := reported_status t c n (bt_Status l0)\<rparr>
    \<and> bst_BackupHistoryCount (bt_Status l) = bst_BackupHistoryCount (bt_Status l0)
    \<and> bst_NextScheduleTime (bt_Status l) = bst_NextScheduleTime (bt_Status l0)"
proof -
  have "bst_BackupHistoryCount (reported_status t c n st) = bst_BackupHistoryCount st
      \<and> bst_NextScheduleTime (reported_status t c n st) = bst_NextScheduleTime st" for t c n st
    by (simp add: reported_status_def observed_status_def Let_def split: list.split option.split)
  moreover obtain t c l0 n where "scheduled_by w k xs t c" "GetTask (key_of (bt_Meta t)) (Inr l0) \<in> set xs"
    "l = l0\<lparr>bt_Status := reported_status t c n (bt_Status l0)\<rparr>"
    using assms by (rule status_event)
  ultimately show ?thesis
    by (intro exI [of _ t] exI [of _ c] exI [of _ l0] exI [of _ n]) simp
qed

theorem status_report_witness:
  "\<exists>t c l0 n. scheduled_by live_world (key_of (bt_Meta live_task)) (take 6 live_log) t c
    \<and> GetTask (key_of (bt_Meta t)) (Inr l0) \<in> set (take 6 live_log)
    \<and> live_report = l0\<lparr>bt_Status := reported_status t c n (bt_Status l0)\<rparr>
    \<and> bst_BackupHistoryCount (bt_Status live_report) = bst_BackupHistoryCount (bt_Status l0)
    \<and> bst_NextScheduleTime (bt_Status live_report) = bst_NextScheduleTime (bt_Status l0)"
  by (rule status_report [where ys = "drop 7 live_log"]) (simp add: live_run, simp add: live_log_def)

text \<open>
  C12: how a run ends.  With no requeue: the task is gone, or is being deleted without the finalizer,
  or its finalizer has just been removed.  With half a minute: the status is reported and a backup
  is running.  With five minutes: the status is reported and no backup is running.  With an error:
  a call of the run failed with it.  With a panic: a step failed and there is no recorder, or no
  backup is running and the retention policy has a negative count.
\<close>

theorem reconcile_results:
  "case fst (Reconcile k w []) of
     Inl NilDereference \<Rightarrow> \<not> w_Recorder w \<and> failed_step (snd (Reconcile k w []))
   | Inl SliceOutOfRange \<Rightarrow> \<exists>p rs n. idle_with_policy w k (snd (Reconcile k w [])) p rs
       \<and> rp_MaxBackupCount p = Some n \<and> sint n < 0
   | Inr (Inl e) \<Rightarrow> reported_error (snd (Reconcile k w [])) e
   | Inr (Inr x) \<Rightarrow> (x = zero_result \<and> gone w k (snd (Reconcile k w [])))
       \<or> (x = five_minutes \<and> waits w k (snd (Reconcile k w []))) \<or> (x = half_a_minute \<and> works w k (snd (Reconcile k w [])))"
proof -
  let ?h = "snd (Reconcile k w [])"
  obtain s where ev: "evidence w k ?h s" and o: "outcome w s (fst (Reconcile k w []))"
    by (rule task_run.result)
  from o show ?thesis
  proof cases
    case (finished r)
    with ev show ?thesis by (cases r) (auto simp: settled_def)
  next
    case (crashed p)
    with ev obtain q rs n where q: "idle_with_policy w k ?h q rs" "filterRecordsToDelete n rs q = Inl p" by auto
    then have "p = SliceOutOfRange" "\<exists>n. rp_MaxBackupCount q = Some n \<and> sint n < 0"
      by (auto simp: filterRecordsToDelete_cases split: if_splits)
    with q crashed show ?thesis by auto
  next
    case pruned
    with ev show ?thesis by (auto simp: waits_def idle_with_policy_def)
  qed (use ev in \<open>auto simp: works_def waits_def\<close>)
qed

text \<open>
  The reconciler is started without an event recorder: then every failure to write the cron job
  ends the run in a nil dereference instead of returning the error.
\<close>

theorem missing_recorder_panics:
  assumes "\<not> w_Recorder w" and "snd (Reconcile k w []) = xs @ CreateOrUpdateCronJob c (Inl e) # ys"
  shows "fst (Reconcile k w []) = Inl NilDereference \<and> ys = []"
proof -
  obtain s s' s'' where s: "lifecycle w k s (CreateOrUpdateCronJob c (Inl e)) s'" "path (lifecycle w k) s' ys s''"
    and o: "outcome w s'' (fst (Reconcile k w []))"
    using assms(2) by (rule Reconcile_event)
  from s(1) obtain t e' where b: "s' = Broken t e'" unfolding CronJob_step by blast
  with s(2) assms(1) have ys: "ys = []" by (cases ys) (auto elim: lifecycle.cases)
  with s(2) b have "s'' = Broken t e'" by simp
  with o ys show ?thesis by (auto elim: outcome.cases)
qed

theorem missing_recorder_panics_witness:
  "fst (Reconcile (key_of (bt_Meta live_task)) quota_world []) = Inl NilDereference"
  by (rule missing_recorder_panics [THEN conjunct1, OF _ quota_run]) (simp add: quota_world_def live_world_def steady_def)


text \<open>
  On a cluster that stores the suspend flag it is given, the controller undoes every suspension
  of the cron job, so the phase it writes is \<open>Pending\<close> only for a cron job that was never scheduled.
\<close>

theorem suspension_undone:
  assumes "keeps_suspend w" and "snd (Reconcile k w []) = xs @ UpdateTaskStatus l r # ys"
  shows "\<exists>t c. scheduled_by w k xs t c \<and> cjs_Suspend (cj_Spec c) = Some False \<and>
    (bst_Phase (bt_Status l) = ''Pending'' \<longleftrightarrow> cjst_Active (cj_Status c) = [] \<and> cjst_LastScheduleTime (cj_Status c) = None)"
proof -
  obtain t c l0 n where t: "scheduled_by w k xs t c" "l = l0\<lparr>bt_Status := reported_status t c n (bt_Status l0)\<rparr>"
    using assms(2) by (rule status_event)
  moreover have "cjs_Suspend (cj_Spec c) = Some False"
    using assms(1) t(1) by (auto simp: scheduled_by_def intro: written_not_suspended)
  ultimately show ?thesis
    by (intro exI [of _ t] exI [of _ c]) (auto simp: phase_table)
qed

theorem suspension_undone_witness:
  "\<exists>t c. scheduled_by live_world (key_of (bt_Meta live_task)) (take 6 live_log) t c \<and> cjs_Suspend (cj_Spec c) = Some False \<and>
    (bst_Phase (bt_Status live_report) = ''Pending'' \<longleftrightarrow> cjst_Active (cj_Status c) = [] \<and> cjst_LastScheduleTime (cj_Status c) = None)"
  by (rule suspension_undone [OF live_keeps_suspend, where ys = "drop 7 live_log"]) (simp add: live_run, simp add: live_log_def)

text \<open>
  The deletion of a task completes: if its cron job is gone or can be deleted, its records can
  be listed and the task can be written, one run removes the finalizer as its last call, whatever
  becomes of the deletions of the records.
\<close>

theorem deletion_completes:
  assumes "w_GetTask w [] k = Inr t" and "deleting t" and "has_finalizer w t"
    and "\<And>h. case w_DeleteCronJob w h (cron_key t) of Inr _ \<Rightarrow> True | Inl e \<Rightarrow> IsNotFound e"
    and "\<And>h. \<exists>rs. w_ListRecords w h (bt_Namespace t) (record_selector t) = Inr rs"
    and "\<And>h. \<exists>t'. w_UpdateTask w h (without_finalizer w t) = Inr t'"
  shows "\<exists>xs t'. Reconcile k w [] = (Inr (Inr zero_result), xs @ [UpdateTask (without_finalizer w t) (Inr t')])
    \<and> unscheduled_by w k xs t"
proof -
  define h where "h = [GetTask k (Inr t)]"
  define a where "a = w_DeleteCronJob w h (cron_key t)"
  have a: "case a of Inr _ \<Rightarrow> True | Inl e \<Rightarrow> IsNotFound e" using assms(4) by (simp add: a_def)
  obtain rs where "w_ListRecords w (h @ [DeleteCronJob (cron_key t) a]) (bt_Namespace t) (record_selector t) = Inr rs"
    using assms(5) by blast
  with a obtain es where fin: "finalizeBackupTask t w h = (Inr (Inr ()), h @ DeleteCronJob (cron_key t) a # es)"
    using finalize_run a_def by blast
  let ?xs = "h @ DeleteCronJob (cron_key t) a # es"
  obtain t' where "w_UpdateTask w ?xs (without_finalizer w t) = Inr t'" using assms(6) by blast
  with fin assms(1-3) have "Reconcile k w [] = (Inr (Inr zero_result), ?xs @ [UpdateTask (without_finalizer w t) (Inr t')])"
    by (simp add: Reconcile_def reconcile_deleted_def go_run h_def)
  moreover have "unscheduled_by w k ?xs t"
    using assms(2,3) a by (auto simp: unscheduled_by_def h_def)
  ultimately show ?thesis by blast
qed

theorem deletion_completes_witness:
  "\<exists>xs t'. Reconcile (key_of (bt_Meta doomed_task)) doomed_world [] =
      (Inr (Inr zero_result), xs @ [UpdateTask (without_finalizer doomed_world doomed_task) (Inr t')])
    \<and> unscheduled_by doomed_world (key_of (bt_Meta doomed_task)) xs doomed_task"
  by (rule deletion_completes)
    (simp_all add: doomed_world_def steady_def deleting_def has_finalizer_def doomed_task_def zero_meta_def zero_task_def)

end
