(* ===== verification/Operator_System.thy ===== *)
theory Operator_System
  imports Task_Lifecycle
begin

text \<open>
  The operator in a cluster.  The objects of a cluster change by the calls of the controller, which
  the API server answers (\<open>legal\<close>: what its documentation allows; \<open>effect\<close>: what a call changes),
  and by everybody else between any two calls (\<open>interference\<close>: users create, edit and delete tasks,
  other controllers work on cron jobs and records).  A cluster is \<open>operated\<close> when any number of
  runs of \<open>Reconcile\<close>, each cut off at any point, are interleaved with interference.  The
  properties hold in every operated cluster.
\<close>

section \<open>Clusters\<close>

record cluster =
  cl_tasks :: "key \<Rightarrow> BackupTask option"
  cl_config_maps :: "key \<Rightarrow> config_map option"
  cl_cron_jobs :: "key \<Rightarrow> cron_job option"
  cl_records :: "BackupRecord list"

definition task_key_of :: "BackupTask \<Rightarrow> key" where
  "task_key_of t = key_of (bt_Meta t)"

definition finalized :: "BackupTask \<Rightarrow> bool" where
  "finalized t \<longleftrightarrow> backupTaskFinalizer \<in> set (om_Finalizers (bt_Meta t))"

text \<open>A task that is being deleted goes when its last finalizer is removed.\<close>

definition store_task :: "BackupTask \<Rightarrow> cluster \<Rightarrow> cluster" where
  "store_task t c = c\<lparr>cl_tasks := (cl_tasks c)(task_key_of t :=
     (if deleting t \<and> om_Finalizers (bt_Meta t) = [] then None else Some t))\<rparr>"

text \<open>
  An update replaces all of a task but its status and its deletion timestamp, a status update
  nothing but the status.
\<close>

definition accepted_update :: "BackupTask \<Rightarrow> BackupTask \<Rightarrow> BackupTask" where
  "accepted_update old t = t\<lparr>bt_Status := bt_Status old,
     bt_Meta := (bt_Meta t)\<lparr>om_DeletionTimestamp := om_DeletionTimestamp (bt_Meta old)\<rparr>\<rparr>"

definition selected :: "string \<Rightarrow> labels \<Rightarrow> object_meta \<Rightarrow> bool" where
  "selected ns ls m \<longleftrightarrow> om_Namespace m = ns \<and> list_all (\<lambda>(k, v). map_of (om_Labels m) k = Some v) ls"

fun legal :: "cluster \<Rightarrow> event \<Rightarrow> bool" where
  "legal c (GetTask k (Inr t)) = (cl_tasks c k = Some t)"
| "legal c (GetTask k (Inl e)) = (IsNotFound e \<longrightarrow> cl_tasks c k = None)"
| "legal c (UpdateTask t (Inr t')) = (case cl_tasks c (task_key_of t) of None \<Rightarrow> False | Some old \<Rightarrow> t' = accepted_update old t)"
| "legal c (UpdateTaskStatus t (Inr t')) =
    (case cl_tasks c (task_key_of t) of None \<Rightarrow> False | Some old \<Rightarrow> t' = old\<lparr>bt_Status := bt_Status t\<rparr>)"
| "legal c (CreateConfigMap m (Inr m')) = (cl_config_maps c (key_of (cm_Meta m)) = None \<and> m' = m)"
| "legal c (CreateConfigMap m (Inl e)) = (IsAlreadyExists e \<longrightarrow> cl_config_maps c (key_of (cm_Meta m)) \<noteq> None)"
| "legal c (UpdateConfigMap m (Inr m')) = (cl_config_maps c (key_of (cm_Meta m)) \<noteq> None \<and> m' = m)"
| "legal c (CreateOrUpdateCronJob j (Inr j')) = (key_of (cj_Meta j') = key_of (cj_Meta j))"
| "legal c (DeleteCronJob k (Inr u)) = (cl_cron_jobs c k \<noteq> None)"
| "legal c (DeleteCronJob k (Inl e)) = (IsNotFound e \<longrightarrow> cl_cron_jobs c k = None)"
| "legal c (ListRecords ns ls (Inr rs)) = (rs = filter (\<lambda>r. selected ns ls (br_Meta r)) (cl_records c))"
| "legal c e = True"

fun effect :: "event \<Rightarrow> cluster \<Rightarrow> cluster" where
  "effect (UpdateTask t (Inr t')) c = store_task t' c"
| "effect (UpdateTaskStatus t (Inr t')) c = store_task t' c"
| "effect (CreateConfigMap m (Inr m')) c = c\<lparr>cl_config_maps := (cl_config_maps c)(key_of (cm_Meta m') := Some m')\<rparr>"
| "effect (UpdateConfigMap m (Inr m')) c = c\<lparr>cl_config_maps := (cl_config_maps c)(key_of (cm_Meta m') := Some m')\<rparr>"
| "effect (CreateOrUpdateCronJob j (Inr j')) c = c\<lparr>cl_cron_jobs := (cl_cron_jobs c)(key_of (cj_Meta j') := Some j')\<rparr>"
| "effect (DeleteCronJob k (Inr u)) c = c\<lparr>cl_cron_jobs := (cl_cron_jobs c)(k := None)\<rparr>"
| "effect (DeleteRecord r (Inr u)) c = c\<lparr>cl_records := filter (\<lambda>x. key_of (br_Meta x) \<noteq> key_of (br_Meta r)) (cl_records c)\<rparr>"
| "effect e c = c"

text \<open>
  What others do.  Nobody else creates a cron job under a name the operator uses or removes its
  finalizer; everything else is free.
\<close>

inductive interference :: "cluster \<Rightarrow> cluster \<Rightarrow> bool" where
  create_task: "cl_tasks c (task_key_of t) = None \<Longrightarrow> \<not> deleting t \<Longrightarrow>
    interference c (c\<lparr>cl_tasks := (cl_tasks c)(task_key_of t := Some t)\<rparr>)"
| edit_task: "cl_tasks c (task_key_of t') = Some t \<Longrightarrow> finalized t \<longrightarrow> finalized t' \<Longrightarrow>
    om_DeletionTimestamp (bt_Meta t') = om_DeletionTimestamp (bt_Meta t) \<Longrightarrow> interference c (store_task t' c)"
| delete_task: "cl_tasks c (task_key_of t) = Some t \<Longrightarrow> n \<noteq> 0 \<Longrightarrow>
    interference c (store_task (t\<lparr>bt_Meta := (bt_Meta t)\<lparr>om_DeletionTimestamp := Some n\<rparr>\<rparr>) c)"
| change_cron_job: "cl_cron_jobs c k \<noteq> None \<Longrightarrow> interference c (c\<lparr>cl_cron_jobs := (cl_cron_jobs c)(k := j)\<rparr>)"
| change_others: "interference c (c\<lparr>cl_config_maps := ms, cl_records := rs\<rparr>)"

text \<open>The cluster while the calls \<open>es\<close> are answered, with interference before, between and after them.\<close>

inductive serves :: "cluster \<Rightarrow> event list \<Rightarrow> cluster \<Rightarrow> bool" where
  idle: "serves c [] c"
| other: "interference c c' \<Longrightarrow> serves c' es c'' \<Longrightarrow> serves c es c''"
| answer: "legal c e \<Longrightarrow> serves (effect e c) es c' \<Longrightarrow> serves c (e # es) c'"

text \<open>The documented behaviour of \<open>controllerutil\<close> on the finalizers of an object.\<close>

definition finalizer_laws :: "world \<Rightarrow> bool" where
  "finalizer_laws w \<longleftrightarrow>
     (\<forall>t f. w_ContainsFinalizer w t f \<longleftrightarrow> f \<in> set (om_Finalizers (bt_Meta t))) \<and>
     (\<forall>t f. w_AddFinalizer w t f = (if f \<in> set (om_Finalizers (bt_Meta t)) then t
        else t\<lparr>bt_Meta := (bt_Meta t)\<lparr>om_Finalizers := om_Finalizers (bt_Meta t) @ [f]\<rparr>\<rparr>)) \<and>
     (\<forall>t f. w_RemoveFinalizer w t f = t\<lparr>bt_Meta := (bt_Meta t)\<lparr>om_Finalizers := removeAll f (om_Finalizers (bt_Meta t))\<rparr>\<rparr>)"

text \<open>
  The runs are one after the other, as a controller with one worker makes them; a run may be cut off
  after any call, when the process dies.
\<close>

inductive operated :: "cluster \<Rightarrow> bool" where
  empty: "cl_tasks c = (\<lambda>k. None) \<Longrightarrow> cl_cron_jobs c = (\<lambda>k. None) \<Longrightarrow> operated c"
| run: "operated c \<Longrightarrow> finalizer_laws w \<Longrightarrow> serves c (take n (snd (Reconcile k w []))) c' \<Longrightarrow> operated c'"

section \<open>The invariant\<close>

definition cron_job_key :: "key \<Rightarrow> key" where
  "cron_job_key k = \<lparr>k_Namespace = k_Namespace k, k_Name = ''backup-'' @ k_Name k\<rparr>"

lemma cron_job_key_inject [simp]: "cron_job_key k = cron_job_key k' \<longleftrightarrow> k = k'"
  by (cases k; cases k') (simp add: cron_job_key_def)

lemma cron_key_task: "cron_key t = cron_job_key (task_key_of t)"
  by (simp add: cron_key_def cron_job_key_def task_key_of_def key_of_def cronJobName_def)

definition protected :: "key \<Rightarrow> cluster \<Rightarrow> bool" where
  "protected k c \<longleftrightarrow> (\<exists>t. cl_tasks c k = Some t \<and> finalized t)"

definition sound_cluster :: "cluster \<Rightarrow> bool" where
  "sound_cluster c \<longleftrightarrow> (\<forall>k t. cl_tasks c k = Some t \<longrightarrow> task_key_of t = k)
     \<and> (\<forall>k. cl_cron_jobs c (cron_job_key k) \<noteq> None \<longrightarrow> protected k c)"

fun stage_sound :: "key \<Rightarrow> cluster \<Rightarrow> stage \<Rightarrow> bool" where
  "stage_sound k c (Claiming t) = (task_key_of t = k)"
| "stage_sound k c (Claimed t) = (task_key_of t = k \<and> protected k c)"
| "stage_sound k c (Colliding t m) = (task_key_of t = k \<and> protected k c)"
| "stage_sound k c (Configured t) = (task_key_of t = k \<and> protected k c)"
| "stage_sound k c (Cleaning t) = (task_key_of t = k)"
| "stage_sound k c (Unscheduled t) = (task_key_of t = k \<and> cl_cron_jobs c (cron_job_key k) = None)"
| "stage_sound k c (Purging t rs) = (task_key_of t = k \<and> cl_cron_jobs c (cron_job_key k) = None)"
| "stage_sound k c s = True"

lemma task_key_simps [simp]:
  "task_key_of (accepted_update old t) = task_key_of t" "finalized (accepted_update old t) = finalized t"
  "task_key_of (t\<lparr>bt_Status := st\<rparr>) = task_key_of t" "finalized (t\<lparr>bt_Status := st\<rparr>) = finalized t"
  "bt_Spec (accepted_update old t) = bt_Spec t"
  by (simp_all add: task_key_of_def accepted_update_def key_of_def finalized_def)

lemma finalizer_keys [simp]:
  assumes "finalizer_laws w"
  shows "task_key_of (with_finalizer w t) = task_key_of t" "finalized (with_finalizer w t)"
    "task_key_of (without_finalizer w t) = task_key_of t" "has_finalizer w t \<longleftrightarrow> finalized t"
    "bt_Spec (with_finalizer w t) = bt_Spec t"
  using assms
  by (simp_all add: finalizer_laws_def with_finalizer_def without_finalizer_def has_finalizer_def task_key_of_def key_of_def finalized_def)

lemma store_task_simps [simp]:
  "cl_cron_jobs (store_task t c) = cl_cron_jobs c" "cl_config_maps (store_task t c) = cl_config_maps c"
  by (simp_all add: store_task_def)

lemma protected_store:
  "protected k (store_task t c) \<longleftrightarrow> (if task_key_of t = k then finalized t else protected k c)"
  by (auto simp: protected_def store_task_def finalized_def)

lemma sound_store:
  assumes "sound_cluster c" and "finalized t \<or> cl_cron_jobs c (cron_job_key (task_key_of t)) = None"
  shows "sound_cluster (store_task t c)"
  using assms unfolding sound_cluster_def protected_store
  by (auto simp: store_task_def split: if_splits)

text \<open>Interference keeps the invariant and what a stage relies on.\<close>

lemma interference_sound:
  assumes "interference c c'" and "sound_cluster c" and "stage_sound k c s"
  shows "sound_cluster c' \<and> stage_sound k c' s"
proof -
  have cron: "cl_cron_jobs c q = None \<Longrightarrow> cl_cron_jobs c' q = None" for q
    using assms(1) by cases auto
  have prot: "protected q c \<Longrightarrow> protected q c'" for q
    using assms(1)
  proof cases
    case (edit_task t' t)
    then show "protected q c \<Longrightarrow> protected q c'" by (auto simp: protected_store) (auto simp: protected_def)
  next
    case (delete_task t n)
    then show "protected q c \<Longrightarrow> protected q c'"
      by (auto simp: protected_store) (auto simp: protected_def finalized_def task_key_of_def key_of_def)
  qed (auto simp: protected_def)
  have keys: "\<forall>q t. cl_tasks c' q = Some t \<longrightarrow> task_key_of t = q"
    using assms(1,2) by cases (auto simp: sound_cluster_def store_task_def split: if_splits)
  have "sound_cluster c'"
    using assms(2) cron prot keys unfolding sound_cluster_def by metis
  moreover have "stage_sound k c' s"
    using assms(3) cron prot by (cases s) auto
  ultimately show ?thesis by blast
qed

text \<open>So does every call of the controller that follows its protocol.\<close>

lemma call_sound:
  assumes "lifecycle w k s e s'" and "legal c e" and "finalizer_laws w" and "sound_cluster c" and "stage_sound k c s"
  shows "sound_cluster (effect e c) \<and> stage_sound k (effect e c) s'"
  using assms(1,2,4,5)
proof (induction rule: lifecycle.induct)
  case (clean t)
  then show ?case by (auto simp: sound_cluster_def)
next
  case (unclaimed t)
  then show ?case by (auto simp: sound_cluster_def)
next
  case (claimed t)
  then show ?case using finalizer_keys(4) [OF assms(3)] by (auto simp: sound_cluster_def protected_def)
next
  case (claim t t')
  then obtain old where "t' = accepted_update old (with_finalizer w t)" by (auto split: option.splits)
  with claim finalizer_keys [OF assms(3)] show ?case
    by (auto simp: protected_store intro!: sound_store)
next
  case (schedule t j)
  then have key: "key_of (cj_Meta j) = cron_job_key k"
    by (simp add: new_cron_job_def key_of_def cron_job_key_def task_key_of_def cronJobName_def) auto
  have "sound_cluster (c\<lparr>cl_cron_jobs := (cl_cron_jobs c)(cron_job_key k := Some j)\<rparr>)"
    using schedule by (auto simp: sound_cluster_def protected_def)
  with key show ?case by simp
next
  case (report t j l l')
  then obtain old where old: "cl_tasks c (task_key_of l) = Some old" "l' = old\<lparr>bt_Status := bt_Status l\<rparr>"
    by (auto split: option.splits)
  then have "task_key_of old = task_key_of l" using report.prems(2) by (auto simp: sound_cluster_def)
  with old report show ?case
    by (auto intro!: sound_store) (auto simp: sound_cluster_def protected_def)
next
  case (unschedule a t)
  then show ?case
    by (cases a) (auto simp: sound_cluster_def protected_def cron_key_task)
next
  case (release t t')
  then obtain old where "t' = accepted_update old (without_finalizer w t)" by (auto split: option.splits)
  with release finalizer_keys [OF assms(3)] show ?case
    by (auto intro!: sound_store)
next
  case (select p rs n)
  then show ?case by (auto split: sum.split)
next
  case (configure t m m')
  then show ?case by (auto simp: sound_cluster_def protected_def)
next
  case (reconfigure t m m')
  then show ?case by (auto simp: sound_cluster_def protected_def)
next
  case (prune d ds a)
  then show ?case by (cases a) (auto simp: sound_cluster_def protected_def)
next
  case (purge t r rs a)
  then show ?case by (cases a) (auto simp: sound_cluster_def protected_def)
qed simp_all

lemma serves_sound:
  assumes "serves c es c'" and "finalizer_laws w" and "path (lifecycle w k) s es s'" and "sound_cluster c" and "stage_sound k c s"
  shows "sound_cluster c'"
  using assms(1,3,4,5)
proof (induction arbitrary: s rule: serves.induct)
  case (idle c)
  then show ?case by simp
next
  case (other c c' es c'')
  then show ?case using interference_sound by blast
next
  case (answer c e es c')
  then obtain s1 where "lifecycle w k s e s1" "path (lifecycle w k) s1 es s'" by auto
  with answer call_sound [OF _ answer.hyps(1) assms(2)] show ?case by blast
qed

lemma Reconcile_prefix_path: "\<exists>s. path (lifecycle w k) Start (take n (snd (Reconcile k w []))) s"
proof -
  obtain s where "reaches (lifecycle w k) Start (snd (Reconcile k w [])) s" using Reconcile_reaches by blast
  then show ?thesis by (rule reaches_prefix)
qed

lemma operated_sound: "operated c \<Longrightarrow> sound_cluster c"
proof (induction rule: operated.induct)
  case (empty c)
  then show ?case by (simp add: sound_cluster_def)
next
  case (run c w n k c')
  then show ?case
    using serves_sound [OF run.hyps(3,2)] Reconcile_prefix_path by (metis stage_sound.simps(8))
qed

section \<open>A cluster without interference\<close>

fun quiet :: "cluster \<Rightarrow> event list \<Rightarrow> bool" where
  "quiet c [] = True"
| "quiet c (e # es) = (legal c e \<and> quiet (effect e c) es)"

definition replay :: "event list \<Rightarrow> cluster \<Rightarrow> cluster" where
  "replay es c = fold effect es c"

lemma replay_simps [simp]: "replay [] c = c" "replay (e # es) c = replay es (effect e c)"
  "replay (es @ fs) c = replay fs (replay es c)"
  by (simp_all add: replay_def)

lemma quiet_append [simp]: "quiet c (es @ fs) \<longleftrightarrow> quiet c es \<and> quiet (replay es c) fs"
  by (induction es arbitrary: c) auto

lemma quiet_serves: "quiet c es \<Longrightarrow> serves c es (replay es c)"
  by (induction es arbitrary: c) (auto intro: serves.intros)

text \<open>What a run has achieved in a stage, when nobody interferes.\<close>

definition config_current :: "BackupTask \<Rightarrow> cluster \<Rightarrow> bool" where
  "config_current t c \<longleftrightarrow> (\<exists>m. createTargetConfigMap t = Inr m \<and> cl_config_maps c (key_of (cm_Meta m)) = Some m)"

definition cron_current :: "world \<Rightarrow> BackupTask \<Rightarrow> cron_job \<Rightarrow> cluster \<Rightarrow> bool" where
  "cron_current w t j c \<longleftrightarrow> written_cron_job w t j \<and> config_current t c \<and> cl_cron_jobs c (cron_key t) = Some j"

definition status_current :: "world \<Rightarrow> BackupTask \<Rightarrow> cron_job \<Rightarrow> cluster \<Rightarrow> bool" where
  "status_current w t j c \<longleftrightarrow> cron_current w t j c \<and> (\<exists>l n st. cl_tasks c (task_key_of t) = Some l \<and> finalized l
     \<and> bt_Spec l = bt_Spec t \<and> bt_Status l = reported_status t j n st)"

definition task_stored :: "key \<Rightarrow> BackupTaskSpec \<Rightarrow> BackupTask \<Rightarrow> cluster \<Rightarrow> bool" where
  "task_stored k sp t c \<longleftrightarrow> task_key_of t = k \<and> finalized t \<and> cl_tasks c k = Some t \<and> bt_Spec t = sp"

definition all_current :: "world \<Rightarrow> key \<Rightarrow> BackupTaskSpec \<Rightarrow> cluster \<Rightarrow> bool" where
  "all_current w k sp c \<longleftrightarrow> (\<exists>t j. task_key_of t = k \<and> bt_Spec t = sp \<and> status_current w t j c)"

fun achieved :: "world \<Rightarrow> key \<Rightarrow> BackupTaskSpec \<Rightarrow> cluster \<Rightarrow> stage \<Rightarrow> bool" where
  "achieved w k sp c Start = (\<forall>t. cl_tasks c k = Some t \<longrightarrow> bt_Spec t = sp)"
| "achieved w k sp c (Claiming t) = (task_key_of t = k \<and> bt_Spec t = sp)"
| "achieved w k sp c (Claimed t) = task_stored k sp t c"
| "achieved w k sp c (Colliding t m) = (task_stored k sp t c \<and> createTargetConfigMap t = Inr m)"
| "achieved w k sp c (Configured t) = (task_stored k sp t c \<and> config_current t c)"
| "achieved w k sp c (Scheduled t j) = (task_stored k sp t c \<and> cron_current w t j c)"
| "achieved w k sp c (Observed t j l) = (task_stored k sp t c \<and> cron_current w t j c \<and> l = t)"
| "achieved w k sp c (Judged t j l) = (task_stored k sp t c \<and> cron_current w t j c \<and>
    (\<exists>n st. l = t\<lparr>bt_Status := reported_status t j n st\<rparr>))"
| "achieved w k sp c (Reported t j) = all_current w k sp c"
| "achieved w k sp c (Listed p rs) = all_current w k sp c"
| "achieved w k sp c (Pruning ds) = all_current w k sp c"
| "achieved w k sp c (Finished (Inr x)) = (x = zero_result \<or> all_current w k sp c)"
| "achieved w k sp c s = True"

lemma all_current_others [simp]:
  "all_current w k sp (c\<lparr>cl_records := rs\<rparr>) = all_current w k sp c"
  by (simp add: all_current_def status_current_def cron_current_def config_current_def)

lemma store_finalized: "finalized t \<Longrightarrow> store_task t c = c\<lparr>cl_tasks := (cl_tasks c)(task_key_of t := Some t)\<rparr>"
  by (auto simp: store_task_def finalized_def)

lemma call_achieves:
  assumes "lifecycle w k s e s'" and "legal c e" and "finalizer_laws w" and "achieved w k sp c s"
    and "\<forall>q t. cl_tasks c q = Some t \<longrightarrow> task_key_of t = q"
  shows "achieved w k sp (effect e c) s'"
  using assms(1,2,4,5)
proof (induction rule: lifecycle.induct)
  case (claimed t)
  then show ?case using finalizer_keys(4) [OF assms(3)] by (auto simp: task_stored_def)
next
  case (claim t t')
  then obtain old where "t' = accepted_update old (with_finalizer w t)" by (auto split: option.splits)
  with claim finalizer_keys [OF assms(3)] show ?case
    by (auto simp: task_stored_def store_finalized)
next
  case (configure t m m')
  then show ?case by (auto simp: task_stored_def config_current_def)
next
  case (reconfigure t m m')
  then show ?case by (auto simp: task_stored_def config_current_def)
next
  case (schedule t j)
  then have "key_of (cj_Meta j) = cron_key t"
    by (simp add: new_cron_job_def key_of_def cron_key_def)
  with schedule show ?case by (auto simp: task_stored_def cron_current_def config_current_def)
next
  case (observe t j l)
  then show ?case by (auto simp: task_stored_def task_key_of_def)
next
  case (judge t j l n)
  then have "task_stored k sp t c \<and> cron_current w t j c \<and> l = t" by simp
  then show ?case unfolding achieved.simps effect.simps by blast
next
  case (report t j l l')
  then obtain n st where t: "task_stored k sp t c" "cron_current w t j c" "l = t\<lparr>bt_Status := reported_status t j n st\<rparr>"
    unfolding achieved.simps by blast
  then have l: "l' = l" "task_key_of l = k" "finalized l" "bt_Spec l = bt_Spec t" "bt_Status l = reported_status t j n st"
    using report.prems(1) by (simp_all add: task_stored_def)
  have "cron_current w t j (store_task l c)"
    using t(2) by (simp add: cron_current_def config_current_def)
  moreover have "cl_tasks (store_task l c) (task_key_of t) = Some l"
    using t(1) l by (simp add: store_finalized task_stored_def)
  ultimately have "status_current w t j (store_task l c)"
    unfolding status_current_def using l by blast
  with t(1) l(1) show ?case unfolding achieved.simps effect.simps all_current_def task_stored_def by blast
next
  case (select p rs n)
  then show ?case by (auto split: sum.split)
next
  case (prune d ds a)
  then show ?case by (cases a) auto
qed auto

lemma quiet_achieves:
  assumes "finalizer_laws w"
  shows "path (lifecycle w k) s es s' \<Longrightarrow> quiet c es \<Longrightarrow> sound_cluster c \<Longrightarrow> stage_sound k c s \<Longrightarrow> achieved w k sp c s
    \<Longrightarrow> achieved w k sp (replay es c) s' \<and> sound_cluster (replay es c)"
proof (induction es arbitrary: s c)
  case (Cons e es)
  from Cons.prems(1) obtain s1 where s1: "lifecycle w k s e s1" "path (lifecycle w k) s1 es s'" by auto
  have "sound_cluster (effect e c) \<and> stage_sound k (effect e c) s1"
    using call_sound [OF s1(1) _ assms] Cons.prems by simp
  moreover have "achieved w k sp (effect e c) s1"
    using call_achieves [OF s1(1) _ assms] Cons.prems by (simp add: sound_cluster_def)
  ultimately show ?case using Cons.IH [OF s1(2)] Cons.prems(2) by simp
qed simp

section \<open>A cluster that serves one client\<close>

text \<open>
  The world of a client that is alone on a cluster that answers every call: the answers are computed
  from the cluster as the events so far have left it.
\<close>

definition memory :: "cluster \<Rightarrow> world" where
  "memory c = \<lparr>
     w_GetTask = (\<lambda>h k. case cl_tasks (replay h c) k of None \<Rightarrow> Inl NotFoundError | Some t \<Rightarrow> Inr t),
     w_UpdateTask = (\<lambda>h t. case cl_tasks (replay h c) (task_key_of t) of
        None \<Rightarrow> Inl NotFoundError | Some old \<Rightarrow> Inr (accepted_update old t)),
     w_UpdateTaskStatus = (\<lambda>h t. case cl_tasks (replay h c) (task_key_of t) of
        None \<Rightarrow> Inl NotFoundError | Some old \<Rightarrow> Inr (old\<lparr>bt_Status := bt_Status t\<rparr>)),
     w_CreateConfigMap = (\<lambda>h m. if cl_config_maps (replay h c) (key_of (cm_Meta m)) = None then Inr m else Inl AlreadyExistsError),
     w_UpdateConfigMap = (\<lambda>h m. if cl_config_maps (replay h c) (key_of (cm_Meta m)) = None then Inl NotFoundError else Inr m),
     w_CreateOrUpdate = (\<lambda>h j f. case f (case cl_cron_jobs (replay h c) (key_of (cj_Meta j)) of
          None \<Rightarrow> j
        | Some old \<Rightarrow> old\<lparr>cj_Meta := (cj_Meta old)\<lparr>om_Name := om_Name (cj_Meta j), om_Namespace := om_Namespace (cj_Meta j)\<rparr>\<rparr>) of
        Inl e \<Rightarrow> Inl e
      | Inr j' \<Rightarrow> if key_of (cj_Meta j') = key_of (cj_Meta j) then Inr j' else Inl (OtherError ''object key changed'')),
     w_CreateOrUpdateTry = (\<lambda>h j f. map_sum id id (f j)),
     w_DeleteCronJob = (\<lambda>h k. if cl_cron_jobs (replay h c) k = None then Inl NotFoundError else Inr ()),
     w_ListRecords = (\<lambda>h ns ls. Inr (filter (\<lambda>r. selected ns ls (br_Meta r)) (cl_records (replay h c)))),
     w_DeleteRecord = (\<lambda>h r. Inr ()), w_GetRecord = (\<lambda>h k. Inl NotFoundError), w_UpdateRecordStatus = (\<lambda>h r. Inr r),
     w_ListJobs = (\<lambda>h ns ls. Inr []), w_ListPods = (\<lambda>h ns ls. Inr []), w_Now = (\<lambda>h. 7), w_ToUpper = id,
     w_ContainsFinalizer = (\<lambda>t f. f \<in> set (om_Finalizers (bt_Meta t))),
     w_AddFinalizer = (\<lambda>t f. if f \<in> set (om_Finalizers (bt_Meta t)) then t
        else t\<lparr>bt_Meta := (bt_Meta t)\<lparr>om_Finalizers := om_Finalizers (bt_Meta t) @ [f]\<rparr>\<rparr>),
     w_RemoveFinalizer = (\<lambda>t f. t\<lparr>bt_Meta := (bt_Meta t)\<lparr>om_Finalizers := removeAll f (om_Finalizers (bt_Meta t))\<rparr>\<rparr>),
     w_SetControllerReference = (\<lambda>t j. Inr (j\<lparr>cj_Meta := (cj_Meta j)\<lparr>om_OwnerReferences :=
        [(''BackupTask'', om_UID (bt_Meta t))]\<rparr>\<rparr>)),
     w_FormatSeconds = (\<lambda>a b. ''1.00''), w_ErrorText = (\<lambda>e. ''error''), w_Recorder = False\<rparr>"

lemma memory_finalizers: "finalizer_laws (memory c)"
  by (simp add: finalizer_laws_def memory_def)

text \<open>An event whose answer is the one the memory gives is legal.\<close>

fun answered_from :: "cluster \<Rightarrow> event list \<Rightarrow> event \<Rightarrow> bool" where
  "answered_from c h (GetTask k a) = (a = w_GetTask (memory c) h k)"
| "answered_from c h (UpdateTask t a) = (a = w_UpdateTask (memory c) h t)"
| "answered_from c h (UpdateTaskStatus t a) = (a = w_UpdateTaskStatus (memory c) h t)"
| "answered_from c h (CreateConfigMap m a) = (a = w_CreateConfigMap (memory c) h m)"
| "answered_from c h (UpdateConfigMap m a) = (a = w_UpdateConfigMap (memory c) h m)"
| "answered_from c h (CreateOrUpdateCronJob j a) = (\<exists>f. a = w_CreateOrUpdate (memory c) h j f)"
| "answered_from c h (DeleteCronJob k a) = (a = w_DeleteCronJob (memory c) h k)"
| "answered_from c h (ListRecords ns ls a) = (a = w_ListRecords (memory c) h ns ls)"
| "answered_from c h (DeleteRecord r a) = (a = w_DeleteRecord (memory c) h r)"
| "answered_from c h e = True"

lemma answered_legal: "answered_from c h e \<Longrightarrow> legal (replay h c) e"
proof (cases e)
  case (CreateOrUpdateCronJob j a)
  moreover assume "answered_from c h e"
  ultimately obtain f where a: "a = w_CreateOrUpdate (memory c) h j f" by auto
  let ?base = "case cl_cron_jobs (replay h c) (key_of (cj_Meta j)) of None \<Rightarrow> j
     | Some old \<Rightarrow> old\<lparr>cj_Meta := (cj_Meta old)\<lparr>om_Name := om_Name (cj_Meta j), om_Namespace := om_Namespace (cj_Meta j)\<rparr>\<rparr>"
  show ?thesis
    unfolding CreateOrUpdateCronJob a by (cases "f ?base") (simp_all add: memory_def)
qed (auto simp: memory_def split: option.splits if_splits elim!: answered_from.elims)

fun recorded :: "cluster \<Rightarrow> event list \<Rightarrow> event list \<Rightarrow> bool" where
  "recorded c h [] = True"
| "recorded c h (e # es) = (answered_from c h e \<and> recorded c (h @ [e]) es)"

lemma recorded_append [simp]: "recorded c h (es @ fs) \<longleftrightarrow> recorded c h es \<and> recorded c (h @ es) fs"
  by (induction es arbitrary: h) auto

lemma recorded_quiet: "recorded c h es \<Longrightarrow> quiet (replay h c) es"
proof (induction es arbitrary: h)
  case (Cons e es)
  then have "quiet (replay (h @ [e]) c) es" by (simp only: recorded.simps)
  with Cons.prems show ?case by (auto intro: answered_legal)
qed simp

text \<open>A function whose calls are answered by the memory only adds such answers to the log.\<close>

definition honest :: "cluster \<Rightarrow> 'a go \<Rightarrow> bool" where
  "honest c m \<longleftrightarrow> runs (memory c) (recorded c []) m (\<lambda>r. recorded c [])"

lemma honest_basic: "honest c (go_return x)" "honest c (go_panic p)" "honest c (go_lift r)" "honest c (go_world f)"
  by (auto simp: honest_def intro: runs_return runs_panic runs_lift runs_world)

lemma honest_call: "(\<And>h. answered_from c h (mk (f (memory c) h))) \<Longrightarrow> honest c (call f mk)"
  unfolding honest_def by (rule runs_call) auto

lemma honest_bind: "honest c m \<Longrightarrow> (\<And>x. honest c (k x)) \<Longrightarrow> honest c (go_bind m k)"
  unfolding honest_def by (rule runs_bind) auto

lemma honest_check: "honest c m \<Longrightarrow> (\<And>x. honest c (k x)) \<Longrightarrow> honest c (go_check m k)"
  unfolding honest_def by (rule runs_check) auto

lemma honest_wrap: "honest c m \<Longrightarrow> honest c (go_wrap msg m)"
  unfolding honest_def by (rule runs_wrap) auto

lemma honest_calls: "honest c (client_GetTask k)" "honest c (client_UpdateTask t)" "honest c (client_UpdateTaskStatus t)"
  "honest c (client_CreateConfigMap m)" "honest c (client_UpdateConfigMap m)" "honest c (client_CreateOrUpdate j f)"
  "honest c (client_DeleteCronJob k)" "honest c (client_ListRecords ns ls)" "honest c (client_DeleteRecord r)" "honest c time_Now"
  unfolding client_defs by (rule honest_call; auto)+

lemma honest_delete_all: "honest c (delete_all ds)"
  unfolding delete_all_def by (induction ds) (auto intro: honest_basic honest_bind honest_calls)

lemmas honest_intros = honest_basic honest_bind honest_check honest_wrap honest_calls honest_delete_all

lemma honest_parts:
  "honest c (createOrUpdateCronJob t)" "honest c (updateBackupTaskStatus t j)" "honest c (applyRetentionPolicy t)"
  "honest c (finalizeBackupTask t)" "honest c (ensure_finalizer t)" "honest c (ensure_config_map t)"
  unfolding createOrUpdateCronJob_def updateBackupTaskStatus_def updateConditions_def applyRetentionPolicy_def
    finalizeBackupTask_def ensure_finalizer_def ensure_config_map_def Let_def
  by (auto intro!: honest_intros split: option.split sum.split)

lemma honest_Reconcile: "honest c (Reconcile k)"
proof -
  have event: "honest c (recorder_Eventf t a b m e)" for t a b m e
    unfolding recorder_Eventf_def by (auto intro!: honest_intros honest_call)
  have work: "honest c (reconcileBackupTask t)" for t
    unfolding reconcileBackupTask_def Let_def by (auto intro!: honest_intros honest_parts)
  have dead: "honest c (reconcile_deleted t)" for t
    unfolding reconcile_deleted_def by (auto intro!: honest_intros honest_parts)
  show ?thesis
    unfolding Reconcile_def by (auto intro!: honest_intros honest_parts event work dead split: sum.split)
qed

lemma recorded_Reconcile: "recorded c [] (snd (Reconcile k (memory c) []))"
  using honest_Reconcile [of c k] by (simp add: honest_def runs_def)

lemma quiet_Reconcile: "quiet c (snd (Reconcile k (memory c) []))"
  using recorded_quiet [OF recorded_Reconcile] by simp

subsection \<open>A live task\<close>

text \<open>What keeps a run for a live task from failing on such a cluster.\<close>

fun live_track :: "key \<Rightarrow> cluster \<Rightarrow> stage \<Rightarrow> bool" where
  "live_track k c Start = (case cl_tasks c k of None \<Rightarrow> False | Some t \<Rightarrow> \<not> deleting t)"
| "live_track k c (Claiming t) = (cl_tasks c k \<noteq> None)"
| "live_track k c (Colliding t m) = (cl_config_maps c (key_of (cm_Meta m)) \<noteq> None)"
| "live_track k c (Cleaning t) = False"
| "live_track k c (Unscheduled t) = False"
| "live_track k c (Purging t rs) = False"
| "live_track k c (Broken t e) = False"
| "live_track k c (Finished r) = (case r of Inl e \<Rightarrow> False | Inr x \<Rightarrow> x \<noteq> zero_result)"
| "live_track k c (Crashed p) = (p = SliceOutOfRange)"
| "live_track k c s = True"

lemma memory_accepts: "\<not> refused_cron_job (memory c) t e"
proof -
  have "mutate_cron_job u (w_SetControllerReference (memory c)) t j = Inr (j\<lparr>cj_Meta := (cj_Meta j)\<lparr>om_OwnerReferences :=
      [(''BackupTask'', om_UID (bt_Meta t))]\<rparr>, cj_Spec := buildCronJobSpec u t\<rparr>)" for u j
    by (simp add: mutate_cron_job_def memory_def)
  then show ?thesis
    by (auto simp: refused_cron_job_def memory_def key_of_def split: option.split)
qed

lemma five_not_zero: "five_minutes \<noteq> zero_result"
  by (simp add: five_minutes_def zero_result_def)

lemma live_step:
  assumes "lifecycle (memory c0) k s e s'" and "answered_from c0 h e"
    and "achieved (memory c0) k sp (replay h c0) s" and "live_track k (replay h c0) s"
  shows "live_track k (replay (h @ [e]) c0) s'"
  using assms
proof (induction rule: lifecycle.induct)
  case (absent e)
  then show ?case by (auto simp: memory_def split: option.splits)
next
  case (released t)
  then show ?case by (auto simp: memory_def split: option.splits)
next
  case (clean t)
  then show ?case by (auto simp: memory_def split: option.splits)
next
  case (unclaimed t)
  then show ?case by (auto simp: memory_def split: option.splits)
next
  case (claim_failed t e)
  have "task_key_of (with_finalizer (memory c0) t) = k"
    using claim_failed.prems finalizer_keys(1) [OF memory_finalizers] by simp
  with claim_failed show ?case by (auto simp: memory_def split: option.splits)
next
  case (config_exists t m e)
  then show ?case by (auto simp: memory_def split: if_splits)
next
  case (config_failed t m e)
  then show ?case by (auto simp: memory_def split: if_splits)
next
  case (reconfigure_failed t m e)
  then show ?case by (auto simp: memory_def split: if_splits)
next
  case (schedule_failed t e)
  then show ?case using memory_accepts by blast
next
  case (observe_failed t j e)
  then show ?case by (auto simp: memory_def task_stored_def task_key_of_def split: option.splits)
next
  case (report_failed t j l e)
  then show ?case by (auto simp: memory_def task_stored_def split: option.splits)
next
  case (review_failed j t p e)
  then show ?case by (simp add: five_not_zero)
next
  case (select p rs n)
  then show ?case by (auto simp: filterRecordsToDelete_cases split: sum.splits if_splits)
qed auto

lemma track:
  assumes "\<And>h s e s'. lifecycle (memory c0) k s e s' \<Longrightarrow> answered_from c0 h e \<Longrightarrow> achieved (memory c0) k sp (replay h c0) s
      \<Longrightarrow> T (replay h c0) s \<Longrightarrow> T (replay (h @ [e]) c0) s'"
    and "path (lifecycle (memory c0) k) s es s'" and "recorded c0 h es" and "sound_cluster (replay h c0)"
    and "stage_sound k (replay h c0) s" and "achieved (memory c0) k sp (replay h c0) s" and "T (replay h c0) s"
  shows "achieved (memory c0) k sp (replay (h @ es) c0) s' \<and> T (replay (h @ es) c0) s'"
  using assms(2-)
proof (induction es arbitrary: s h)
  case (Cons e es)
  from Cons.prems(1) obtain s1 where s1: "lifecycle (memory c0) k s e s1" "path (lifecycle (memory c0) k) s1 es s'" by auto
  have e: "answered_from c0 h e" "recorded c0 (h @ [e]) es" using Cons.prems(2) by simp_all
  then have l: "legal (replay h c0) e" by (simp add: answered_legal)
  have "sound_cluster (replay (h @ [e]) c0) \<and> stage_sound k (replay (h @ [e]) c0) s1"
    using call_sound [OF s1(1) l memory_finalizers] Cons.prems by simp
  moreover have "achieved (memory c0) k sp (replay (h @ [e]) c0) s1"
    using call_achieves [OF s1(1) l memory_finalizers] Cons.prems by (simp add: sound_cluster_def)
  moreover have "T (replay (h @ [e]) c0) s1"
    by (rule assms(1) [OF s1(1) e(1) Cons.prems(5,6)])
  ultimately show ?case using Cons.IH [OF s1(2) e(2)] by (simp del: replay_simps)
qed simp

lemma memory_run:
  assumes "\<And>h s e s'. lifecycle (memory c) k s e s' \<Longrightarrow> answered_from c h e \<Longrightarrow> achieved (memory c) k sp (replay h c) s
      \<Longrightarrow> T (replay h c) s \<Longrightarrow> T (replay (h @ [e]) c) s'"
    and "sound_cluster c" and "\<forall>t. cl_tasks c k = Some t \<longrightarrow> bt_Spec t = sp" and "T c Start"
  obtains s where "achieved (memory c) k sp (replay (snd (Reconcile k (memory c) [])) c) s"
    and "T (replay (snd (Reconcile k (memory c) [])) c) s" and "outcome (memory c) s (fst (Reconcile k (memory c) []))"
proof -
  let ?h = "snd (Reconcile k (memory c) [])"
  obtain s where s: "reaches (lifecycle (memory c) k) Start ([] @ ?h) s" "outcome (memory c) s (fst (Reconcile k (memory c) []))"
    using Reconcile_reaches by fastforce
  from reaches_split [OF s(1)] have p: "path (lifecycle (memory c) k) Start ?h s"
    by (auto elim: reaches.cases)
  have "achieved (memory c) k sp (replay ([] @ ?h) c) s \<and> T (replay ([] @ ?h) c) s"
    by (rule track [where T = T, OF assms(1) p recorded_Reconcile]) (use assms(2-4) in simp_all)
  then have "achieved (memory c) k sp (replay ?h c) s" "T (replay ?h c) s" by simp_all
  then show thesis using that s(2) by blast
qed

subsection \<open>A task being deleted\<close>

definition doomed :: "key \<Rightarrow> string list \<Rightarrow> BackupTask \<Rightarrow> cluster \<Rightarrow> bool" where
  "doomed k fs t c \<longleftrightarrow> task_key_of t = k \<and> deleting t \<and> finalized t \<and> om_Finalizers (bt_Meta t) = fs \<and> cl_tasks c k = Some t"

text \<open>The records of the task \<open>k\<close>: those with its label in its namespace.\<close>

definition record_of :: "key \<Rightarrow> BackupRecord \<Rightarrow> bool" where
  "record_of k r \<longleftrightarrow> selected (k_Namespace k) [(backupTaskLabelKey, k_Name k)] (br_Meta r)"

fun doomed_track :: "key \<Rightarrow> (key \<Rightarrow> config_map option) \<Rightarrow> string list \<Rightarrow> cluster \<Rightarrow> stage \<Rightarrow> bool" where
  "doomed_track k ms fs c Start = (cl_config_maps c = ms \<and> (\<exists>t. doomed k fs t c))"
| "doomed_track k ms fs c (Cleaning t) = (cl_config_maps c = ms \<and> doomed k fs t c)"
| "doomed_track k ms fs c (Unscheduled t) =
    (cl_config_maps c = ms \<and> doomed k fs t c \<and> cl_cron_jobs c (cron_job_key k) = None)"
| "doomed_track k ms fs c (Purging t rs) =
    (cl_config_maps c = ms \<and> doomed k fs t c \<and> cl_cron_jobs c (cron_job_key k) = None
      \<and> (\<forall>r \<in> set (cl_records c). record_of k r \<longrightarrow> key_of (br_Meta r) \<in> (\<lambda>r. key_of (br_Meta r)) ` set rs))"
| "doomed_track k ms fs c (Finished x) =
    (cl_config_maps c = ms \<and> x = Inr zero_result \<and> cl_cron_jobs c (cron_job_key k) = None
      \<and> (\<forall>r \<in> set (cl_records c). \<not> record_of k r) \<and> \<not> protected k c
      \<and> (cl_tasks c k = None \<longleftrightarrow> removeAll backupTaskFinalizer fs = []))"
| "doomed_track k ms fs c s = False"

lemma doomed_simps:
  assumes "doomed k fs t c"
  shows "bt_Namespace t = k_Namespace k" "record_selector t = [(backupTaskLabelKey, k_Name k)]" "cron_key t = cron_job_key k"
  using assms by (auto simp: doomed_def record_selector_def cron_key_task task_key_of_def key_of_def)

lemma doomed_others: "cl_tasks c' = cl_tasks c \<Longrightarrow> doomed k fs t c' = doomed k fs t c"
  by (simp add: doomed_def)

lemma accepted_without:
  assumes "doomed k fs t c" and "finalizer_laws w"
  shows "accepted_update t (without_finalizer w t) = t\<lparr>bt_Meta := (bt_Meta t)\<lparr>om_Finalizers := removeAll backupTaskFinalizer fs\<rparr>\<rparr>"
  using assms by (simp add: accepted_update_def without_finalizer_def finalizer_laws_def doomed_def)

lemma doomed_step:
  assumes "lifecycle (memory c0) k s e s'" and "answered_from c0 h e" and "doomed_track k ms fs (replay h c0) s"
  shows "doomed_track k ms fs (replay (h @ [e]) c0) s'"
  using assms
proof (induction rule: lifecycle.induct)
  case (absent e)
  then show ?case by (auto simp: memory_def doomed_def split: option.splits)
next
  case (released t)
  then show ?case
    using finalizer_keys(4) [OF memory_finalizers] by (auto simp: memory_def doomed_def split: option.splits)
next
  case (clean t)
  then show ?case by (auto simp: memory_def doomed_def split: option.splits)
next
  case (unclaimed t)
  then show ?case by (auto simp: memory_def doomed_def split: option.splits)
next
  case (claimed t)
  then show ?case by (auto simp: memory_def doomed_def split: option.splits)
next
  case (unschedule a t)
  then have d: "doomed k fs t (replay h c0)" by simp
  show ?case
  proof (cases "cl_cron_jobs (replay h c0) (cron_key t) = None")
    case True
    then have "a = Inl NotFoundError" using unschedule by (simp add: memory_def)
    with True unschedule.prems(2) show ?thesis by (simp add: doomed_simps [OF d])
  next
    case False
    then have "a = Inr ()" using unschedule by (simp add: memory_def)
    with unschedule.prems(2) show ?thesis by (simp add: doomed_simps [OF d] doomed_def)
  qed
next
  case (unschedule_failed e t)
  then show ?case by (auto simp: memory_def split: if_splits)
next
  case (survey t rs)
  then have d: "doomed k fs t (replay h c0)" by simp
  have "record_of k = (\<lambda>r. selected (k_Namespace k) [(backupTaskLabelKey, k_Name k)] (br_Meta r))"
    by (simp add: fun_eq_iff record_of_def)
  then have "rs = filter (record_of k) (cl_records (replay h c0))"
    using survey by (simp add: memory_def doomed_simps [OF d])
  with survey show ?case by auto
next
  case (survey_failed t e)
  then show ?case by (auto simp: memory_def)
next
  case (purge t r rs a)
  then have a: "a = Inr ()" by (simp add: memory_def)
  have "doomed k fs t (replay h c0)" using purge.prems(2) by simp
  then have d: "doomed k fs t (replay (h @ [DeleteRecord r a]) c0)"
    unfolding a by (rule subst [OF sym [OF doomed_others], rotated]) simp
  have "key_of (br_Meta x) \<in> (\<lambda>r. key_of (br_Meta r)) ` set rs"
    if "x \<in> set (cl_records (replay (h @ [DeleteRecord r a]) c0))" "record_of k x" for x
    using that purge.prems(2) a by fastforce
  with d purge.prems(2) a show ?case by simp
next
  case (release t t')
  then have d: "doomed k fs t (replay h c0)" by simp
  let ?t = "t\<lparr>bt_Meta := (bt_Meta t)\<lparr>om_Finalizers := removeAll backupTaskFinalizer fs\<rparr>\<rparr>"
  have "task_key_of (without_finalizer (memory c0) t) = k"
    using d finalizer_keys(3) [OF memory_finalizers] by (simp add: doomed_def)
  with release d have t': "t' = ?t"
    using accepted_without [OF d memory_finalizers] by (auto simp: memory_def doomed_def split: option.splits)
  have "task_key_of ?t = k" "\<not> finalized ?t" "deleting ?t"
    using d by (simp_all add: doomed_def task_key_of_def key_of_def finalized_def deleting_def)
  moreover have "replay (h @ [UpdateTask (without_finalizer (memory c0) t) (Inr t')]) c0 = store_task ?t (replay h c0)"
    using t' by simp
  ultimately show ?case
    using release.prems(2) by (simp add: protected_store) (auto simp: store_task_def)
next
  case (release_failed t e)
  then have d: "doomed k fs t (replay h c0)" by simp
  have "task_key_of (without_finalizer (memory c0) t) = k"
    using d finalizer_keys(3) [OF memory_finalizers] by (simp add: doomed_def)
  with release_failed d show ?case by (auto simp: memory_def doomed_def split: option.splits)
qed auto

section \<open>An example\<close>

definition demo_task :: BackupTask where
  "demo_task = zero_task\<lparr>bt_Meta := zero_meta\<lparr>om_Name := ''t'', om_Finalizers := [backupTaskFinalizer]\<rparr>\<rparr>"

definition demo_key :: key where
  "demo_key = \<lparr>k_Namespace = [], k_Name = ''t''\<rparr>"

definition empty_cluster :: cluster where
  "empty_cluster = \<lparr>cl_tasks = (\<lambda>k. None), cl_config_maps = (\<lambda>k. None), cl_cron_jobs = (\<lambda>k. None), cl_records = []\<rparr>"

definition demo_cluster :: cluster where
  "demo_cluster = empty_cluster\<lparr>cl_tasks := [demo_key \<mapsto> demo_task]\<rparr>"

definition demo_config_map :: config_map where
  "demo_config_map = (case createTargetConfigMap demo_task of Inr m \<Rightarrow> m | Inl e \<Rightarrow> \<lparr>cm_Meta = zero_meta, cm_Data = []\<rparr>)"

definition demo_cron_job :: cron_job where
  "demo_cron_job = (new_cron_job demo_task)\<lparr>cj_Spec := buildCronJobSpec id demo_task,
     cj_Meta := (cj_Meta (new_cron_job demo_task))\<lparr>om_OwnerReferences := [(''BackupTask'', [])]\<rparr>\<rparr>"

definition demo_report :: BackupTask where
  "demo_report = demo_task\<lparr>bt_Status := reported_status demo_task demo_cron_job 7 (bt_Status demo_task)\<rparr>"

definition demo_log :: "event list" where
  "demo_log = [GetTask demo_key (Inr demo_task), CreateConfigMap demo_config_map (Inr demo_config_map),
     CreateOrUpdateCronJob (new_cron_job demo_task) (Inr demo_cron_job), GetTask demo_key (Inr demo_task), Now 7,
     UpdateTaskStatus demo_report (Inr demo_report)]"

lemma demo_facts:
  "task_key_of demo_task = demo_key" "key_of (bt_Meta demo_task) = demo_key" "\<not> deleting demo_task" "finalized demo_task"
  "bts_Retention (bt_Spec demo_task) = None" "om_UID (bt_Meta demo_task) = []"
  by (simp_all add: task_key_of_def key_of_def demo_key_def demo_task_def zero_task_def zero_meta_def deleting_def finalized_def
      zero_task_spec_def)

lemma demo_config: "createTargetConfigMap demo_task = Inr demo_config_map"
  using createTargetConfigMap_total [of demo_task] by (auto simp: demo_config_map_def)

lemma demo_mutation:
  "mutate_cron_job id (w_SetControllerReference (memory c)) demo_task (new_cron_job demo_task) = Inr demo_cron_job"
  by (simp add: mutate_cron_job_def memory_def demo_cron_job_def demo_facts)

lemma demo_replay:
  "cl_tasks demo_cluster demo_key = Some demo_task" "cl_config_maps demo_cluster = (\<lambda>k. None)" "cl_cron_jobs demo_cluster = (\<lambda>k. None)"
  by (simp_all add: demo_cluster_def empty_cluster_def)

lemma demo_answers:
  "w_GetTask (memory demo_cluster) h demo_key = (case cl_tasks (replay h demo_cluster) demo_key of None \<Rightarrow> Inl NotFoundError | Some t \<Rightarrow> Inr t)"
  "w_CreateConfigMap (memory demo_cluster) h m = (if cl_config_maps (replay h demo_cluster) (key_of (cm_Meta m)) = None then Inr m else Inl AlreadyExistsError)"
  "w_UpdateTaskStatus (memory demo_cluster) h t = (case cl_tasks (replay h demo_cluster) (task_key_of t) of
        None \<Rightarrow> Inl NotFoundError | Some old \<Rightarrow> Inr (old\<lparr>bt_Status := bt_Status t\<rparr>))"
  "w_Now (memory demo_cluster) h = 7" "w_ToUpper (memory demo_cluster) = id"
  "has_finalizer (memory demo_cluster) t = finalized t"
  by (simp_all add: memory_def has_finalizer_def finalized_def)

lemma demo_write:
  "cl_cron_jobs (replay h demo_cluster) (key_of (cj_Meta (new_cron_job demo_task))) = None \<Longrightarrow>
    w_CreateOrUpdate (memory demo_cluster) h (new_cron_job demo_task)
      (mutate_cron_job id (w_SetControllerReference (memory demo_cluster)) demo_task) = Inr demo_cron_job"
  using demo_mutation [of demo_cluster]
  by (simp add: memory_def) (simp add: demo_cron_job_def key_of_def)

lemma demo_status: "demo_task\<lparr>bt_Status := (observed_status demo_task demo_cron_job (bt_Status demo_task))
     \<lparr>bst_Conditions := conditions_at 7 (observed_status demo_task demo_cron_job (bt_Status demo_task))\<rparr>\<rparr> = demo_report"
  by (simp add: demo_report_def reported_status_def Let_def)

lemma demo_inactive: "cjst_Active (cj_Status demo_cron_job) = []"
  by (simp add: demo_cron_job_def new_cron_job_def zero_cron_job_status_def)

lemma demo_report_facts: "task_key_of demo_report = demo_key" "demo_task\<lparr>bt_Status := bt_Status demo_report\<rparr> = demo_report"
  by (simp_all add: demo_report_def demo_facts)

lemma demo_run: "Reconcile demo_key (memory demo_cluster) [] = (Inr (Inr five_minutes), demo_log)"
  by (simp add: run_defs demo_answers demo_replay demo_facts demo_config demo_write demo_inactive demo_status demo_report_facts
      calculateNextSchedule_def seconds_def demo_log_def five_minutes_def)

lemma demo_sound: "sound_cluster demo_cluster"
  by (auto simp: sound_cluster_def demo_cluster_def empty_cluster_def demo_facts)

lemma demo_operated: "operated (replay demo_log demo_cluster)"
proof -
  have "interference empty_cluster demo_cluster"
    using interference.create_task [of empty_cluster demo_task]
    by (simp add: demo_cluster_def empty_cluster_def demo_facts)
  then have "serves empty_cluster (take 0 (snd (Reconcile demo_key (memory empty_cluster) []))) demo_cluster"
    by (auto intro: serves.intros)
  moreover have "operated empty_cluster"
    by (rule operated.empty) (simp_all add: empty_cluster_def)
  ultimately have start: "operated demo_cluster"
    using operated.run memory_finalizers by blast
  have "serves demo_cluster demo_log (replay demo_log demo_cluster)"
    using quiet_Reconcile [of demo_cluster demo_key] by (simp add: demo_run quiet_serves)
  then show ?thesis
    using operated.run [OF start memory_finalizers, of "length demo_log" demo_key demo_cluster] by (simp add: demo_run)
qed

lemma demo_scheduled: "cl_cron_jobs (replay demo_log demo_cluster) \<lparr>k_Namespace = [], k_Name = ''backup-t''\<rparr> = Some demo_cron_job"
  by (simp add: demo_log_def) (simp add: demo_cron_job_def new_cron_job_def key_of_def demo_task_def cronJobName_def zero_task_def
      zero_meta_def)

text \<open>The same task being deleted, with its cron job and one record.\<close>

definition deleted_task :: BackupTask where
  "deleted_task = demo_task\<lparr>bt_Meta := (bt_Meta demo_task)\<lparr>om_DeletionTimestamp := Some 3\<rparr>\<rparr>"

definition demo_record :: BackupRecord where
  "demo_record = zero_record\<lparr>br_Meta := zero_meta\<lparr>om_Name := ''r'', om_Labels := [(backupTaskLabelKey, ''t'')]\<rparr>\<rparr>"

definition deleted_cluster :: cluster where
  "deleted_cluster = \<lparr>cl_tasks = [demo_key \<mapsto> deleted_task], cl_config_maps = [\<lparr>k_Namespace = [], k_Name = ''t-targets''\<rparr> \<mapsto> demo_config_map],
     cl_cron_jobs = [cron_job_key demo_key \<mapsto> demo_cron_job], cl_records = [demo_record]\<rparr>"

lemma deleted_facts: "task_key_of deleted_task = demo_key" "deleting deleted_task" "finalized deleted_task"
  by (simp_all add: deleted_task_def task_key_of_def key_of_def demo_key_def demo_task_def zero_task_def zero_meta_def deleting_def
      finalized_def)

lemma deleted_sound: "sound_cluster deleted_cluster"
  by (auto simp: sound_cluster_def deleted_cluster_def deleted_facts protected_def split: if_splits)

section \<open>Properties\<close>

text \<open>
  C2: no cron job is ever orphaned.  Whatever users and other controllers do between the calls,
  whatever calls fail, and wherever runs are cut off: while the cron job of a task exists, the task
  exists and carries the finalizer.
\<close>

theorem no_orphaned_cron_job:
  assumes "operated c" and "cl_cron_jobs c \<lparr>k_Namespace = ns, k_Name = ''backup-'' @ name\<rparr> \<noteq> None"
  shows "\<exists>t. cl_tasks c \<lparr>k_Namespace = ns, k_Name = name\<rparr> = Some t \<and> backupTaskFinalizer \<in> set (om_Finalizers (bt_Meta t))"
proof -
  let ?k = "\<lparr>k_Namespace = ns, k_Name = name\<rparr>"
  have "cl_cron_jobs c (cron_job_key ?k) \<noteq> None" using assms(2) by (simp add: cron_job_key_def)
  with operated_sound [OF assms(1)] show ?thesis
    unfolding sound_cluster_def protected_def finalized_def by blast
qed

theorem no_orphaned_cron_job_witness:
  "operated (replay demo_log demo_cluster)
    \<and> cl_cron_jobs (replay demo_log demo_cluster) \<lparr>k_Namespace = [], k_Name = ''backup-'' @ ''t''\<rparr> \<noteq> None
    \<and> (\<exists>t. cl_tasks (replay demo_log demo_cluster) \<lparr>k_Namespace = [], k_Name = ''t''\<rparr> = Some t
        \<and> backupTaskFinalizer \<in> set (om_Finalizers (bt_Meta t)))"
  using no_orphaned_cron_job [OF demo_operated, of "[]" "''t''"] demo_operated demo_scheduled by simp

text \<open>
  C11: when nobody interferes and a run ends by asking to be repeated later, then whatever calls
  failed on the way the cluster is as the task wants it: the config map holds its targets, its cron
  job is the one written for it, and its status is the one reported for that cron job.
\<close>

theorem requeued_run_achieves:
  assumes "finalizer_laws w" and "sound_cluster c" and "cl_tasks c k = Some t0"
    and "quiet c (snd (Reconcile k w []))" and "fst (Reconcile k w []) = Inr (Inr x)" and "x \<noteq> zero_result"
  shows "\<exists>t j. task_key_of t = k \<and> bt_Spec t = bt_Spec t0 \<and> status_current w t j (replay (snd (Reconcile k w [])) c)"
proof -
  let ?h = "snd (Reconcile k w [])"
  obtain s where s: "reaches (lifecycle w k) Start ([] @ ?h) s" "outcome w s (fst (Reconcile k w []))"
    using Reconcile_reaches by fastforce
  from reaches_split [OF s(1)] have p: "path (lifecycle w k) Start ?h s"
    by (auto elim: reaches.cases)
  have "achieved w k (bt_Spec t0) (replay ?h c) s"
    using quiet_achieves [OF assms(1) p assms(4,2)] assms(3) by simp
  with s(2) assms(5,6) show ?thesis
    by (auto simp: all_current_def elim: outcome.cases)
qed

theorem requeued_run_achieves_witness:
  "finalizer_laws (memory demo_cluster) \<and> sound_cluster demo_cluster \<and> quiet demo_cluster demo_log
    \<and> Reconcile demo_key (memory demo_cluster) [] = (Inr (Inr five_minutes), demo_log)
    \<and> (\<exists>t j. task_key_of t = demo_key \<and> bt_Spec t = bt_Spec demo_task
        \<and> status_current (memory demo_cluster) t j (replay demo_log demo_cluster))"
  using requeued_run_achieves [OF memory_finalizers demo_sound demo_replay(1) quiet_Reconcile, of five_minutes]
    quiet_Reconcile [of demo_cluster demo_key] memory_finalizers demo_sound
  by (simp add: demo_run five_not_zero)

text \<open>
  C7: on a cluster that answers every call, one run for a live task always gets there: it does not
  fail, and unless a negative retention count makes it panic it ends with the config map, the cron
  job and the status of the task in place.
\<close>

theorem live_task_converges:
  assumes "sound_cluster c" and "cl_tasks c k = Some t0" and "\<not> deleting t0"
  shows "case Reconcile k (memory c) [] of
      (Inl p, h) \<Rightarrow> p = SliceOutOfRange
    | (Inr (Inl e), h) \<Rightarrow> False
    | (Inr (Inr x), h) \<Rightarrow> \<exists>t j. task_key_of t = k \<and> bt_Spec t = bt_Spec t0 \<and> status_current (memory c) t j (replay h c)"
proof -
  obtain s where s: "achieved (memory c) k (bt_Spec t0) (replay (snd (Reconcile k (memory c) [])) c) s"
    "live_track k (replay (snd (Reconcile k (memory c) [])) c) s" "outcome (memory c) s (fst (Reconcile k (memory c) []))"
    by (rule memory_run [where T = "live_track k" and sp = "bt_Spec t0" and c = c and k = k])
      (use assms live_step in auto)
  obtain r h where run: "Reconcile k (memory c) [] = (r, h)" by fastforce
  from s(3) show ?thesis
    unfolding run by cases (use s(1,2) run in \<open>auto simp: all_current_def split: sum.splits\<close>)
qed

theorem live_task_converges_witness:
  "sound_cluster demo_cluster \<and> \<not> deleting demo_task
    \<and> (\<exists>t j. task_key_of t = demo_key \<and> bt_Spec t = bt_Spec demo_task
        \<and> status_current (memory demo_cluster) t j (replay demo_log demo_cluster))"
  using live_task_converges [OF demo_sound demo_replay(1) demo_facts(3)] demo_sound demo_facts(3)
  by (simp add: demo_run)

text \<open>
  C6: on such a cluster one run for a task being deleted cleans up: it ends without requeue, the
  cron job and the records of the task are gone, the finalizer is off, and the task is gone if it had
  no other finalizer.  The config map of the task stays.
\<close>

theorem deleted_task_cleaned_up:
  assumes "sound_cluster c" and "cl_tasks c k = Some t" and "deleting t" and "finalized t"
  shows "case Reconcile k (memory c) [] of (r, h) \<Rightarrow>
    r = Inr (Inr zero_result) \<and> cl_cron_jobs (replay h c) (cron_job_key k) = None
    \<and> filter (record_of k) (cl_records (replay h c)) = [] \<and> \<not> protected k (replay h c)
    \<and> (cl_tasks (replay h c) k = None \<longleftrightarrow> removeAll backupTaskFinalizer (om_Finalizers (bt_Meta t)) = [])
    \<and> cl_config_maps (replay h c) = cl_config_maps c"
proof -
  let ?T = "doomed_track k (cl_config_maps c) (om_Finalizers (bt_Meta t))"
  have "doomed k (om_Finalizers (bt_Meta t)) t c"
    using assms by (simp add: doomed_def sound_cluster_def)
  then have start: "?T c Start" by auto
  obtain s where s: "?T (replay (snd (Reconcile k (memory c) [])) c) s" "outcome (memory c) s (fst (Reconcile k (memory c) []))"
    by (rule memory_run [where T = ?T and sp = "bt_Spec t" and c = c and k = k, OF doomed_step assms(1) _ start])
      (use assms(2) in auto)
  obtain r h where run: "Reconcile k (memory c) [] = (r, h)" by fastforce
  from s(2) show ?thesis
    unfolding run by cases (use s(1) run in \<open>auto simp: filter_empty_conv\<close>)
qed

theorem deleted_task_cleaned_up_witness:
  "sound_cluster deleted_cluster \<and> cl_tasks deleted_cluster demo_key = Some deleted_task \<and> deleting deleted_task
    \<and> finalized deleted_task \<and> cl_cron_jobs deleted_cluster (cron_job_key demo_key) \<noteq> None
    \<and> filter (record_of demo_key) (cl_records deleted_cluster) \<noteq> []
    \<and> (case Reconcile demo_key (memory deleted_cluster) [] of (r, h) \<Rightarrow>
        r = Inr (Inr zero_result) \<and> cl_cron_jobs (replay h deleted_cluster) (cron_job_key demo_key) = None
        \<and> filter (record_of demo_key) (cl_records (replay h deleted_cluster)) = []
        \<and> cl_tasks (replay h deleted_cluster) demo_key = None
        \<and> cl_config_maps (replay h deleted_cluster) = cl_config_maps deleted_cluster)"
proof -
  have task: "cl_tasks deleted_cluster demo_key = Some deleted_task" by (simp add: deleted_cluster_def)
  have last: "removeAll backupTaskFinalizer (om_Finalizers (bt_Meta deleted_task)) = []"
    by (simp add: deleted_task_def demo_task_def)
  have objects: "cl_cron_jobs deleted_cluster (cron_job_key demo_key) \<noteq> None" "filter (record_of demo_key) (cl_records deleted_cluster) \<noteq> []"
    by (simp_all add: deleted_cluster_def demo_record_def record_of_def selected_def demo_key_def zero_meta_def zero_record_def)
  from deleted_task_cleaned_up [OF deleted_sound task deleted_facts(2,3)] last task objects deleted_sound deleted_facts(2,3)
  show ?thesis by (auto split: prod.splits)
qed

end
