(* ===== verification/Legacy_Constants.thy ===== *)
theory Legacy_Constants
  imports Main
begin

text \<open>
  The constants of package \<open>controllers\<close> (\<open>controllers/constants.go\<close>), the older of the two
  controller packages, which also holds the only implementation of the record controller.  They are
  declared apart from those of \<open>internal/controller\<close>, with the prefix \<open>lc_\<close>.
\<close>

named_theorems lc_consts

definition lc_backupTaskFinalizer :: string where [lc_consts]: "lc_backupTaskFinalizer = ''backup.mybackup.com/finalizer''"
definition lc_backupTaskLabelKey :: string where [lc_consts]: "lc_backupTaskLabelKey = ''backup.mybackup.com/backup-task''"
definition lc_backupTaskUIDLabelKey :: string where [lc_consts]: "lc_backupTaskUIDLabelKey = ''backup.mybackup.com/backup-task-uid''"
definition lc_createdByLabelKey :: string where [lc_consts]: "lc_createdByLabelKey = ''backup.mybackup.com/created-by''"
definition lc_backupContainerName :: string where [lc_consts]: "lc_backupContainerName = ''backup''"
definition lc_backupImage :: string where [lc_consts]: "lc_backupImage = ''easzlab.io.local/backup-agent:latest''"
definition lc_backupDataVolumeName :: string where [lc_consts]: "lc_backupDataVolumeName = ''backup-data''"
definition lc_temporaryVolumeName :: string where [lc_consts]: "lc_temporaryVolumeName = ''temp''"

end
