(* ===== verification/Record_Reconciler.thy ===== *)
theory Record_Reconciler
  imports Task_Reconciler Legacy_Constants
begin

text \<open>
  The controller of backup records: \<open>controllers/backuprecord_controller.go\<close>, and the empty
  \<open>Reconcile\<close> of \<open>internal/controller/backuprecord_controller.go\<close> that \<open>cmd/main.go\<close> starts in its
  place.  A function that changes the record through its pointer returns it, beside the error where
  the change is kept when the function fails.
\<close>

section \<open>Jobs and pods\<close>

definition job_created :: "job \<Rightarrow> gotime" where
  "job_created j = om_CreationTimestamp (job_Meta j)"

text \<open>The loop of \<open>checkBackupJobStatus\<close> that picks the latest job.\<close>

definition latest_job :: "job list \<Rightarrow> job option" where
  "latest_job jobs = foldl (\<lambda>latestJob job. case latestJob of
       None \<Rightarrow> Some job
     | Some l \<Rightarrow> if job_created l < job_created job then Some job else Some l) None jobs"

text \<open>The list of the pods of a job; a job without selector is a nil dereference.\<close>

definition list_job_pods :: "job \<Rightarrow> (goerror + pod list) go" where
  "list_job_pods job = (case job_MatchLabels job of
       None \<Rightarrow> go_panic NilDereference
     | Some ls \<Rightarrow> go_wrap ''failed to list Pods'' (client_ListPods (om_Namespace (job_Meta job)) ls))"

definition set_duration :: "world \<Rightarrow> gotime \<Rightarrow> BackupRecord \<Rightarrow> BackupRecord" where
  "set_duration w now r =
     (let stats = (case brs_Statistics (br_Spec r) of
            None \<Rightarrow> \<lparr>bs_TotalSize = 0, bs_FileCount = 0, bs_CompressionRatio = [], bs_DurationSeconds = []\<rparr>
          | Some s \<Rightarrow> s)
      in r\<lparr>br_Spec := (br_Spec r)\<lparr>brs_Statistics :=
           Some (stats\<lparr>bs_DurationSeconds := w_FormatSeconds w now (brs_StartTime (br_Spec r))\<rparr>)\<rparr>\<rparr>)"

definition has_statistics :: "pod \<Rightarrow> bool" where
  "has_statistics p \<longleftrightarrow> map_of (om_Annotations (pod_Meta p)) ''backup.mybackup.com/statistics'' \<noteq> None"

definition updateBackupStatistics :: "BackupRecord \<Rightarrow> job \<Rightarrow> (goerror + BackupRecord) go" where
  "updateBackupStatistics backupRecord job =
     go_check (list_job_pods job) (\<lambda>pods.
     case pods of
       [] \<Rightarrow> go_return (Inl (Errorf ''no Pod found for Job''))
     | pod # _ \<Rightarrow>
         if has_statistics pod then
           go_bind time_Now (\<lambda>now. go_bind (go_world (\<lambda>w. set_duration w now backupRecord)) (\<lambda>r. go_return (Inr r)))
         else go_return (Inr backupRecord))"

text \<open>The loop over the container statuses; it stops at the first of the backup container.\<close>

fun failure_message :: "container_status list \<Rightarrow> string option" where
  "failure_message [] = None"
| "failure_message (s # ss) =
     (if cs_Name s = lc_backupContainerName
      then (case cs_Terminated s of
              None \<Rightarrow> None
            | Some (code, msg) \<Rightarrow> Some (''Container '' @ cs_Name s @ '' terminated with exit code '' @ Itoa (goint code) @ '': '' @ msg))
      else failure_message ss)"

definition set_error :: "string \<Rightarrow> BackupRecord \<Rightarrow> BackupRecord" where
  "set_error msg r = r\<lparr>br_Status := (br_Status r)\<lparr>brst_Error := msg\<rparr>\<rparr>"

definition set_phase :: "string \<Rightarrow> BackupRecord \<Rightarrow> BackupRecord" where
  "set_phase p r = r\<lparr>br_Status := (br_Status r)\<lparr>brst_Phase := p\<rparr>\<rparr>"

abbreviation br_Phase :: "BackupRecord \<Rightarrow> string" where
  "br_Phase r \<equiv> brst_Phase (br_Status r)"

definition getJobFailureReason :: "BackupRecord \<Rightarrow> job \<Rightarrow> (goerror + BackupRecord) go" where
  "getJobFailureReason backupRecord job =
     go_check (list_job_pods job) (\<lambda>pods.
     case pods of
       [] \<Rightarrow> go_return (Inl (Errorf ''no Pod found for Job''))
     | pod # _ \<Rightarrow> go_return (Inr (case failure_message (pod_ContainerStatuses pod) of
           None \<Rightarrow> backupRecord
         | Some msg \<Rightarrow> set_error msg backupRecord)))"

definition verifyBackup :: "BackupRecord \<Rightarrow> (goerror option) go" where
  "verifyBackup backupRecord = go_return None"

section \<open>The status of the record\<close>

text \<open>\<open>r.Status().Update(ctx, record)\<close>: the record becomes what the server answers.\<close>

definition put_status :: "BackupRecord \<Rightarrow> (goerror option \<times> BackupRecord) go" where
  "put_status record = go_bind (client_UpdateRecordStatus record) (\<lambda>r.
     go_return (case r of Inl err \<Rightarrow> (Some err, record) | Inr record' \<Rightarrow> (None, record')))"

definition complete_at :: "gotime \<Rightarrow> BackupRecord \<Rightarrow> BackupRecord" where
  "complete_at now r = (set_phase BackupPhaseCompleted r)\<lparr>br_Spec := (br_Spec r)\<lparr>brs_CompletionTime := Some now\<rparr>\<rparr>"

definition job_selector :: "BackupRecord \<Rightarrow> labels" where
  "job_selector r = [(lc_backupTaskLabelKey, or_Name (brs_BackupTaskRef (br_Spec r))),
     (lc_backupTaskUIDLabelKey, or_UID (brs_BackupTaskRef (br_Spec r)))]"

definition judge_job :: "BackupRecord \<Rightarrow> job \<Rightarrow> (goerror option \<times> BackupRecord) go" where
  "judge_job backupRecord latestJob =
     (if sint (job_Succeeded latestJob) > 0 then
        if br_Phase backupRecord \<noteq> BackupPhaseCompleted then
          go_bind time_Now (\<lambda>completionTime.
          let backupRecord = complete_at completionTime backupRecord
          in go_bind (updateBackupStatistics backupRecord latestJob) (\<lambda>r.
             put_status (case r of Inl err \<Rightarrow> backupRecord | Inr backupRecord \<Rightarrow> backupRecord)))
        else go_return (None, backupRecord)
      else if sint (job_Failed latestJob) > 0 then
        if br_Phase backupRecord \<noteq> BackupPhaseFailed then
          let backupRecord = set_error ''Backup job failed'' (set_phase BackupPhaseFailed backupRecord)
          in go_bind (getJobFailureReason backupRecord latestJob) (\<lambda>r.
             put_status (case r of Inl err \<Rightarrow> backupRecord | Inr backupRecord \<Rightarrow> backupRecord))
        else go_return (None, backupRecord)
      else put_status (set_phase BackupPhaseRunning backupRecord))"

definition checkBackupJobStatus :: "BackupRecord \<Rightarrow> (goerror option \<times> BackupRecord) go" where
  "checkBackupJobStatus backupRecord =
     go_bind (go_wrap ''failed to list Jobs''
       (client_ListJobs (om_Namespace (br_Meta backupRecord)) (job_selector backupRecord))) (\<lambda>r.
     case r of
       Inl err \<Rightarrow> go_return (Some err, backupRecord)
     | Inr items \<Rightarrow>
         if length items = 0 then go_return (Some (Errorf ''no backup job found for BackupRecord''), backupRecord)
         else (case latest_job items of
             None \<Rightarrow> go_panic NilDereference
           | Some latestJob \<Rightarrow> judge_job backupRecord latestJob))"

section \<open>Reconcile\<close>

definition set_expiration :: "int32 \<Rightarrow> BackupRecord \<Rightarrow> BackupRecord" where
  "set_expiration days r = r\<lparr>br_Status := (br_Status r)\<lparr>brst_ExpirationTime :=
     Some (brs_StartTime (br_Spec r) + sint (days_duration days))\<rparr>\<rparr>"

text \<open>The age limit that has to be turned into an expiration time, if it has to.\<close>

definition due_expiration :: "BackupTask \<Rightarrow> BackupRecord \<Rightarrow> int32 option" where
  "due_expiration task r =
     (if br_Phase r = BackupPhaseCompleted \<and> brst_ExpirationTime (br_Status r) = None
      then Option.bind (bts_Retention (bt_Spec task)) rp_MaxAgeDays else None)"

definition set_verification :: "gotime \<Rightarrow> string \<Rightarrow> string \<Rightarrow> BackupRecord \<Rightarrow> BackupRecord" where
  "set_verification now result msg r = r\<lparr>br_Status := (br_Status r)\<lparr>brst_VerificationStatus :=
     \<lparr>vs_VerifiedAt = Some now, vs_Result = result, vs_Message = msg\<rparr>\<rparr>\<rparr>"

definition due_verification :: "BackupRecord \<Rightarrow> bool" where
  "due_verification r \<longleftrightarrow> br_Phase r = BackupPhaseCompleted
     \<and> vs_Result (brst_VerificationStatus (br_Status r)) = VerificationPending"

text \<open>\<open>if err := r.Status().Update(ctx, record); err != nil { return ctrl.Result{}, err }\<close>.\<close>

definition put_status_or_return ::
  "BackupRecord \<Rightarrow> (BackupRecord \<Rightarrow> (goerror + ctrl_result) go) \<Rightarrow> (goerror + ctrl_result) go" where
  "put_status_or_return record k = go_bind (put_status record) (\<lambda>(e, record).
     case e of Some err \<Rightarrow> go_return (Inl err) | None \<Rightarrow> k record)"

definition verify_step :: "BackupRecord \<Rightarrow> (goerror + ctrl_result) go" where
  "verify_step backupRecord =
     (if due_verification backupRecord then
        go_bind (verifyBackup backupRecord) (\<lambda>e. go_bind time_Now (\<lambda>now. go_bind (go_world w_ErrorText) (\<lambda>text.
        put_status_or_return
          (case e of
             Some err \<Rightarrow> set_verification now VerificationFailed (text err) backupRecord
           | None \<Rightarrow> set_verification now VerificationSuccess ''Backup verification successful'' backupRecord)
          (\<lambda>_. go_return (Inr \<lparr>res_RequeueAfter = seconds 300\<rparr>)))))
      else go_return (Inr \<lparr>res_RequeueAfter = seconds 300\<rparr>))"

definition expire :: "BackupRecord \<Rightarrow> BackupRecord" where
  "expire r = set_error ''Associated BackupTask no longer exists'' (set_phase BackupPhaseExpired r)"

definition task_key :: "BackupRecord \<Rightarrow> key" where
  "task_key r = \<lparr>k_Namespace = om_Namespace (br_Meta r), k_Name = or_Name (brs_BackupTaskRef (br_Spec r))\<rparr>"

definition reconcileBackupRecord :: "BackupRecord \<Rightarrow> (goerror + ctrl_result) go" where
  "reconcileBackupRecord backupRecord =
     go_bind (client_GetTask (task_key backupRecord)) (\<lambda>r.
     case r of
       Inl err \<Rightarrow>
         if IsNotFound err
         then put_status_or_return (expire backupRecord) (\<lambda>_. go_return (Inr zero_result))
         else go_return (Inl (Wrapf ''failed to get BackupTask'' err))
     | Inr backupTask \<Rightarrow>
         go_bind (checkBackupJobStatus backupRecord) (\<lambda>(e, backupRecord).
         case e of
           Some err \<Rightarrow> go_return (Inr \<lparr>res_RequeueAfter = seconds 30\<rparr>)
         | None \<Rightarrow>
             (case due_expiration backupTask backupRecord of
                Some days \<Rightarrow> put_status_or_return (set_expiration days backupRecord) verify_step
              | None \<Rightarrow> verify_step backupRecord)))"

definition record_Reconcile :: "key \<Rightarrow> (goerror + ctrl_result) go" where
  "record_Reconcile req =
     go_bind (client_GetRecord req) (\<lambda>r.
     case r of
       Inl err \<Rightarrow> if IsNotFound err then go_return (Inr zero_result) else go_return (Inl err)
     | Inr backupRecord \<Rightarrow>
         if br_Phase backupRecord = BackupPhaseCompleted \<or> br_Phase backupRecord = BackupPhaseFailed
         then go_return (Inr zero_result)
         else reconcileBackupRecord backupRecord)"

text \<open>The \<open>Reconcile\<close> of \<open>internal/controller/backuprecord_controller.go\<close>.\<close>

definition stub_Reconcile :: "key \<Rightarrow> (goerror + ctrl_result) go" where
  "stub_Reconcile req = go_return (Inr zero_result)"

end
