(* ===== verification/Record_Lifecycle.thy ===== *)
theory Record_Lifecycle
  imports Record_Reconciler Task_Lifecycle
begin

text \<open>
  The protocol of the record controller (\<open>record_flow\<close>), the proof that its \<open>Reconcile\<close> follows it,
  and what follows: a finished record is never touched, the phase written is that of the latest
  job, the expiration time is computed in the run that completes the record only.
\<close>

section \<open>The latest job\<close>

lemma latest_job_foldl:
  assumes "\<forall>x \<in> set xs. job_created x < job_created j"
    and "\<forall>y \<in> set ys. job_created y \<le> job_created j"
  shows "latest_job (xs @ j # ys) = Some j"
proof -
  let ?f = "\<lambda>latestJob job. case latestJob of None \<Rightarrow> Some job
     | Some l \<Rightarrow> if job_created l < job_created job then Some job else Some l"
  have before: "foldl ?f s xs = None \<or> (\<exists>l. foldl ?f s xs = Some l \<and> job_created l < job_created j)"
    if "s = None \<or> (\<exists>l. s = Some l \<and> job_created l < job_created j)" for s
    using that assms(1) by (induction xs arbitrary: s) (auto split: option.split)
  have after: "foldl ?f (Some j) ys = Some j"
    using assms(2) by (induction ys) auto
  show ?thesis
    unfolding latest_job_def using before [of None] after by auto
qed

lemma latest_job_split:
  assumes "jobs \<noteq> []"
  shows "\<exists>xs j ys. jobs = xs @ j # ys \<and> (\<forall>x \<in> set xs. job_created x < job_created j)
    \<and> (\<forall>y \<in> set ys. job_created y \<le> job_created j)"
  using assms
proof (induction jobs rule: rev_induct)
  case (snoc x xs)
  show ?case
  proof (cases "xs = []")
    case True
    then show ?thesis by (intro exI [of _ "[]"] exI [of _ x]) simp
  next
    case False
    from snoc.IH [OF this] obtain us j vs where j: "xs = us @ j # vs" "\<forall>u \<in> set us. job_created u < job_created j"
      "\<forall>v \<in> set vs. job_created v \<le> job_created j" by blast
    show ?thesis
    proof (cases "job_created j < job_created x")
      case True
      then have "\<forall>u \<in> set xs. job_created u < job_created x" using j by fastforce
      then show ?thesis by (intro exI [of _ xs] exI [of _ x] exI [of _ "[]"]) simp
    next
      case False
      then show ?thesis using j by (intro exI [of _ us] exI [of _ j] exI [of _ "vs @ [x]"]) auto
    qed
  qed
qed simp

lemma latest_job_None: "latest_job jobs = None \<longleftrightarrow> jobs = []"
proof (cases "jobs = []")
  case True
  then show ?thesis by (simp add: latest_job_def)
next
  case False
  from latest_job_split [OF this] latest_job_foldl show ?thesis by fastforce
qed

section \<open>The protocol\<close>

text \<open>
  \<open>Loaded\<close>: an unfinished record is read.  \<open>Orphan\<close>: its task is gone.  \<open>Linked\<close>: its task is read.
  \<open>Ended\<close>, \<open>Counting\<close>, \<open>Timing\<close>: the latest job succeeded, the completion time is set, the duration is
  to be measured.  \<open>Failing\<close>: the latest job failed.  \<open>Verdict\<close>: the new phase is to be written.
  \<open>Dating\<close>: the expiration time is to be written.  \<open>Verifying\<close>, \<open>Verified\<close>: the verification is to be
  written.  \<open>Done\<close>: the end.
\<close>

datatype record_stage =
    Fresh
  | Loaded BackupRecord
  | Orphan BackupRecord
  | Linked BackupRecord BackupTask
  | Ended BackupRecord BackupTask job
  | Counting BackupRecord BackupTask job
  | Timing BackupRecord BackupTask job
  | Failing BackupRecord BackupTask job
  | Verdict BackupRecord BackupTask job
  | Dating BackupRecord
  | Verifying BackupRecord
  | Verified BackupRecord
  | Done "goerror + ctrl_result"

definition finished :: "BackupRecord \<Rightarrow> bool" where
  "finished r \<longleftrightarrow> br_Phase r = ''Completed'' \<or> br_Phase r = ''Failed''"

definition fail :: "BackupRecord \<Rightarrow> BackupRecord" where
  "fail r = set_error ''Backup job failed'' (set_phase BackupPhaseFailed r)"

definition succeeded :: "job \<Rightarrow> bool" where
  "succeeded j \<longleftrightarrow> sint (job_Succeeded j) > 0"

definition failed :: "job \<Rightarrow> bool" where
  "failed j \<longleftrightarrow> \<not> succeeded j \<and> sint (job_Failed j) > 0"

text \<open>The stage after the jobs are listed, and the stage after a status has been stored.\<close>

definition judged :: "BackupRecord \<Rightarrow> BackupTask \<Rightarrow> job list \<Rightarrow> record_stage" where
  "judged r t jobs = (case latest_job jobs of
       None \<Rightarrow> Done (Inr half_a_minute)
     | Some j \<Rightarrow> if succeeded j then Ended r t j
                else if failed j then Failing (fail r) t j
                else Verdict (set_phase BackupPhaseRunning r) t j)"

definition after_dating :: "BackupRecord \<Rightarrow> record_stage" where
  "after_dating r = (if due_verification r then Verifying r else Done (Inr five_minutes))"

definition after_verdict :: "BackupTask \<Rightarrow> BackupRecord \<Rightarrow> record_stage" where
  "after_verdict t r = (case due_expiration t r of Some d \<Rightarrow> Dating (set_expiration d r) | None \<Rightarrow> after_dating r)"

definition explained :: "BackupRecord \<Rightarrow> pod list \<Rightarrow> BackupRecord" where
  "explained r pods = (case pods of [] \<Rightarrow> r | p # _ \<Rightarrow>
     (case failure_message (pod_ContainerStatuses p) of None \<Rightarrow> r | Some msg \<Rightarrow> set_error msg r))"

definition counted :: "pod list \<Rightarrow> bool" where
  "counted pods = (case pods of [] \<Rightarrow> False | p # _ \<Rightarrow> has_statistics p)"

inductive record_flow :: "world \<Rightarrow> key \<Rightarrow> record_stage \<Rightarrow> event \<Rightarrow> record_stage \<Rightarrow> bool" for w k where
  no_record: "record_flow w k Fresh (GetRecord k (Inl e)) (Done (if IsNotFound e then Inr zero_result else Inl e))"
| record_finished: "finished r \<Longrightarrow> record_flow w k Fresh (GetRecord k (Inr r)) (Done (Inr zero_result))"
| load: "\<not> finished r \<Longrightarrow> record_flow w k Fresh (GetRecord k (Inr r)) (Loaded r)"
| orphaned: "IsNotFound e \<Longrightarrow> record_flow w k (Loaded r) (GetTask (task_key r) (Inl e)) (Orphan r)"
| no_task: "\<not> IsNotFound e \<Longrightarrow> record_flow w k (Loaded r) (GetTask (task_key r) (Inl e))
    (Done (Inl (Wrapf ''failed to get BackupTask'' e)))"
| link: "record_flow w k (Loaded r) (GetTask (task_key r) (Inr t)) (Linked r t)"
| expired: "record_flow w k (Orphan r) (UpdateRecordStatus (expire r) (Inr r')) (Done (Inr zero_result))"
| expired_failed: "record_flow w k (Orphan r) (UpdateRecordStatus (expire r) (Inl e)) (Done (Inl e))"
| jobs: "record_flow w k (Linked r t) (ListJobs (om_Namespace (br_Meta r)) (job_selector r) (Inr js)) (judged r t js)"
| jobs_failed: "record_flow w k (Linked r t) (ListJobs (om_Namespace (br_Meta r)) (job_selector r) (Inl e))
    (Done (Inr half_a_minute))"
| complete: "record_flow w k (Ended r t j) (Now n) (Counting (complete_at n r) t j)"
| pods: "job_MatchLabels j = Some ls \<Longrightarrow> record_flow w k (Counting r t j) (ListPods (om_Namespace (job_Meta j)) ls (Inr ps))
    (if counted ps then Timing r t j else Verdict r t j)"
| pods_failed: "job_MatchLabels j = Some ls \<Longrightarrow>
    record_flow w k (Counting r t j) (ListPods (om_Namespace (job_Meta j)) ls (Inl e)) (Verdict r t j)"
| measure: "record_flow w k (Timing r t j) (Now n) (Verdict (set_duration w n r) t j)"
| explain: "job_MatchLabels j = Some ls \<Longrightarrow> record_flow w k (Failing r t j) (ListPods (om_Namespace (job_Meta j)) ls (Inr ps))
    (Verdict (explained r ps) t j)"
| explain_failed: "job_MatchLabels j = Some ls \<Longrightarrow>
    record_flow w k (Failing r t j) (ListPods (om_Namespace (job_Meta j)) ls (Inl e)) (Verdict r t j)"
| verdict: "record_flow w k (Verdict r t j) (UpdateRecordStatus r (Inr r')) (after_verdict t r')"
| verdict_failed: "record_flow w k (Verdict r t j) (UpdateRecordStatus r (Inl e)) (Done (Inr half_a_minute))"
| date: "record_flow w k (Dating r) (UpdateRecordStatus r (Inr r')) (after_dating r')"
| date_failed: "record_flow w k (Dating r) (UpdateRecordStatus r (Inl e)) (Done (Inl e))"
| verify: "record_flow w k (Verifying r) (Now n)
    (Verified (set_verification n ''Success'' ''Backup verification successful'' r))"
| verified: "record_flow w k (Verified r) (UpdateRecordStatus r (Inr r')) (Done (Inr five_minutes))"
| verified_failed: "record_flow w k (Verified r) (UpdateRecordStatus r (Inl e)) (Done (Inl e))"

inductive record_outcome :: "record_stage \<Rightarrow> gopanic + (goerror + ctrl_result) \<Rightarrow> bool" where
  done_result: "record_outcome (Done r) (Inr r)"
| counting_panic: "job_MatchLabels j = None \<Longrightarrow> record_outcome (Counting r t j) (Inl NilDereference)"
| failing_panic: "job_MatchLabels j = None \<Longrightarrow> record_outcome (Failing r t j) (Inl NilDereference)"

abbreviation record_moves :: "world \<Rightarrow> key \<Rightarrow> (record_stage \<Rightarrow> bool) \<Rightarrow> 'a go \<Rightarrow> (gopanic + 'a \<Rightarrow> record_stage \<Rightarrow> bool) \<Rightarrow> bool" where
  "record_moves w k \<equiv> moves (record_flow w k) Fresh w"

section \<open>The functions follow the protocol\<close>

text \<open>The common shape: a panic the protocol allows, or a value and its stage.\<close>

definition yields :: "('a \<Rightarrow> record_stage \<Rightarrow> bool) \<Rightarrow> gopanic + 'a \<Rightarrow> record_stage \<Rightarrow> bool" where
  "yields V r s = (case r of Inl p \<Rightarrow> record_outcome s (Inl p) | Inr x \<Rightarrow> V x s)"

lemma yields_simps [simp]:
  "yields V (Inl p) = (\<lambda>s. record_outcome s (Inl p))" "yields V (Inr x) = V x"
  by (simp_all add: yields_def fun_eq_iff)

lemma go_bind_return: "go_bind (go_return x) f = f x"
  by (simp add: fun_eq_iff go_bind_def go_return_def)

text \<open>A status update, when the stage \<open>S\<close> allows the write.\<close>

lemma moves_put_status:
  assumes "\<And>e. record_flow w k S (UpdateRecordStatus r (Inl e)) (E e)"
    and "\<And>r'. record_flow w k S (UpdateRecordStatus r (Inr r')) (V r')"
  shows "record_moves w k (\<lambda>s. s = S) (put_status r)
    (yields (\<lambda>(x, r') s. case x of None \<Rightarrow> s = V r' | Some e \<Rightarrow> s = E e))"
  unfolding put_status_def client_defs
proof (rule moves_bind [where R = "either (\<lambda>e s. s = E e) (\<lambda>r' s. s = V r')"], goal_cases)
  case 1
  show ?case by (rule moves_call_sum) (use assms in auto)
next
  case (3 x)
  show ?case by (cases x) (auto intro: moves_return)
qed simp

lemma moves_put_status_or_return:
  assumes "\<And>e. record_flow w k S (UpdateRecordStatus r (Inl e)) (Done (Inl e))"
    and "\<And>r'. record_flow w k S (UpdateRecordStatus r (Inr r')) (V r')"
    and "\<And>r'. record_moves w k (\<lambda>s. s = V r') (f r') (\<lambda>x s. record_outcome s x)"
  shows "record_moves w k (\<lambda>s. s = S) (put_status_or_return r f) (\<lambda>x s. record_outcome s x)"
  unfolding put_status_or_return_def
proof (rule moves_bind [OF moves_put_status [OF assms(1,2)]], goal_cases)
  case (2 x)
  obtain e r' where x: "x = (e, r')" by fastforce
  show ?case
    unfolding x by (cases e) (auto intro: moves_return done_result assms(3))
qed simp

lemma moves_verify_step:
  "record_moves w k (\<lambda>s. s = after_dating r) (verify_step r) (\<lambda>x s. record_outcome s x)"
proof (cases "due_verification r")
  case True
  have store: "record_moves w k (\<lambda>s. s = Verified r')
      (put_status_or_return r' (\<lambda>_. go_return (Inr \<lparr>res_RequeueAfter = seconds 300\<rparr>))) (\<lambda>x s. record_outcome s x)" for r'
    by (rule moves_put_status_or_return [OF record_flow.verified_failed record_flow.verified])
      (use done_result [of "Inr five_minutes"] in \<open>auto simp: five_minutes_def seconds_def intro: moves_return\<close>)
  have now: "record_moves w k (\<lambda>s. s = Verifying r) time_Now
      (\<lambda>x s. \<exists>n. x = Inr n \<and> s = Verified (set_verification n VerificationSuccess ''Backup verification successful'' r))"
    unfolding client_defs by (rule moves_call) (auto simp: api_consts intro: record_flow.verify)
  show ?thesis
    unfolding verify_step_def verifyBackup_def after_dating_def go_bind_return using True
    by (simp, intro moves_bind [OF now] moves_world_bind) (auto intro: store)
next
  case False
  then show ?thesis
    using done_result [of "Inr five_minutes"]
    by (auto simp: verify_step_def after_dating_def five_minutes_def seconds_def intro: moves_return)
qed

lemma moves_list_job_pods:
  assumes "\<And>ls e. job_MatchLabels j = Some ls \<Longrightarrow> record_flow w k S (ListPods (om_Namespace (job_Meta j)) ls (Inl e)) E"
    and "\<And>ls ps. job_MatchLabels j = Some ls \<Longrightarrow> record_flow w k S (ListPods (om_Namespace (job_Meta j)) ls (Inr ps)) (V ps)"
    and "job_MatchLabels j = None \<Longrightarrow> record_outcome S (Inl NilDereference)"
  shows "record_moves w k (\<lambda>s. s = S) (list_job_pods j)
    (yields (\<lambda>x s. case x of Inl e \<Rightarrow> s = E | Inr ps \<Rightarrow> s = V ps))"
proof (cases "job_MatchLabels j")
  case None
  then show ?thesis using assms(3) by (auto simp: list_job_pods_def intro: moves_panic)
next
  case (Some ls)
  then show ?thesis
    unfolding list_job_pods_def client_defs
    by (simp, intro moves_wrap moves_call_sum) (use assms(1,2) in auto)
qed

text \<open>The two functions on the pods of a job: on an error the record stays as it was.\<close>

lemma moves_updateBackupStatistics:
  "record_moves w k (\<lambda>s. s = Counting r t j) (updateBackupStatistics r j)
     (yields (\<lambda>x s. s = Verdict (case x of Inl e \<Rightarrow> r | Inr r' \<Rightarrow> r') t j))"
  unfolding updateBackupStatistics_def go_check_def
proof (rule moves_bind [OF moves_list_job_pods [OF record_flow.pods_failed record_flow.pods counting_panic]], goal_cases)
  case (5 x)
  have measure: "record_moves w k (\<lambda>s. s = Timing r t j)
      (go_bind time_Now (\<lambda>now. go_bind (go_world (\<lambda>w. set_duration w now r)) (\<lambda>r. go_return (Inr r))))
      (yields (\<lambda>x s. s = Verdict (case x of Inl e \<Rightarrow> r | Inr r' \<Rightarrow> r') t j))"
    unfolding client_defs
    by (rule moves_bind [where R = "\<lambda>x s. \<exists>n. x = Inr n \<and> s = Verdict (set_duration w n r) t j"])
      (auto intro!: moves_call moves_world_bind moves_return intro: record_flow.measure)
  show ?case
  proof (cases x)
    case (Inl e)
    then show ?thesis by (auto intro: moves_return)
  next
    case (Inr ps)
    then show ?thesis
      using measure by (cases ps) (auto simp: counted_def intro: moves_return)
  qed
qed auto

lemma moves_getJobFailureReason:
  "record_moves w k (\<lambda>s. s = Failing r t j) (getJobFailureReason r j)
     (yields (\<lambda>x s. s = Verdict (case x of Inl e \<Rightarrow> r | Inr r' \<Rightarrow> r') t j))"
  unfolding getJobFailureReason_def go_check_def
proof (rule moves_bind [OF moves_list_job_pods [OF record_flow.explain_failed record_flow.explain failing_panic]], goal_cases)
  case (5 x)
  show ?case
  proof (cases x)
    case (Inr ps)
    then show ?thesis
      by (cases ps) (auto simp: explained_def intro!: moves_return split: option.split)
  qed (auto intro: moves_return)
qed auto

text \<open>The error of \<open>checkBackupJobStatus\<close> leads to a retry; without one the verdict is stored.\<close>

definition checked :: "BackupTask \<Rightarrow> goerror option \<times> BackupRecord \<Rightarrow> record_stage \<Rightarrow> bool" where
  "checked t x s = (case fst x of Some e \<Rightarrow> s = Done (Inr half_a_minute) | None \<Rightarrow> s = after_verdict t (snd x))"

lemma moves_verdict:
  "record_moves w k (\<lambda>s. s = Verdict r t j) (put_status r) (yields (checked t))"
  by (rule moves_post [OF moves_put_status [OF record_flow.verdict_failed record_flow.verdict]])
    (auto simp: yields_def checked_def split: sum.splits option.splits prod.splits)

lemma moves_judge_job:
  assumes "\<not> finished r" and "latest_job js = Some j"
  shows "record_moves w k (\<lambda>s. s = judged r t js) (judge_job r j) (yields (checked t))"
proof -
  have unfinished: "br_Phase r \<noteq> BackupPhaseCompleted" "br_Phase r \<noteq> BackupPhaseFailed"
    using assms(1) by (simp_all add: finished_def api_consts)
  have put: "record_moves w k (\<lambda>s. s = Verdict (case x of Inl e \<Rightarrow> r' | Inr r'' \<Rightarrow> r'') t j)
      (put_status (case x of Inl err \<Rightarrow> r' | Inr r'' \<Rightarrow> r'')) (yields (checked t))" for x :: "goerror + BackupRecord" and r'
    by (rule moves_verdict)
  consider (success) "succeeded j" | (failure) "failed j" | (running) "\<not> succeeded j" "\<not> failed j" by blast
  then show ?thesis
  proof cases
    case success
    have "record_moves w k (\<lambda>s. s = Ended r t j) time_Now (\<lambda>x s. \<exists>n. x = Inr n \<and> s = Counting (complete_at n r) t j)"
      unfolding client_defs by (rule moves_call) (auto intro: record_flow.complete)
    then have "record_moves w k (\<lambda>s. s = Ended r t j) (go_bind time_Now (\<lambda>n.
        go_bind (updateBackupStatistics (complete_at n r) j) (\<lambda>x.
        put_status (case x of Inl err \<Rightarrow> complete_at n r | Inr r \<Rightarrow> r)))) (yields (checked t))"
      by (rule moves_bind) (auto intro!: moves_bind [OF moves_updateBackupStatistics] put)
    with success unfinished assms(2) show ?thesis
      by (simp add: judge_job_def judged_def succeeded_def Let_def)
  next
    case failure
    have "record_moves w k (\<lambda>s. s = Failing (fail r) t j) (go_bind (getJobFailureReason (fail r) j) (\<lambda>x.
        put_status (case x of Inl err \<Rightarrow> fail r | Inr r \<Rightarrow> r))) (yields (checked t))"
      by (auto intro!: moves_bind [OF moves_getJobFailureReason] put)
    with failure unfinished assms(2) show ?thesis
      by (simp add: judge_job_def judged_def succeeded_def failed_def fail_def [symmetric] Let_def)
  next
    case running
    with assms(2) show ?thesis
      using moves_verdict [of w k "set_phase BackupPhaseRunning r" t j]
      by (simp add: judge_job_def judged_def succeeded_def failed_def)
  qed
qed

lemma moves_checkBackupJobStatus:
  assumes "\<not> finished r"
  shows "record_moves w k (\<lambda>s. s = Linked r t) (checkBackupJobStatus r) (yields (checked t))"
proof -
  have list: "record_moves w k (\<lambda>s. s = Linked r t)
      (go_wrap ''failed to list Jobs'' (client_ListJobs (om_Namespace (br_Meta r)) (job_selector r)))
      (either (\<lambda>e s. s = Done (Inr half_a_minute)) (\<lambda>js s. s = judged r t js))"
    unfolding client_defs
    by (rule moves_wrap, rule moves_call_sum) (auto intro: record_flow.jobs record_flow.jobs_failed)
  show ?thesis
    unfolding checkBackupJobStatus_def
  proof (rule moves_bind [OF list], goal_cases)
    case (2 x)
    show ?case
    proof (cases x)
      case (Inl e)
      then show ?thesis by (auto simp: checked_def intro: moves_return)
    next
      case (Inr js)
      show ?thesis
      proof (cases "latest_job js")
        case None
        then have "js = []" "judged r t js = Done (Inr half_a_minute)"
          using latest_job_None [of js] by (simp_all add: judged_def)
        then show ?thesis
          using Inr by (auto simp: checked_def intro: moves_return)
      next
        case (Some j)
        then have "length js \<noteq> 0" using latest_job_None [of js] by auto
        with Some Inr show ?thesis
          using moves_judge_job [OF assms Some] by simp
      qed
    qed
  qed auto
qed

lemma moves_record_Reconcile: "record_moves w k (\<lambda>s. s = Fresh) (record_Reconcile k) (\<lambda>x s. record_outcome s x)"
proof -
  have get: "record_moves w k (\<lambda>s. s = Fresh) (client_GetRecord k)
      (either (\<lambda>e s. s = Done (if IsNotFound e then Inr zero_result else Inl e))
        (\<lambda>r s. s = (if finished r then Done (Inr zero_result) else Loaded r)))"
    unfolding client_defs
  proof (rule moves_call_sum, goal_cases)
    case (1 s e)
    then show ?case using record_flow.no_record [of w k e] by auto
  qed (auto intro: record_flow.intros)
  have task: "record_moves w k (\<lambda>s. s = Loaded r) (client_GetTask (task_key r))
      (either (\<lambda>e s. s = (if IsNotFound e then Orphan r else Done (Inl (Wrapf ''failed to get BackupTask'' e))))
        (\<lambda>t s. s = Linked r t))" for r
    unfolding client_defs
    by (rule moves_call_sum) (auto intro: record_flow.intros)
  have orphan: "record_moves w k (\<lambda>s. s = Orphan r) (put_status_or_return (expire r) (\<lambda>_. go_return (Inr zero_result)))
      (\<lambda>x s. record_outcome s x)" for r
    by (rule moves_put_status_or_return [OF record_flow.expired_failed record_flow.expired])
      (auto intro: moves_return done_result)
  have tail: "record_moves w k (\<lambda>s. s = after_verdict t r) (case due_expiration t r of
        Some days \<Rightarrow> put_status_or_return (set_expiration days r) verify_step
      | None \<Rightarrow> verify_step r) (\<lambda>x s. record_outcome s x)" for t r
    by (cases "due_expiration t r")
      (auto simp: after_verdict_def intro: moves_verify_step
        moves_put_status_or_return [OF record_flow.date_failed record_flow.date moves_verify_step])
  have half: "record_outcome (Done (Inr half_a_minute)) (Inr (Inr \<lparr>res_RequeueAfter = seconds 30\<rparr>))"
    using done_result [of "Inr half_a_minute"] by (simp add: half_a_minute_def seconds_def)
  have linked: "record_moves w k (\<lambda>s. s = Linked r t) (go_bind (checkBackupJobStatus r) (\<lambda>(e, r). case e of
        Some err \<Rightarrow> go_return (Inr \<lparr>res_RequeueAfter = seconds 30\<rparr>)
      | None \<Rightarrow> (case due_expiration t r of
          Some days \<Rightarrow> put_status_or_return (set_expiration days r) verify_step
        | None \<Rightarrow> verify_step r))) (\<lambda>x s. record_outcome s x)" if "\<not> finished r" for r t
  proof (rule moves_bind [OF moves_checkBackupJobStatus [OF that]], goal_cases)
    case (2 x)
    obtain e r' where x: "x = (e, r')" by fastforce
    show ?case
      unfolding x using half tail by (cases e) (auto simp: checked_def intro: moves_return)
  qed simp
  have body: "record_moves w k (\<lambda>s. s = Loaded r) (reconcileBackupRecord r) (\<lambda>x s. record_outcome s x)" if "\<not> finished r" for r
    unfolding reconcileBackupRecord_def
  proof (rule moves_bind [OF task], goal_cases)
    case (2 x)
    show ?case
    proof (cases x)
      case (Inl e)
      then show ?thesis using orphan by (auto intro: moves_return done_result)
    next
      case (Inr t)
      then show ?thesis using linked [OF that] by simp
    qed
  qed simp
  show ?thesis
    unfolding record_Reconcile_def
  proof (rule moves_bind [OF get], goal_cases)
    case (2 x)
    show ?case
    proof (cases x)
      case (Inl e)
      then show ?thesis by (auto intro: moves_return done_result)
    next
      case (Inr r)
      then show ?thesis
        using body [of r] by (auto simp: finished_def api_consts intro!: moves_return done_result)
    qed
  qed simp
qed

section \<open>What the log of a stage contains\<close>

definition phase_of_job :: "job \<Rightarrow> string" where
  "phase_of_job j = (if succeeded j then ''Completed'' else if failed j then ''Failed'' else ''Running'')"

definition loaded_by :: "key \<Rightarrow> event list \<Rightarrow> BackupRecord \<Rightarrow> bool" where
  "loaded_by k h r \<longleftrightarrow> GetRecord k (Inr r) \<in> set h \<and> \<not> finished r"

definition linked_by :: "key \<Rightarrow> event list \<Rightarrow> BackupRecord \<Rightarrow> BackupTask \<Rightarrow> bool" where
  "linked_by k h r t \<longleftrightarrow> loaded_by k h r \<and> GetTask (task_key r) (Inr t) \<in> set h"

definition chosen_by :: "key \<Rightarrow> event list \<Rightarrow> BackupRecord \<Rightarrow> BackupTask \<Rightarrow> job \<Rightarrow> bool" where
  "chosen_by k h r t j \<longleftrightarrow> linked_by k h r t \<and>
     (\<exists>js. ListJobs (om_Namespace (br_Meta r)) (job_selector r) (Inr js) \<in> set h \<and> latest_job js = Some j)"

definition same_record :: "BackupRecord \<Rightarrow> BackupRecord \<Rightarrow> bool" where
  "same_record r r' \<longleftrightarrow> br_Meta r' = br_Meta r \<and> brs_BackupTaskRef (br_Spec r') = brs_BackupTaskRef (br_Spec r)
     \<and> brs_StartTime (br_Spec r') = brs_StartTime (br_Spec r)
     \<and> brst_ExpirationTime (br_Status r') = brst_ExpirationTime (br_Status r)
     \<and> brst_VerificationStatus (br_Status r') = brst_VerificationStatus (br_Status r)"

definition stored_by :: "key \<Rightarrow> event list \<Rightarrow> BackupTask \<Rightarrow> BackupRecord \<Rightarrow> bool" where
  "stored_by k h t r' \<longleftrightarrow> (\<exists>r j l. chosen_by k h r t j \<and> br_Phase l = phase_of_job j \<and> UpdateRecordStatus l (Inr r') \<in> set h)"

definition answered :: "event list \<Rightarrow> BackupRecord \<Rightarrow> bool" where
  "answered h r \<longleftrightarrow> (\<exists>l. UpdateRecordStatus l (Inr r) \<in> set h)"

definition orphaned_by :: "key \<Rightarrow> event list \<Rightarrow> BackupRecord \<Rightarrow> bool" where
  "orphaned_by k h r \<longleftrightarrow> loaded_by k h r \<and> (\<exists>e. GetTask (task_key r) (Inl e) \<in> set h \<and> IsNotFound e)"

definition no_work :: "key \<Rightarrow> event list \<Rightarrow> bool" where
  "no_work k h \<longleftrightarrow> (\<exists>e. GetRecord k (Inl e) \<in> set h \<and> IsNotFound e) \<or> (\<exists>r. GetRecord k (Inr r) \<in> set h \<and> finished r)
     \<or> (\<exists>r r'. orphaned_by k h r \<and> UpdateRecordStatus (expire r) (Inr r') \<in> set h)"

definition must_retry :: "key \<Rightarrow> event list \<Rightarrow> bool" where
  "must_retry k h \<longleftrightarrow> (\<exists>r t. linked_by k h r t) \<and>
     ((\<exists>ev \<in> set h. answer_error ev \<noteq> None) \<or> (\<exists>ns ls. ListJobs ns ls (Inr []) \<in> set h))"

fun record_evidence :: "world \<Rightarrow> key \<Rightarrow> event list \<Rightarrow> record_stage \<Rightarrow> bool" where
  "record_evidence w k h Fresh = (h = [])"
| "record_evidence w k h (Loaded r) = loaded_by k h r"
| "record_evidence w k h (Orphan r) = orphaned_by k h r"
| "record_evidence w k h (Linked r t) = linked_by k h r t"
| "record_evidence w k h (Ended r t j) = (chosen_by k h r t j \<and> succeeded j)"
| "record_evidence w k h (Counting r' t j) =
    (\<exists>r. chosen_by k h r t j \<and> same_record r r' \<and> br_Phase r' = phase_of_job j)"
| "record_evidence w k h (Timing r' t j) =
    (\<exists>r. chosen_by k h r t j \<and> same_record r r' \<and> br_Phase r' = phase_of_job j)"
| "record_evidence w k h (Failing r' t j) =
    (\<exists>r. chosen_by k h r t j \<and> same_record r r' \<and> br_Phase r' = phase_of_job j)"
| "record_evidence w k h (Verdict r' t j) =
    (\<exists>r. chosen_by k h r t j \<and> same_record r r' \<and> br_Phase r' = phase_of_job j)"
| "record_evidence w k h (Dating l) =
    (\<exists>t r d. stored_by k h t r \<and> due_expiration t r = Some d \<and> l = set_expiration d r)"
| "record_evidence w k h (Verifying r) = (\<exists>t r'. stored_by k h t r' \<and> answered h r \<and> due_verification r)"
| "record_evidence w k h (Verified l) = (\<exists>t r' r n. stored_by k h t r' \<and> answered h r \<and> due_verification r
    \<and> l = set_verification n ''Success'' ''Backup verification successful'' r)"
| "record_evidence w k h (Done x) = (case x of Inl e \<Rightarrow> reported_error h e
    | Inr y \<Rightarrow> (y = zero_result \<and> no_work k h) \<or> (y = half_a_minute \<and> must_retry k h)
        \<or> (y = five_minutes \<and> (\<exists>t r. stored_by k h t r)))"

lemma record_log_mono:
  assumes "set h \<subseteq> set h'"
  shows loaded_mono: "loaded_by k h r \<Longrightarrow> loaded_by k h' r"
    and orphaned_mono: "orphaned_by k h r \<Longrightarrow> orphaned_by k h' r"
    and linked_mono: "linked_by k h r t \<Longrightarrow> linked_by k h' r t"
    and chosen_mono: "chosen_by k h r t j \<Longrightarrow> chosen_by k h' r t j"
    and stored_mono: "stored_by k h t r \<Longrightarrow> stored_by k h' t r"
    and answered_mono: "answered h r \<Longrightarrow> answered h' r"
proof -
  show l: "loaded_by k h r \<Longrightarrow> loaded_by k h' r" for r using assms unfolding loaded_by_def by blast
  show "orphaned_by k h r \<Longrightarrow> orphaned_by k h' r" using l assms unfolding orphaned_by_def by blast
  show i: "linked_by k h r t \<Longrightarrow> linked_by k h' r t" for r t using l assms unfolding linked_by_def by blast
  show c: "chosen_by k h r t j \<Longrightarrow> chosen_by k h' r t j" for r t j using i assms unfolding chosen_by_def by blast
  show "stored_by k h t r \<Longrightarrow> stored_by k h' t r" using c assms unfolding stored_by_def by blast
  show "answered h r \<Longrightarrow> answered h' r" using assms unfolding answered_def by blast
qed

lemmas record_log_step = record_log_mono [OF set_snoc]

lemma same_record_intros:
  "same_record r r" "same_record r r' \<Longrightarrow> same_record r (set_phase p r')" "same_record r r' \<Longrightarrow> same_record r (set_error m r')"
  "same_record r r' \<Longrightarrow> same_record r (complete_at n r')" "same_record r r' \<Longrightarrow> same_record r (set_duration w n r')"
  by (simp_all add: same_record_def set_phase_def set_error_def complete_at_def set_duration_def Let_def)

lemma phase_simps [simp]:
  "br_Phase (set_phase p r) = p" "br_Phase (set_error m r) = br_Phase r" "br_Phase (complete_at n r) = ''Completed''"
  "br_Phase (set_duration w n r) = br_Phase r" "br_Phase (set_expiration d r) = br_Phase r"
  "br_Phase (set_verification n x m r) = br_Phase r" "br_Phase (fail r) = ''Failed''" "br_Phase (expire r) = ''Expired''"
  by (simp_all add: set_phase_def set_error_def complete_at_def set_duration_def set_expiration_def set_verification_def
      fail_def expire_def Let_def api_consts)

lemma explained_keeps: "br_Phase (explained r ps) = br_Phase r" "same_record r0 r \<Longrightarrow> same_record r0 (explained r ps)"
  by (simp_all add: explained_def same_record_intros split: list.split option.split)

text \<open>The stages after a status is stored have evidence when something is stored.\<close>

lemma evidence_after_dating:
  assumes "stored_by k h t r'" and "answered h r"
  shows "record_evidence w k h (after_dating r)"
  using assms unfolding after_dating_def by auto

lemma evidence_after_verdict:
  assumes "stored_by k h t r" and "answered h r"
  shows "record_evidence w k h (after_verdict t r)"
proof (cases "due_expiration t r")
  case None
  then show ?thesis using evidence_after_dating [OF assms] by (simp add: after_verdict_def)
next
  case (Some d)
  with assms show ?thesis by (auto simp: after_verdict_def)
qed

lemma evidence_judged:
  assumes "linked_by k h r t" and "ListJobs (om_Namespace (br_Meta r)) (job_selector r) (Inr js) \<in> set h"
  shows "record_evidence w k h (judged r t js)"
proof (cases "latest_job js")
  case None
  then have "js = []" "judged r t js = Done (Inr half_a_minute)"
    using latest_job_None [of js] by (simp_all add: judged_def)
  with assms show ?thesis by (auto simp: must_retry_def)
next
  case (Some j)
  with assms have c: "chosen_by k h r t j" by (auto simp: chosen_by_def)
  consider "succeeded j" | "failed j" "\<not> succeeded j" | "\<not> succeeded j" "\<not> failed j"
    by (auto simp: failed_def)
  then show ?thesis
    using c Some by cases (auto simp: judged_def phase_of_job_def api_consts fail_def intro!: exI [of _ r] same_record_intros)
qed

lemma must_retryI: "linked_by k h r t \<Longrightarrow> answer_error ev \<noteq> None \<Longrightarrow> must_retry k (h @ [ev])"
  unfolding must_retry_def using linked_mono [OF set_snoc] by fastforce

lemma record_evidence_step:
  "record_flow w k s e s' \<Longrightarrow> record_evidence w k h s \<Longrightarrow> record_evidence w k (h @ [e]) s'"
proof (induction rule: record_flow.induct)
  case (no_record e)
  then show ?case
    using reported_errorI [of "GetRecord k (Inl e)" e e "[]"] by (auto simp: no_work_def)
next
  case (record_finished r)
  then show ?case by (auto simp: no_work_def)
next
  case (orphaned e r)
  then show ?case by (auto simp: orphaned_by_def intro: loaded_mono [OF set_snoc])
next
  case (no_task e r)
  then show ?case by (auto intro: reported_errorI)
next
  case (link r t)
  then show ?case by (auto simp: linked_by_def intro: loaded_mono [OF set_snoc])
next
  case (expired r r')
  then have "orphaned_by k (h @ [UpdateRecordStatus (expire r) (Inr r')]) r" by (simp add: record_log_step)
  then show ?case by (auto simp: no_work_def)
next
  case (expired_failed r e)
  then show ?case by (auto intro: reported_errorI)
next
  case (jobs r t js)
  then show ?case
    by (intro evidence_judged) (simp_all add: record_log_step)
next
  case (jobs_failed r t e)
  then show ?case by (auto intro: must_retryI)
next
  case (complete r t j n)
  then have "chosen_by k (h @ [Now n]) r t j" by (simp add: record_log_step)
  with complete show ?case
    by (auto simp: phase_of_job_def intro!: exI [of _ r] same_record_intros)
next
  case (pods j ls r t ps)
  then show ?case by (auto intro: record_log_step)
next
  case (pods_failed j ls r t e)
  then show ?case by (auto intro: record_log_step)
next
  case (measure r t j n)
  then show ?case by (auto intro: record_log_step same_record_intros)
next
  case (explain j ls r t ps)
  then show ?case by (auto simp: explained_keeps intro: record_log_step)
next
  case (explain_failed j ls r t e)
  then show ?case by (auto intro: record_log_step)
next
  case (verdict r t j r')
  then obtain r0 where "chosen_by k h r0 t j" "br_Phase r = phase_of_job j" by auto
  then have "stored_by k (h @ [UpdateRecordStatus r (Inr r')]) t r'"
    unfolding stored_by_def by (meson in_set_conv_decomp record_log_step(4))
  then show ?case by (rule evidence_after_verdict) (auto simp: answered_def)
next
  case (verdict_failed r t j e)
  then show ?case by (auto simp: chosen_by_def intro: must_retryI)
next
  case (date l r')
  then obtain t r where "stored_by k h t r" by auto
  then have "stored_by k (h @ [UpdateRecordStatus l (Inr r')]) t r" by (rule record_log_step)
  then show ?case by (rule evidence_after_dating) (auto simp: answered_def)
next
  case (date_failed r e)
  then show ?case by (auto intro: reported_errorI)
next
  case (verify r n)
  then show ?case by (auto intro: record_log_step)
next
  case (verified r r')
  then show ?case by (auto intro: record_log_step)
next
  case (verified_failed r e)
  then show ?case by (auto intro: reported_errorI)
qed (auto simp: loaded_by_def)

lemma record_Reconcile_reaches:
  "\<exists>s. reaches (record_flow w k) Fresh (snd (record_Reconcile k w [])) s \<and> record_outcome s (fst (record_Reconcile k w []))"
proof -
  have "\<exists>s. reaches (record_flow w k) Fresh [] s \<and> s = Fresh" by (blast intro: reaches.none)
  from runsD [OF moves_record_Reconcile [unfolded moves_def] this] show ?thesis .
qed

interpretation record_run: controller_protocol "record_flow w k" Fresh "record_Reconcile k w []" record_outcome "record_evidence w k" for w k
  by unfold_locales (auto intro: record_Reconcile_reaches record_evidence_step)

inductive_simps record_write_step: "record_flow w k s (UpdateRecordStatus l a) s'"

section \<open>The functions only add to the log\<close>

lemma grows_put_status: "grows (put_status r)"
  unfolding put_status_def client_defs by (intro grows_intros)

lemma grows_put_status_or_return: "(\<And>r. grows (f r)) \<Longrightarrow> grows (put_status_or_return r f)"
  unfolding put_status_or_return_def by (auto intro!: grows_intros grows_put_status split: option.split)

lemma grows_verify_step: "grows (verify_step r)"
  unfolding verify_step_def verifyBackup_def client_defs
  by (auto intro!: grows_intros grows_put_status_or_return)

lemma grows_list_job_pods: "grows (list_job_pods j)"
  unfolding list_job_pods_def client_defs by (auto intro!: grows_intros split: option.split)

lemma grows_statistics: "grows (updateBackupStatistics r j)" "grows (getJobFailureReason r j)"
  unfolding updateBackupStatistics_def getJobFailureReason_def client_defs
  by (auto intro!: grows_intros grows_list_job_pods split: list.split)

lemma grows_check_status: "grows (checkBackupJobStatus r)"
proof -
  have "grows (judge_job r j)" for j
    unfolding judge_job_def client_defs Let_def
    by (auto intro!: grows_intros grows_statistics grows_put_status)
  then show ?thesis
    unfolding checkBackupJobStatus_def client_defs
    by (auto intro!: grows_intros split: sum.split option.split)
qed

lemma first_call:
  assumes "\<And>x. grows (f x)"
  shows "\<exists>x ys. snd (go_bind (call g mk) f w [e]) = e # mk x # ys"
proof -
  obtain ys where "snd (f (g w [e]) w [e, mk (g w [e])]) = [e, mk (g w [e])] @ ys"
    using assms unfolding grows_def by blast
  then show ?thesis by (auto simp: go_bind_def call_def Let_def)
qed

section \<open>An example run\<close>

text \<open>
  A pending record whose task keeps backups for one day; its only job has succeeded and has no pods.
  The second status update, which stores the expiration time, fails.
\<close>

definition example_record :: BackupRecord where
  "example_record = zero_record\<lparr>br_Status := (br_Status zero_record)\<lparr>brst_Phase := ''Pending''\<rparr>\<rparr>"

definition example_task :: BackupTask where
  "example_task = zero_task\<lparr>bt_Spec := zero_task_spec\<lparr>bts_Retention :=
     Some \<lparr>rp_MaxAgeDays = Some 1, rp_MaxBackupCount = None, rp_KeepLast = None\<rparr>\<rparr>\<rparr>"

definition example_job :: job where
  "example_job = \<lparr>job_Meta = zero_meta, job_MatchLabels = Some [], job_Succeeded = 1, job_Failed = 0\<rparr>"

definition example_key :: key where
  "example_key = \<lparr>k_Namespace = [], k_Name = ''r''\<rparr>"

definition record_world :: world where
  "record_world = (steady example_task [] id)\<lparr>w_GetRecord := (\<lambda>h k. Inr example_record),
     w_ListJobs := (\<lambda>h ns ls. Inr [example_job]),
     w_UpdateRecordStatus := (\<lambda>h r. if brst_ExpirationTime (br_Status r) = None then Inr r else Inl (OtherError ''conflict''))\<rparr>"

definition completed_record :: BackupRecord where
  "completed_record = complete_at 7 example_record"

definition example_log :: "event list" where
  "example_log = [GetRecord example_key (Inr example_record), GetTask (task_key example_record) (Inr example_task),
     ListJobs [] (job_selector example_record) (Inr [example_job]), Now 7, ListPods [] [] (Inr []),
     UpdateRecordStatus completed_record (Inr completed_record)]"

lemma example_due: "due_expiration example_task completed_record = Some 1"
  by (simp add: due_expiration_def completed_record_def example_task_def complete_at_def set_phase_def example_record_def
      zero_record_def api_consts)

lemma example_reads:
  "w_GetRecord record_world h k = Inr example_record" "w_GetTask record_world h k = Inr example_task"
  "w_ListJobs record_world h ns ls = Inr [example_job]" "w_ListPods record_world h ns ls = Inr []"
  "w_Now record_world h = 7" "w_UpdateRecordStatus record_world h completed_record = Inr completed_record"
  "w_UpdateRecordStatus record_world h (set_expiration 1 completed_record) = Inl (OtherError ''conflict'')"
  by (simp_all add: record_world_def steady_def completed_record_def complete_at_def set_phase_def example_record_def
      zero_record_def set_expiration_def)

lemma example_run:
  "record_Reconcile example_key record_world [] = (Inr (Inl (OtherError ''conflict'')),
     example_log @ UpdateRecordStatus (set_expiration 1 completed_record) (Inl (OtherError ''conflict'')) # [])"
proof -
  have phase: "br_Phase example_record = ''Pending''" by (simp add: example_record_def)
  have job: "latest_job [example_job] = Some example_job" "job_MatchLabels example_job = Some []"
    "sint (job_Succeeded example_job) > 0" "om_Namespace (job_Meta example_job) = []" "om_Namespace (br_Meta example_record) = []"
    by (simp_all add: latest_job_def example_job_def zero_meta_def example_record_def zero_record_def)
  show ?thesis
    by (simp add: record_Reconcile_def reconcileBackupRecord_def checkBackupJobStatus_def judge_job_def
        updateBackupStatistics_def list_job_pods_def put_status_def put_status_or_return_def go_run example_reads phase job
        example_due completed_record_def [symmetric] example_log_def api_consts)
qed

section \<open>Properties\<close>

text \<open>
  C16: every run of the record controller, whatever the cluster answers, is a path of its protocol,
  and its result is the one the protocol prescribes for the stage it ends in.
\<close>

theorem record_reconcile_follows_flow:
  "\<exists>s. reaches (record_flow w k) Fresh (snd (record_Reconcile k w [])) s \<and> record_outcome s (fst (record_Reconcile k w []))"
  by (rule record_Reconcile_reaches)

text \<open>
  A record that is completed or failed is never touched again: a run reads it and ends.  Any
  other record leads to a read of its task.
\<close>

theorem finished_record_untouched:
  "case w_GetRecord w [] k of
     Inl e \<Rightarrow> record_Reconcile k w [] = (if IsNotFound e then Inr (Inr zero_result) else Inr (Inl e), [GetRecord k (Inl e)])
   | Inr r \<Rightarrow> if br_Phase r = ''Completed'' \<or> br_Phase r = ''Failed''
       then record_Reconcile k w [] = (Inr (Inr zero_result), [GetRecord k (Inr r)])
       else \<exists>x ys. snd (record_Reconcile k w []) = GetRecord k (Inr r) # GetTask (task_key r) x # ys"
proof (cases "w_GetRecord w [] k")
  case (Inl e)
  then show ?thesis by (simp add: record_Reconcile_def go_run)
next
  case (Inr r)
  show ?thesis
  proof (cases "finished r")
    case True
    with Inr show ?thesis by (auto simp: record_Reconcile_def go_run finished_def api_consts)
  next
    case False
    have "\<exists>x ys. snd (reconcileBackupRecord r w [GetRecord k (Inr r)]) = GetRecord k (Inr r) # GetTask (task_key r) x # ys"
      unfolding reconcileBackupRecord_def client_GetTask_def
      by (rule first_call) (auto intro!: grows_put_status_or_return grows_intros grows_check_status grows_verify_step
          split: sum.split option.split prod.split)
    with Inr False show ?thesis by (simp add: record_Reconcile_def go_run finished_def api_consts)
  qed
qed

text \<open>
  C8: what a run writes to a record.  The record was read and was neither completed nor failed.
  Either its task is gone and it becomes \<open>Expired\<close>; or the phase written is the one of the latest
  of the jobs listed for it, and everything but phase, error, completion time and statistics is as
  it was read; or the verdict is stored already and the expiration time or the verification of the
  completed record is added.
\<close>

theorem record_status_writes:
  assumes "snd (record_Reconcile k w []) = xs @ UpdateRecordStatus l a # ys"
  shows "\<exists>r. GetRecord k (Inr r) \<in> set xs \<and> br_Phase r \<noteq> ''Completed'' \<and> br_Phase r \<noteq> ''Failed'' \<and>
    ((l = expire r \<and> (\<exists>e. GetTask (task_key r) (Inl e) \<in> set xs \<and> IsNotFound e))
     \<or> (\<exists>t j. chosen_by k xs r t j \<and> same_record r l \<and>
          br_Phase l = (if succeeded j then ''Completed'' else if failed j then ''Failed'' else ''Running''))
     \<or> (\<exists>t r' d. stored_by k xs t r' \<and> due_expiration t r' = Some d \<and> l = set_expiration d r')
     \<or> (\<exists>t r' r'' n. stored_by k xs t r' \<and> answered xs r'' \<and> due_verification r'' \<and>
          l = set_verification n ''Success'' ''Backup verification successful'' r''))"
proof -
  obtain s s' where s: "record_evidence w k xs s" "record_flow w k s (UpdateRecordStatus l a) s'"
    using assms by (rule record_run.event)
  have read: "\<exists>r. GetRecord k (Inr r) \<in> set xs \<and> br_Phase r \<noteq> ''Completed'' \<and> br_Phase r \<noteq> ''Failed''"
    if "stored_by k xs t r'" for t r'
    using that unfolding stored_by_def chosen_by_def linked_by_def loaded_by_def finished_def by blast
  from s(2) consider (orphan) r where "s = Orphan r" "l = expire r" | (verdict) t j where "s = Verdict l t j"
    | (dating) "s = Dating l" | (verified) "s = Verified l"
    unfolding record_write_step by blast
  then show ?thesis
  proof cases
    case orphan
    with s(1) show ?thesis
      by (intro exI [of _ r]) (simp add: orphaned_by_def loaded_by_def finished_def)
  next
    case verdict
    with s(1) obtain r where "chosen_by k xs r t j" "same_record r l" "br_Phase l = phase_of_job j" by auto
    then show ?thesis
      by (intro exI [of _ r] conjI disjI2 disjI1 exI [of _ t] exI [of _ j])
        (simp_all add: phase_of_job_def chosen_by_def linked_by_def loaded_by_def finished_def)
  next
    case dating
    with s(1) have d: "\<exists>t r' d. stored_by k xs t r' \<and> due_expiration t r' = Some d \<and> l = set_expiration d r'" by simp
    then obtain r where "GetRecord k (Inr r) \<in> set xs \<and> br_Phase r \<noteq> ''Completed'' \<and> br_Phase r \<noteq> ''Failed''"
      using read by blast
    with d show ?thesis by (intro exI [of _ r]) simp
  next
    case verified
    with s(1) have v: "\<exists>t r' r'' n. stored_by k xs t r' \<and> answered xs r'' \<and> due_verification r'' \<and>
          l = set_verification n ''Success'' ''Backup verification successful'' r''" by simp
    then obtain r where "GetRecord k (Inr r) \<in> set xs \<and> br_Phase r \<noteq> ''Completed'' \<and> br_Phase r \<noteq> ''Failed''"
      using read by blast
    with v show ?thesis by (intro exI [of _ r]) simp
  qed
qed

theorem record_status_writes_witness:
  "\<exists>r. GetRecord example_key (Inr r) \<in> set example_log \<and> br_Phase r \<noteq> ''Completed'' \<and> br_Phase r \<noteq> ''Failed''"
  using record_status_writes [of example_key record_world example_log "set_expiration 1 completed_record"] example_run
  by auto

text \<open>
  C33: how a run of the record controller ends.  With no requeue: the record is gone or finished, or
  has just been expired.  With half a minute: a call failed or no job was found.  With five minutes:
  the verdict of a job is stored.  With an error: a call failed with it.  With a panic: the latest
  job has no selector.
\<close>

theorem record_results:
  "case record_Reconcile k w [] of
     (Inl p, h) \<Rightarrow> p = NilDereference \<and> (\<exists>r t j. chosen_by k h r t j \<and> job_MatchLabels j = None)
   | (Inr (Inl e), h) \<Rightarrow> reported_error h e
   | (Inr (Inr x), h) \<Rightarrow> (x = zero_result \<and> no_work k h) \<or> (x = half_a_minute \<and> must_retry k h)
       \<or> (x = five_minutes \<and> (\<exists>t r. stored_by k h t r))"
proof -
  obtain x h where run: "record_Reconcile k w [] = (x, h)" by fastforce
  obtain s where ev: "record_evidence w k h s" and o: "record_outcome s x"
    by (rule record_run.result [of w k]) (simp add: run)
  from o show ?thesis
  proof cases
    case (done_result r)
    with ev run show ?thesis by (cases r) auto
  qed (use ev run in auto)
qed

text \<open>
  The expiration time of a record can be lost: when the update that stores it fails, the run
  asks to be repeated, but any later run that reads the record as it was stored before does nothing.
\<close>

theorem expiration_lost:
  assumes "snd (record_Reconcile k w []) = xs @ UpdateRecordStatus (set_expiration d r) (Inl e) # ys"
    and "due_expiration t r = Some d" and "w_GetRecord w' [] k = Inr r"
  shows "fst (record_Reconcile k w []) \<in> {Inr (Inl e), Inr (Inr half_a_minute)}
    \<and> record_Reconcile k w' [] = (Inr (Inr zero_result), [GetRecord k (Inr r)])"
proof
  have "br_Phase r = BackupPhaseCompleted"
    using assms(2) by (auto simp: due_expiration_def split: if_splits)
  with assms(3) show "record_Reconcile k w' [] = (Inr (Inr zero_result), [GetRecord k (Inr r)])"
    by (simp add: record_Reconcile_def go_run)
  obtain s s' s'' where s: "record_flow w k s (UpdateRecordStatus (set_expiration d r) (Inl e)) s'"
    "path (record_flow w k) s' ys s''" "record_outcome s'' (fst (record_Reconcile k w []))"
    using assms(1) by (rule record_run.event)
  from s(1) obtain y where y: "s' = Done y" "y = Inl e \<or> y = Inr half_a_minute"
    unfolding record_write_step by auto
  with s(2) have "s'' = Done y" by (cases ys) (auto elim: record_flow.cases)
  with s(3) y(2) show "fst (record_Reconcile k w []) \<in> {Inr (Inl e), Inr (Inr half_a_minute)}"
    by (auto elim: record_outcome.cases)
qed

theorem expiration_lost_witness:
  "record_Reconcile example_key (record_world\<lparr>w_GetRecord := (\<lambda>h k. Inr completed_record)\<rparr>) [] =
     (Inr (Inr zero_result), [GetRecord example_key (Inr completed_record)])"
  by (rule expiration_lost [where w = record_world, OF _ example_due, THEN conjunct2]) (simp_all add: example_run)

text \<open>
  The job that decides about a record is the first of the jobs listed with the greatest creation
  time.
\<close>

theorem latest_job_iff:
  "latest_job jobs = Some j \<longleftrightarrow> (\<exists>xs ys. jobs = xs @ j # ys \<and> (\<forall>x \<in> set xs. job_created x < job_created j)
     \<and> (\<forall>y \<in> set ys. job_created y \<le> job_created j))"
proof
  assume l: "latest_job jobs = Some j"
  then have "jobs \<noteq> []" using latest_job_None [of jobs] by auto
  from latest_job_split [OF this] obtain xs i ys where i: "jobs = xs @ i # ys" "\<forall>x \<in> set xs. job_created x < job_created i"
    "\<forall>y \<in> set ys. job_created y \<le> job_created i" by blast
  with latest_job_foldl have "latest_job jobs = Some i" by blast
  with l i show "\<exists>xs ys. jobs = xs @ j # ys \<and> (\<forall>x \<in> set xs. job_created x < job_created j)
     \<and> (\<forall>y \<in> set ys. job_created y \<le> job_created j)" by auto
next
  assume "\<exists>xs ys. jobs = xs @ j # ys \<and> (\<forall>x \<in> set xs. job_created x < job_created j)
     \<and> (\<forall>y \<in> set ys. job_created y \<le> job_created j)"
  then show "latest_job jobs = Some j" using latest_job_foldl by blast
qed

theorem latest_job_iff_witness:
  "latest_job [example_job, example_job] = Some example_job"
  unfolding latest_job_iff by (intro exI [of _ "[]"] exI [of _ "[example_job]"]) simp

text \<open>
  A completed record expires exactly as many days after its start as the task says, if and only
  if that number of days does not overflow a duration, that is if it is between -106751 and 106751.
\<close>

theorem expiration_time_exact:
  "brst_ExpirationTime (br_Status (set_expiration d r)) = Some (brs_StartTime (br_Spec r) + sint d * (24 * 60 * 60 * 1000000000))
     \<longleftrightarrow> - 106751 \<le> sint d \<and> sint d \<le> 106751"
  using days_duration_exact [of d] by (simp add: set_expiration_def)

text \<open>
  The jobs the record controller looks for are those of the cron jobs the task controller
  writes: the selector of a record matches the labels of the jobs of a task exactly when the record
  refers to the name and the UID of the task.
\<close>

theorem job_selector_matches:
  "list_all (\<lambda>(key, v). map_of (cjs_JobLabels (buildCronJobSpec uni t)) key = Some v) (job_selector r) \<longleftrightarrow>
     or_Name (brs_BackupTaskRef (br_Spec r)) = bt_Name t \<and> or_UID (brs_BackupTaskRef (br_Spec r)) = om_UID (bt_Meta t)"
  by (auto simp: job_selector_def buildCronJobSpec_def task_labels_def ctrl_consts lc_consts)

end
