(* ===== verification/Legacy_Pod_Builder.thy ===== *)
theory Legacy_Pod_Builder
  imports Pod_Builder Task_Webhook Retention Legacy_Constants
begin

text \<open>
  What the task controller of the older package builds for a task
  (\<open>controllers/backuptask_controller.go\<close>): the same cron job around another pod, with a sidecar
  per database.  \<open>buildDatabaseSidecar\<close> reads the port through its pointer, so the builders return
  a panic or a value.  The lemmas give the second instance of the contract between volumes and
  mounts, say exactly when a validated task makes the builder panic, and what of the pod collides or
  is never used.
\<close>

section \<open>Volumes, mounts, environment\<close>

definition legacy_buildVolumes :: "BackupTask \<Rightarrow> volume list" where
  "legacy_buildVolumes backupTask =
     [\<lparr>vol_Name = lc_backupDataVolumeName,
       vol_Source = EmptyDir '''' (NewQuantityBinarySI (10 * 1024 * 1024 * 1024))\<rparr>,
      \<lparr>vol_Name = lc_temporaryVolumeName,
       vol_Source = EmptyDir '''' (NewQuantityBinarySI (5 * 1024 * 1024 * 1024))\<rparr>]
     @ for_pvcs (\<lambda>i dirPath ref. \<lparr>vol_Name = ''pvc-'' @ tl_Name ref,
         vol_Source = PersistentVolumeClaim (tl_Name ref) True\<rparr>) (bt_Targets backupTask)
     @ (case rs_SFTP (bts_RemoteStorage (bt_Spec backupTask)) of
          Some sftp \<Rightarrow> [\<lparr>vol_Name = ''sftp-secret'', vol_Source = SecretSource (sr_Name (sftp_AuthSecretRef sftp)) []\<rparr>]
        | None \<Rightarrow> [])
     @ (case bts_Encryption (bt_Spec backupTask) of
          Some e \<Rightarrow> if enc_Enabled e
            then [\<lparr>vol_Name = ''encryption-key'', vol_Source = SecretSource (sr_Name (enc_KeySecretRef e))
                    [\<lparr>kp_Key = ''key'', kp_Path = ''encryption.key''\<rparr>]\<rparr>]
            else []
        | None \<Rightarrow> [])"

definition legacy_buildVolumeMounts :: "BackupTask \<Rightarrow> volume_mount list" where
  "legacy_buildVolumeMounts backupTask =
     [\<lparr>vm_Name = lc_backupDataVolumeName, vm_MountPath = ''/backup/data'', vm_SubPath = [], vm_ReadOnly = False\<rparr>,
      \<lparr>vm_Name = lc_temporaryVolumeName, vm_MountPath = ''/tmp'', vm_SubPath = [], vm_ReadOnly = False\<rparr>]
     @ for_pvcs (\<lambda>i dirPath ref. \<lparr>vm_Name = ''pvc-'' @ tl_Name ref, vm_MountPath = ''/mnt/pvc-'' @ Itoa (int i),
         vm_SubPath = dp_SubPath dirPath, vm_ReadOnly = True\<rparr>) (bt_Targets backupTask)"

definition legacy_buildEnvVars :: "BackupTask \<Rightarrow> env_var list" where
  "legacy_buildEnvVars backupTask =
     (let storage = bts_RemoteStorage (bt_Spec backupTask)
      in [env ''BACKUP_TASK_NAME'' (bt_Name backupTask),
          env ''BACKUP_TASK_NAMESPACE'' (bt_Namespace backupTask),
          env_field ''BACKUP_ID'' ''metadata.uid'',
          env_field ''POD_NAME'' ''metadata.name'']
         @ (if rs_Type storage = RemoteStorageTypeS3 then
              (case rs_S3 storage of
                 Some s3 \<Rightarrow> [env ''REMOTE_STORAGE_TYPE'' ''s3'', env ''S3_ENDPOINT'' (s3_Endpoint s3),
                   env ''S3_BUCKET'' (s3_Bucket s3), env ''S3_PREFIX'' (s3_Prefix s3)]
               | None \<Rightarrow> [])
            else if rs_Type storage = RemoteStorageTypeSFTP then
              (case rs_SFTP storage of
                 Some sftp \<Rightarrow> [env ''REMOTE_STORAGE_TYPE'' ''sftp'', env ''SFTP_HOST'' (sftp_Host sftp),
                   env ''SFTP_PATH'' (sftp_Path sftp)]
               | None \<Rightarrow> [])
            else [])
         @ (case bts_Encryption (bt_Spec backupTask) of
              Some e \<Rightarrow> if enc_Enabled e
                then [env ''ENCRYPTION_ENABLED'' ''true'', env ''ENCRYPTION_ALGORITHM'' (enc_Algorithm e)]
                else []
            | None \<Rightarrow> []))"

definition legacy_buildContainerResources :: "BackupTask \<Rightarrow> resource_requirements" where
  "legacy_buildContainerResources backupTask =
     (case bts_Resources (bt_Spec backupTask) of
        Some r \<Rightarrow> r
      | None \<Rightarrow> \<lparr>rr_Requests = [(''cpu'', MustParse ''100m''), (''memory'', MustParse ''256Mi'')],
                 rr_Limits = [(''cpu'', MustParse ''500m''), (''memory'', MustParse ''1Gi'')], rr_rest = []\<rparr>)"

section \<open>Containers\<close>

definition sidecar :: "string \<Rightarrow> string \<Rightarrow> env_var list \<Rightarrow> container" where
  "sidecar name img envs =
     \<lparr>c_Name = name, c_Image = img, c_ImagePullPolicy = ''IfNotPresent'', c_Command = [''sleep'', ''infinity''],
      c_Env = envs, c_EnvFrom = [], c_VolumeMounts = [],
      c_Resources = \<lparr>rr_Requests = [(''cpu'', MustParse ''50m''), (''memory'', MustParse ''128Mi'')], rr_Limits = [], rr_rest = []\<rparr>,
      c_SecurityContext = None\<rparr>"

text \<open>\<open>fmt.Sprintf("%d", *dbSpec.Port)\<close>.\<close>

definition show_port :: "int32 option \<Rightarrow> gopanic + string" where
  "show_port p = (case p of None \<Rightarrow> Inl NilDereference | Some port \<Rightarrow> Inr (Itoa (goint port)))"

definition buildDatabaseSidecar :: "DatabaseBackupSpec \<Rightarrow> gopanic + container option" where
  "buildDatabaseSidecar dbSpec =
     (if db_Type dbSpec = ''mysql'' then
        (case show_port (db_Port dbSpec) of
           Inl p \<Rightarrow> Inl p
         | Inr port \<Rightarrow> Inr (Some (sidecar ''mysql-client'' ''mysql:8.0''
             [env ''MYSQL_HOST'' (db_Host dbSpec), env ''MYSQL_PORT'' port, env ''MYSQL_DATABASE'' (db_Database dbSpec)])))
      else if db_Type dbSpec = ''postgresql'' then
        (case show_port (db_Port dbSpec) of
           Inl p \<Rightarrow> Inl p
         | Inr port \<Rightarrow> Inr (Some (sidecar ''postgres-client'' ''postgres:14''
             [env ''PGHOST'' (db_Host dbSpec), env ''PGPORT'' port, env ''PGDATABASE'' (db_Database dbSpec)])))
      else Inr None)"

fun legacy_sidecars :: "BackupTarget list \<Rightarrow> gopanic + container list" where
  "legacy_sidecars [] = Inr []"
| "legacy_sidecars (target # targets) =
     (case tgt_Database target of
        None \<Rightarrow> legacy_sidecars targets
      | Some db \<Rightarrow>
          (case buildDatabaseSidecar db of
             Inl p \<Rightarrow> Inl p
           | Inr c \<Rightarrow> (case legacy_sidecars targets of
               Inl p \<Rightarrow> Inl p
             | Inr cs \<Rightarrow> Inr ((case c of None \<Rightarrow> [] | Some x \<Rightarrow> [x]) @ cs))))"

definition legacy_buildContainers :: "BackupTask \<Rightarrow> gopanic + container list" where
  "legacy_buildContainers backupTask =
     (let containers =
        [\<lparr>c_Name = lc_backupContainerName,
          c_Image = lc_backupImage,
          c_ImagePullPolicy = ''IfNotPresent'',
          c_Command = [''/bin/bash'', ''-c'', ''/scripts/backup.sh''],
          c_Env = legacy_buildEnvVars backupTask,
          c_EnvFrom = [],
          c_VolumeMounts = legacy_buildVolumeMounts backupTask,
          c_Resources = legacy_buildContainerResources backupTask,
          c_SecurityContext = Some \<lparr>sc_AllowPrivilegeEscalation = Some False, sc_RunAsNonRoot = Some True,
            sc_RunAsUser = Some 1000, sc_CapabilitiesDrop = [''ALL''], sc_SeccompProfile = ''RuntimeDefault''\<rparr>\<rparr>]
      in map_sum id (\<lambda>cs. containers @ cs) (legacy_sidecars (bt_Targets backupTask)))"

definition legacy_buildBackupPodSpec :: "BackupTask \<Rightarrow> gopanic + pod_spec" where
  "legacy_buildBackupPodSpec backupTask =
     (let podSpec = template_pod_spec backupTask;
          podSpec = (if ps_RestartPolicy podSpec = [] then podSpec\<lparr>ps_RestartPolicy := ''OnFailure''\<rparr> else podSpec);
          podSpec = podSpec\<lparr>ps_Volumes := legacy_buildVolumes backupTask\<rparr>
      in case legacy_buildContainers backupTask of
           Inl p \<Rightarrow> Inl p
         | Inr containers \<Rightarrow>
             (let podSpec = podSpec\<lparr>ps_Containers := containers\<rparr>;
                  podSpec = (if ps_ServiceAccountName podSpec = [] then podSpec\<lparr>ps_ServiceAccountName := ''backup-agent''\<rparr> else podSpec)
              in Inr (if ps_Affinity podSpec = None then podSpec\<lparr>ps_Affinity := Some default_affinity\<rparr> else podSpec)))"

definition legacy_task_labels :: "BackupTask \<Rightarrow> labels" where
  "legacy_task_labels backupTask =
     [(lc_backupTaskLabelKey, bt_Name backupTask),
      (lc_backupTaskUIDLabelKey, om_UID (bt_Meta backupTask)),
      (lc_createdByLabelKey, ''backup-operator'')]"

definition legacy_buildCronJobSpec :: "BackupTask \<Rightarrow> gopanic + cron_job_spec" where
  "legacy_buildCronJobSpec backupTask = map_sum id (\<lambda>podSpec.
     \<lparr>cjs_Schedule = bts_Schedule (bt_Spec backupTask),
      cjs_StartingDeadlineSeconds = Some 300,
      cjs_ConcurrencyPolicy = ''Forbid'',
      cjs_Suspend = Some False,
      cjs_SuccessfulJobsHistoryLimit = Some 3,
      cjs_FailedJobsHistoryLimit = Some 1,
      cjs_JobLabels = legacy_task_labels backupTask,
      cjs_JobSpec =
        \<lparr>js_BackoffLimit = Some 3,
         js_TTLSecondsAfterFinished = Some 86400,
         js_PodLabels = legacy_task_labels backupTask,
         js_PodSpec = podSpec\<rparr>\<rparr>) (legacy_buildBackupPodSpec backupTask)"

section \<open>Volumes against mounts\<close>

lemma legacy_volume_names:
  "map vol_Name (legacy_buildVolumes t) = [''backup-data'', ''temp''] @ map (\<lambda>n. ''pvc-'' @ n) (claim_names t)
     @ (case rs_SFTP (bts_RemoteStorage (bt_Spec t)) of Some s \<Rightarrow> [''sftp-secret''] | None \<Rightarrow> [])
     @ (case bts_Encryption (bt_Spec t) of Some e \<Rightarrow> if enc_Enabled e then [''encryption-key''] else [] | None \<Rightarrow> [])"
  by (auto simp: legacy_buildVolumes_def for_pvcs_map claim_names_def lc_consts case_prod_unfold split: option.split)

lemma legacy_mount_names:
  "map vm_Name (legacy_buildVolumeMounts t) = [''backup-data'', ''temp''] @ map (\<lambda>n. ''pvc-'' @ n) (claim_names t)"
  by (simp add: legacy_buildVolumeMounts_def for_pvcs_map claim_names_def lc_consts case_prod_unfold)

interpretation legacy_pod: volume_contract legacy_buildVolumes legacy_buildVolumeMounts
proof
  show "vm_Name ` set (legacy_buildVolumeMounts t) \<subseteq> vol_Name ` set (legacy_buildVolumes t)" for t
    unfolding set_map [symmetric] legacy_volume_names legacy_mount_names set_append by blast
  show "\<not> claim_writable (vol_Source v) (vm_ReadOnly m)"
    if "m \<in> set (legacy_buildVolumeMounts t)" "v \<in> set (legacy_buildVolumes t)" "vol_Name v = vm_Name m" for t m v
    using that by (auto simp: legacy_buildVolumes_def legacy_buildVolumeMounts_def for_pvcs_map lc_consts split: option.splits if_splits)
qed

section \<open>The sidecars\<close>

definition portless :: "DatabaseBackupSpec \<Rightarrow> bool" where
  "portless d \<longleftrightarrow> db_Port d = None \<and> (db_Type d = ''mysql'' \<or> db_Type d = ''postgresql'')"

lemma buildDatabaseSidecar_panic: "(\<exists>p. buildDatabaseSidecar d = Inl p) \<longleftrightarrow> portless d"
  by (auto simp: buildDatabaseSidecar_def show_port_def portless_def split: option.split)

definition has_portless :: "BackupTarget \<Rightarrow> bool" where
  "has_portless t \<longleftrightarrow> (\<exists>d. tgt_Database t = Some d \<and> portless d)"

lemma legacy_sidecars_panic: "(\<exists>p. legacy_sidecars ts = Inl p) \<longleftrightarrow> (\<exists>t \<in> set ts. has_portless t)"
proof (induction ts)
  case (Cons t ts)
  show ?case
  proof (cases "tgt_Database t")
    case None
    with Cons show ?thesis by (simp add: has_portless_def)
  next
    case (Some d)
    then show ?thesis
      using Cons buildDatabaseSidecar_panic [of d]
      by (cases "buildDatabaseSidecar d"; cases "legacy_sidecars ts") (auto simp: has_portless_def)
  qed
qed simp

lemma map_sum_Inl_iff: "(\<exists>p. map_sum id f x = Inl p) \<longleftrightarrow> (\<exists>p. x = Inl p)"
  by (cases x) auto

lemma legacy_spec_panic:
  "(\<exists>p. legacy_buildCronJobSpec t = Inl p) \<longleftrightarrow> (\<exists>x \<in> set (bt_Targets t). has_portless x)"
proof -
  have "(\<exists>p. legacy_buildBackupPodSpec t = Inl p) \<longleftrightarrow> (\<exists>p. legacy_buildContainers t = Inl p)"
    by (cases "legacy_buildContainers t") (simp_all add: legacy_buildBackupPodSpec_def Let_def)
  then show ?thesis
    unfolding legacy_buildCronJobSpec_def map_sum_Inl_iff
    by (simp only: legacy_buildContainers_def Let_def map_sum_Inl_iff legacy_sidecars_panic)
qed

definition sidecar_name :: "BackupTarget \<Rightarrow> string list" where
  "sidecar_name t = (case tgt_Database t of None \<Rightarrow> []
     | Some d \<Rightarrow> if db_Type d = ''mysql'' then [''mysql-client''] else if db_Type d = ''postgresql'' then [''postgres-client''] else [])"

lemma legacy_sidecar_names:
  "legacy_sidecars ts = Inr cs \<Longrightarrow> map c_Name cs = concat (map sidecar_name ts) \<and> list_all (\<lambda>c. c_VolumeMounts c = []) cs"
proof (induction ts arbitrary: cs)
  case (Cons t ts)
  show ?case
  proof (cases "tgt_Database t")
    case None
    with Cons show ?thesis by (simp add: sidecar_name_def)
  next
    case (Some d)
    with Cons.prems obtain c cs' where c: "buildDatabaseSidecar d = Inr c" "legacy_sidecars ts = Inr cs'"
      "cs = (case c of None \<Rightarrow> [] | Some x \<Rightarrow> [x]) @ cs'"
      by (auto split: sum.splits)
    from c(1) have "map c_Name (case c of None \<Rightarrow> [] | Some x \<Rightarrow> [x]) = sidecar_name t
        \<and> list_all (\<lambda>c. c_VolumeMounts c = []) (case c of None \<Rightarrow> [] | Some x \<Rightarrow> [x])"
      using Some by (auto simp: buildDatabaseSidecar_def sidecar_name_def sidecar_def split: sum.splits if_splits)
    with c Cons.IH [OF c(2)] show ?thesis by simp
  qed
qed simp

lemma fill_target_portless:
  "has_portless (fill_target x) \<longleftrightarrow> has_portless x \<and> tgt_Type x \<noteq> BackupTargetTypeDatabase"
proof (cases "tgt_Database x")
  case (Some d)
  have "\<not> portless (fill_port d)"
    by (auto simp: portless_def fill_port_def default_port_def)
  with Some show ?thesis by (simp add: has_portless_def fill_target_def)
qed (simp add: has_portless_def fill_target_def)

section \<open>Properties\<close>

text \<open>
  Also in the pod of the older package each mount of each container names a declared volume, and
  every persistent volume claim is read-only.
\<close>

theorem legacy_pod_mounts:
  "case legacy_buildBackupPodSpec t of Inl p \<Rightarrow> True | Inr spec \<Rightarrow> mounts_resolved spec \<and> claims_read_only spec"
proof (cases "legacy_sidecars (bt_Targets t)")
  case (Inl p)
  then show ?thesis by (simp add: legacy_buildBackupPodSpec_def legacy_buildContainers_def Let_def)
next
  case (Inr cs)
  then obtain spec where spec: "legacy_buildBackupPodSpec t = Inr spec" "ps_Volumes spec = legacy_buildVolumes t"
    "\<forall>c \<in> set (ps_Containers spec). c \<in> set cs \<or> c_VolumeMounts c = legacy_buildVolumeMounts t"
    by (auto simp: legacy_buildBackupPodSpec_def legacy_buildContainers_def Let_def)
  have "list_all (\<lambda>c. c_VolumeMounts c = []) cs" using legacy_sidecar_names [OF Inr] by simp
  with spec(3) have "c_VolumeMounts c = [] \<or> c_VolumeMounts c = legacy_buildVolumeMounts t" if "c \<in> set (ps_Containers spec)" for c
    using that by (auto simp: list_all_iff)
  from legacy_pod.pod_accepted [OF spec(2) this] spec(1) show ?thesis by simp
qed

text \<open>
  C38: validation protects the older builder from nil ports only in part: on a task that validation
  has accepted and completed, the builder panics exactly when a target that is not of type
  \<open>database\<close> still carries the settings of a MySQL or PostgreSQL database without a port.
\<close>

theorem validated_task_sidecar_panic:
  "(\<exists>p. legacy_buildCronJobSpec (snd (validateBackupTask t)) = Inl p) \<longleftrightarrow>
     (\<exists>x \<in> set (bt_Targets t). tgt_Type x \<noteq> ''database'' \<and>
        (\<exists>d. tgt_Database x = Some d \<and> db_Port d = None \<and> (db_Type d = ''mysql'' \<or> db_Type d = ''postgresql'')))"
proof -
  have "bt_Targets (fill_task t) = map fill_target (bt_Targets t)"
    by (cases "bts_Targets (bt_Spec t)") (simp_all add: fill_task_def)
  then have "(\<exists>p. legacy_buildCronJobSpec (snd (validateBackupTask t)) = Inl p) \<longleftrightarrow>
      (\<exists>x \<in> set (bt_Targets t). has_portless (fill_target x))"
    unfolding validateBackupTask_object legacy_spec_panic by simp
  also have "\<dots> \<longleftrightarrow> (\<exists>x \<in> set (bt_Targets t). has_portless x \<and> tgt_Type x \<noteq> BackupTargetTypeDatabase)"
    by (simp add: fill_target_portless)
  finally show ?thesis
    unfolding has_portless_def portless_def api_consts by blast
qed

text \<open>
  The claims of a task are mounted at distinct paths exactly when no two of them have the same
  index in their targets, because the path is made from that index alone.
\<close>

theorem legacy_mount_paths_distinct:
  "distinct (map vm_MountPath (legacy_buildVolumeMounts t)) \<longleftrightarrow> distinct (map fst (pvc_list (bt_Targets t)))"
proof -
  let ?path = "\<lambda>i :: nat. ''/mnt/pvc-'' @ Itoa (int i)"
  define ys where "ys = map fst (pvc_list (bt_Targets t))"
  have paths: "map vm_MountPath (legacy_buildVolumeMounts t) =
      [''/backup/data'', ''/tmp''] @ map ?path ys"
    by (simp add: ys_def legacy_buildVolumeMounts_def for_pvcs_map case_prod_unfold)
  have "inj_on ?path A" for A by (auto simp: inj_on_def)
  then have "distinct (map ?path xs) \<longleftrightarrow> distinct xs" for xs
    unfolding distinct_map by blast
  moreover have "''/backup/data'' \<notin> set (map ?path xs)" "''/tmp'' \<notin> set (map ?path xs)" for xs
    by auto
  ultimately show ?thesis
    unfolding paths ys_def [symmetric] by simp
qed

text \<open>
  The containers of the pod have distinct names exactly when at most one target has a MySQL and
  at most one a PostgreSQL database.
\<close>

theorem legacy_container_names:
  "case legacy_buildContainers t of Inl p \<Rightarrow> True | Inr cs \<Rightarrow>
     distinct (map c_Name cs) \<longleftrightarrow> distinct (concat (map sidecar_name (bt_Targets t)))"
proof (cases "legacy_sidecars (bt_Targets t)")
  case (Inl p)
  then show ?thesis by (simp add: legacy_buildContainers_def)
next
  case (Inr cs)
  have "''backup'' \<notin> set (concat (map sidecar_name ts))" for ts
    by (induction ts) (auto simp: sidecar_name_def split: option.splits if_splits)
  with legacy_sidecar_names [OF Inr] Inr show ?thesis
    by (simp add: legacy_buildContainers_def lc_consts)
qed

text \<open>
  The volumes with the SFTP secret and the encryption key are declared but mounted nowhere: no
  container of the pod gets the encryption key.
\<close>

theorem legacy_secrets_unmounted:
  "''sftp-secret'' \<notin> vm_Name ` set (legacy_buildVolumeMounts t) \<and> ''encryption-key'' \<notin> vm_Name ` set (legacy_buildVolumeMounts t)
   \<and> (''sftp-secret'' \<in> vol_Name ` set (legacy_buildVolumes t) \<longleftrightarrow> rs_SFTP (bts_RemoteStorage (bt_Spec t)) \<noteq> None)
   \<and> (''encryption-key'' \<in> vol_Name ` set (legacy_buildVolumes t) \<longleftrightarrow>
        (case bts_Encryption (bt_Spec t) of None \<Rightarrow> False | Some e \<Rightarrow> enc_Enabled e))"
  unfolding set_map [symmetric] legacy_mount_names legacy_volume_names
  by (cases "rs_SFTP (bts_RemoteStorage (bt_Spec t))"; cases "bts_Encryption (bt_Spec t)") auto

end
