(* ===== verification/Legacy_Task_Reconciler.thy ===== *)
theory Legacy_Task_Reconciler
  imports Task_Lifecycle Legacy_Pod_Builder
begin

text \<open>
  The task controller of the older package: \<open>Reconcile\<close> of \<open>controllers/backuptask_controller.go\<close>
  and every function it calls, with the constants of that package.  Most of it has the same text as
  in the controller that is started (the lemmas of \<open>same_code\<close>); it stores no config map, and its
  cron job is built by code that may panic while \<open>CreateOrUpdate\<close> runs it.  It is the second
  instance of \<open>task_protocol\<close> and of \<open>controller_protocol\<close>.
\<close>

section \<open>The functions\<close>

definition legacy_cronJobName :: "BackupTask \<Rightarrow> string" where
  "legacy_cronJobName backupTask = ''backup-'' @ bt_Name backupTask"

definition legacy_cron_key :: "BackupTask \<Rightarrow> key" where
  "legacy_cron_key t = \<lparr>k_Namespace = bt_Namespace t, k_Name = legacy_cronJobName t\<rparr>"

definition legacy_record_selector :: "BackupTask \<Rightarrow> labels" where
  "legacy_record_selector t = [(lc_backupTaskLabelKey, bt_Name t)]"

definition legacy_new_cron_job :: "BackupTask \<Rightarrow> cron_job" where
  "legacy_new_cron_job t = \<lparr>cj_Meta = zero_meta\<lparr>om_Name := legacy_cronJobName t, om_Namespace := bt_Namespace t,
       om_Labels := legacy_task_labels t\<rparr>,
     cj_Spec = zero_cron_job_spec, cj_Status = zero_cron_job_status\<rparr>"

text \<open>The mutation panics where \<open>buildCronJobSpec\<close> does.\<close>

definition legacy_mutate_cron_job ::
  "(BackupTask \<Rightarrow> cron_job \<Rightarrow> goerror + cron_job) \<Rightarrow> BackupTask \<Rightarrow> cron_job \<Rightarrow> gopanic + (goerror + cron_job)" where
  "legacy_mutate_cron_job set_reference t cronJob =
     (case legacy_buildCronJobSpec t of
        Inl p \<Rightarrow> Inl p
      | Inr spec \<Rightarrow> Inr (set_reference t (cronJob\<lparr>cj_Spec := spec\<rparr>)))"

definition legacy_createOrUpdateCronJob :: "BackupTask \<Rightarrow> (goerror + cron_job) go" where
  "legacy_createOrUpdateCronJob backupTask =
     go_bind (go_world (\<lambda>w. legacy_mutate_cron_job (w_SetControllerReference w) backupTask)) (\<lambda>mutate.
     client_CreateOrUpdateTry (legacy_new_cron_job backupTask) mutate)"

definition legacy_observed_status :: "BackupTask \<Rightarrow> cron_job \<Rightarrow> BackupTaskStatus \<Rightarrow> BackupTaskStatus" where
  "legacy_observed_status backupTask cronJob st =
     (let active = cjst_Active (cj_Status cronJob);
          st = st\<lparr>bst_ObservedGeneration := om_Generation (bt_Meta backupTask)\<rparr>;
          st = (if cjs_Suspend (cj_Spec cronJob) = Some True then st\<lparr>bst_Phase := BackupPhasePending\<rparr>
                else if length active > 0 then st\<lparr>bst_Phase := BackupPhaseRunning\<rparr>
                else if cjst_LastScheduleTime (cj_Status cronJob) \<noteq> None then st\<lparr>bst_Phase := BackupPhaseCompleted\<rparr>
                else st\<lparr>bst_Phase := BackupPhasePending\<rparr>);
          st = (case cjst_LastScheduleTime (cj_Status cronJob) of
                  Some time \<Rightarrow> st\<lparr>bst_LastScheduledTime := Some time\<rparr>
                | None \<Rightarrow> st)
      in case active of
           job # _ \<Rightarrow> st\<lparr>bst_ActiveBackupJob := Some \<lparr>or_APIVersion = ''batch/v1'', or_Kind = ''Job'',
             or_Name = or_Name job, or_Namespace = om_Namespace (cj_Meta cronJob), or_UID = []\<rparr>\<rparr>
         | [] \<Rightarrow> st\<lparr>bst_ActiveBackupJob := None\<rparr>)"

definition legacy_conditions_at :: "gotime \<Rightarrow> BackupTaskStatus \<Rightarrow> BackupTaskCondition list" where
  "legacy_conditions_at now st =
     (let scheduledCondition = \<lparr>btc_Type = BackupTaskScheduled, btc_Status = ''True'', btc_LastTransitionTime = now,
            btc_Reason = [], btc_Message = []\<rparr>;
          scheduledCondition = (if bst_LastScheduledTime st = None
            then scheduledCondition\<lparr>btc_Status := ''False'', btc_Reason := ''NotScheduled'',
              btc_Message := ''Backup task has not been scheduled yet''\<rparr>
            else scheduledCondition);
          runningCondition = \<lparr>btc_Type = BackupTaskRunning, btc_Status = ''False'', btc_LastTransitionTime = now,
            btc_Reason = [], btc_Message = []\<rparr>;
          runningCondition = (if bst_Phase st = BackupPhaseRunning
            then runningCondition\<lparr>btc_Status := ''True'', btc_Reason := ''BackupInProgress'',
              btc_Message := ''Backup is currently running''\<rparr>
            else runningCondition)
      in [scheduledCondition, runningCondition])"

definition legacy_updateConditions :: "BackupTask \<Rightarrow> BackupTask go" where
  "legacy_updateConditions backupTask = go_bind time_Now (\<lambda>now. go_return (backupTask\<lparr>bt_Status :=
     (bt_Status backupTask)\<lparr>bst_Conditions := legacy_conditions_at now (bt_Status backupTask)\<rparr>\<rparr>))"

definition legacy_updateBackupTaskStatus :: "BackupTask \<Rightarrow> cron_job \<Rightarrow> (goerror + unit) go" where
  "legacy_updateBackupTaskStatus backupTask cronJob =
     go_check (client_GetTask (key_of (bt_Meta backupTask))) (\<lambda>latestBackupTask.
     go_bind (legacy_updateConditions (latestBackupTask\<lparr>bt_Status :=
       legacy_observed_status backupTask cronJob (bt_Status latestBackupTask)\<rparr>)) (\<lambda>latestBackupTask.
     go_check (client_UpdateTaskStatus latestBackupTask) (\<lambda>_. go_return (Inr ()))))"

definition legacy_filterRecordsToDelete ::
  "gotime \<Rightarrow> BackupRecord list \<Rightarrow> RetentionPolicy \<Rightarrow> gopanic + BackupRecord list" where
  "legacy_filterRecordsToDelete now records retention =
     (let sortedRecords = records;
          byCount = (case rp_MaxBackupCount retention of
              None \<Rightarrow> Inr []
            | Some n \<Rightarrow>
                if int (length sortedRecords) > goint n
                then (if goint n < 0 then Inl SliceOutOfRange
                      else Inr (drop (nat (goint n)) sortedRecords))
                else Inr [])
      in case byCount of
           Inl p \<Rightarrow> Inl p
         | Inr toDelete \<Rightarrow> Inr (toDelete @
             (case rp_MaxAgeDays retention of
                None \<Rightarrow> []
              | Some days \<Rightarrow>
                  let maxAge = (scast days :: int64) * 24 * 3600000000000
                  in filter (\<lambda>record. created record + sint maxAge < now) sortedRecords)))"

definition legacy_delete_all :: "BackupRecord list \<Rightarrow> unit go" where
  "legacy_delete_all = for_each (\<lambda>record. go_bind (client_DeleteRecord record) (\<lambda>_. go_return ()))"

definition legacy_applyRetentionPolicy :: "BackupTask \<Rightarrow> (goerror + BackupTask) go" where
  "legacy_applyRetentionPolicy backupTask =
     (case bts_Retention (bt_Spec backupTask) of
        None \<Rightarrow> go_return (Inr backupTask)
      | Some retention \<Rightarrow>
          go_check (go_wrap ''failed to list BackupRecords''
            (client_ListRecords (bt_Namespace backupTask) (legacy_record_selector backupTask))) (\<lambda>items.
          go_bind time_Now (\<lambda>now.
          go_bind (go_lift (legacy_filterRecordsToDelete now items retention)) (\<lambda>recordsToDelete.
          go_bind (legacy_delete_all recordsToDelete) (\<lambda>_.
          go_return (Inr (backupTask\<lparr>bt_Status := (bt_Status backupTask)
            \<lparr>bst_BackupHistoryCount := word_of_int (int (length items) - int (length recordsToDelete))\<rparr>\<rparr>)))))))"

definition legacy_calculateNextSchedule :: "BackupTask \<Rightarrow> cron_job \<Rightarrow> int" where
  "legacy_calculateNextSchedule backupTask cronJob = seconds 300"

definition legacy_reconcileBackupTask :: "BackupTask \<Rightarrow> (goerror + ctrl_result) go" where
  "legacy_reconcileBackupTask backupTask =
     go_check (go_wrap ''failed to create/update CronJob'' (legacy_createOrUpdateCronJob backupTask)) (\<lambda>cronJob.
     go_check (go_wrap ''failed to update status'' (legacy_updateBackupTaskStatus backupTask cronJob)) (\<lambda>_.
     if length (cjst_Active (cj_Status cronJob)) > 0
     then go_return (Inr \<lparr>res_RequeueAfter = seconds 30\<rparr>)
     else
       go_bind (legacy_applyRetentionPolicy backupTask) (\<lambda>r.
       let backupTask = (case r of Inl err \<Rightarrow> backupTask | Inr t \<Rightarrow> t);
           requeueAfter = legacy_calculateNextSchedule backupTask cronJob
       in if requeueAfter > 0 then go_return (Inr \<lparr>res_RequeueAfter = requeueAfter\<rparr>)
          else go_return (Inr \<lparr>res_RequeueAfter = seconds 300\<rparr>))))"

definition legacy_finalizeBackupTask :: "BackupTask \<Rightarrow> (goerror + unit) go" where
  "legacy_finalizeBackupTask backupTask =
     go_bind (client_DeleteCronJob (legacy_cron_key backupTask)) (\<lambda>r.
     let continue = go_check (go_wrap ''failed to list BackupRecords''
           (client_ListRecords (bt_Namespace backupTask) (legacy_record_selector backupTask))) (\<lambda>items.
           go_bind (legacy_delete_all items) (\<lambda>_. go_return (Inr ())))
     in case r of
          Inl err \<Rightarrow> if \<not> IsNotFound err then go_return (Inl (Wrapf ''failed to delete CronJob'' err)) else continue
        | Inr _ \<Rightarrow> continue)"

text \<open>The three parts of \<open>Reconcile\<close> after the task has been read.\<close>

definition legacy_reconcile_deleted :: "BackupTask \<Rightarrow> (goerror + ctrl_result) go" where
  "legacy_reconcile_deleted backupTask =
     go_bind (go_world (\<lambda>w. w_ContainsFinalizer w backupTask lc_backupTaskFinalizer)) (\<lambda>contains.
     if contains then
       go_check (legacy_finalizeBackupTask backupTask) (\<lambda>_.
       go_bind (go_world (\<lambda>w. w_RemoveFinalizer w backupTask lc_backupTaskFinalizer)) (\<lambda>backupTask.
       go_check (client_UpdateTask backupTask) (\<lambda>_.
       go_return (Inr zero_result))))
     else go_return (Inr zero_result))"

definition legacy_ensure_finalizer :: "BackupTask \<Rightarrow> (goerror + BackupTask) go" where
  "legacy_ensure_finalizer backupTask =
     go_bind (go_world (\<lambda>w. w_ContainsFinalizer w backupTask lc_backupTaskFinalizer)) (\<lambda>contains.
     if \<not> contains then
       go_bind (go_world (\<lambda>w. w_AddFinalizer w backupTask lc_backupTaskFinalizer)) (\<lambda>backupTask.
       client_UpdateTask backupTask)
     else go_return (Inr backupTask))"

definition legacy_Reconcile :: "key \<Rightarrow> (goerror + ctrl_result) go" where
  "legacy_Reconcile req =
     go_bind (client_GetTask req) (\<lambda>r.
     case r of
       Inl err \<Rightarrow> if IsNotFound err then go_return (Inr zero_result) else go_return (Inl err)
     | Inr backupTask \<Rightarrow>
         if \<not> IsZero (om_DeletionTimestamp (bt_Meta backupTask)) then legacy_reconcile_deleted backupTask
         else
           go_check (legacy_ensure_finalizer backupTask) (\<lambda>backupTask.
           go_bind (legacy_reconcileBackupTask backupTask) (\<lambda>result.
           case result of
             Inl err \<Rightarrow> go_bind (recorder_Eventf backupTask ''Warning'' ''ReconcileFailed''
                 ''Failed to reconcile BackupTask: %v'' err) (\<lambda>_. go_return result)
           | Inr _ \<Rightarrow> go_return result)))"

section \<open>What has the same text\<close>

named_theorems same_code

lemma same_constants [same_code]: "lc_backupTaskFinalizer = backupTaskFinalizer" "lc_backupTaskLabelKey = backupTaskLabelKey"
  "lc_backupTaskUIDLabelKey = backupTaskUIDLabelKey" "lc_createdByLabelKey = createdByLabelKey"
  by (simp_all add: lc_consts ctrl_consts)

lemma same_objects [same_code]: "legacy_cron_key = cron_key" "legacy_record_selector = record_selector"
  "legacy_new_cron_job = new_cron_job"
  by (simp_all add: fun_eq_iff legacy_cron_key_def cron_key_def legacy_cronJobName_def cronJobName_def same_constants
      legacy_record_selector_def record_selector_def legacy_new_cron_job_def new_cron_job_def legacy_task_labels_def task_labels_def)

lemma same_status [same_code]: "legacy_observed_status = observed_status" "legacy_conditions_at = conditions_at"
  by (simp_all only: fun_eq_iff legacy_observed_status_def observed_status_def legacy_conditions_at_def conditions_at_def) simp_all

lemma same_filter [same_code]: "legacy_filterRecordsToDelete = filterRecordsToDelete"
  unfolding fun_eq_iff legacy_filterRecordsToDelete_def filterRecordsToDelete_def expired_def days_duration_def Let_def
  by simp

lemma same_functions [same_code]: "legacy_delete_all = delete_all" "legacy_updateBackupTaskStatus = updateBackupTaskStatus"
  "legacy_applyRetentionPolicy = applyRetentionPolicy" "legacy_calculateNextSchedule = calculateNextSchedule"
  "legacy_finalizeBackupTask = finalizeBackupTask" "legacy_reconcile_deleted = reconcile_deleted"
  "legacy_ensure_finalizer = ensure_finalizer"
proof -
  show del: "legacy_delete_all = delete_all" by (simp only: legacy_delete_all_def delete_all_def)
  show "legacy_updateBackupTaskStatus = updateBackupTaskStatus"
    by (simp only: fun_eq_iff legacy_updateBackupTaskStatus_def updateBackupTaskStatus_def legacy_updateConditions_def
        updateConditions_def same_status) simp
  show "legacy_applyRetentionPolicy = applyRetentionPolicy"
    by (simp only: fun_eq_iff legacy_applyRetentionPolicy_def applyRetentionPolicy_def del same_objects same_filter history_count_def) simp
  show "legacy_calculateNextSchedule = calculateNextSchedule"
    by (simp only: fun_eq_iff legacy_calculateNextSchedule_def calculateNextSchedule_def) simp
  show fin: "legacy_finalizeBackupTask = finalizeBackupTask"
    by (simp only: fun_eq_iff legacy_finalizeBackupTask_def finalizeBackupTask_def del same_objects) simp
  show "legacy_reconcile_deleted = reconcile_deleted"
    by (simp only: fun_eq_iff legacy_reconcile_deleted_def reconcile_deleted_def fin same_constants has_finalizer_def
        without_finalizer_def) simp
  show "legacy_ensure_finalizer = ensure_finalizer"
    by (simp only: fun_eq_iff legacy_ensure_finalizer_def ensure_finalizer_def same_constants has_finalizer_def
        with_finalizer_def) simp
qed

lemma legacy_Reconcile_parts:
  "legacy_Reconcile k = Reconcile_with (\<lambda>_. go_return (Inr ())) legacy_createOrUpdateCronJob k"
proof -
  have "legacy_reconcileBackupTask t = reconcile_with legacy_createOrUpdateCronJob t" for t
    by (simp only: legacy_reconcileBackupTask_def reconcile_with_def same_functions)
  then show ?thesis
    by (simp only: legacy_Reconcile_def Reconcile_with_def same_functions deleting_def go_check_return)
qed

section \<open>Its protocol\<close>

definition legacy_written :: "world \<Rightarrow> BackupTask \<Rightarrow> gopanic + (goerror + cron_job) \<Rightarrow> bool" where
  "legacy_written w t r \<longleftrightarrow> (\<exists>h. w_CreateOrUpdateTry w h (legacy_new_cron_job t)
     (legacy_mutate_cron_job (w_SetControllerReference w) t) = r)"

inductive legacy_lifecycle :: "world \<Rightarrow> key \<Rightarrow> stage \<Rightarrow> event \<Rightarrow> stage \<Rightarrow> bool" for w k where
  shared: "lifecycle w k s e s' \<Longrightarrow> shared_stage s \<Longrightarrow> legacy_lifecycle w k s e s'"
| schedule: "legacy_written w t (Inr (Inr c)) \<Longrightarrow>
    legacy_lifecycle w k (Claimed t) (CreateOrUpdateCronJob (legacy_new_cron_job t) (Inr c)) (Scheduled t c)"
| schedule_failed: "legacy_written w t (Inr (Inl e)) \<Longrightarrow>
    legacy_lifecycle w k (Claimed t) (CreateOrUpdateCronJob (legacy_new_cron_job t) (Inl e))
      (Broken t (Wrapf ''failed to create/update CronJob'' e))"

inductive legacy_outcome :: "world \<Rightarrow> stage \<Rightarrow> gopanic + (goerror + ctrl_result) \<Rightarrow> bool" for w where
  shared: "outcome w s r \<Longrightarrow> legacy_outcome w s r"
| panicked: "legacy_written w t (Inl p) \<Longrightarrow> legacy_outcome w (Claimed t) (Inl p)"

lemma moves_legacy_createOrUpdateCronJob:
  "moves (legacy_lifecycle w k) Start w (\<lambda>s. s = Claimed t)
     (go_wrap ''failed to create/update CronJob'' (legacy_createOrUpdateCronJob t))
     (ends (legacy_outcome w) (\<lambda>e s. s = Broken t e) (\<lambda>c s. s = Scheduled t c))"
  unfolding legacy_createOrUpdateCronJob_def
proof (rule moves_wrap, rule moves_world_bind)
  let ?c = "legacy_new_cron_job t"
  let ?f = "legacy_mutate_cron_job (w_SetControllerReference w) t"
  let ?Q = "\<lambda>r. ends (legacy_outcome w) (\<lambda>e s. s = Broken t e) (\<lambda>c s. s = Scheduled t c)
     (map_sum id (map_sum (Wrapf ''failed to create/update CronJob'') id) r)"
  show "moves (legacy_lifecycle w k) Start w (\<lambda>s. s = Claimed t) (client_CreateOrUpdateTry ?c ?f) ?Q"
    unfolding moves_def runs_def
  proof (intro allI impI, elim exE conjE)
    fix h s
    assume s: "reaches (legacy_lifecycle w k) Start h s" "s = Claimed t"
    define r where "r = w_CreateOrUpdateTry w h ?c ?f"
    have r: "legacy_written w t r" by (auto simp: legacy_written_def r_def)
    show "\<exists>s. reaches (legacy_lifecycle w k) Start (snd (client_CreateOrUpdateTry ?c ?f w h)) s
        \<and> ?Q (fst (client_CreateOrUpdateTry ?c ?f w h)) s"
    proof (cases r)
      case (Inl p)
      with r s show ?thesis
        by (auto simp: client_CreateOrUpdateTry_def r_def [symmetric] intro: legacy_outcome.panicked)
    next
      case (Inr x)
      with r have "\<exists>s'. legacy_lifecycle w k (Claimed t) (CreateOrUpdateCronJob ?c x) s' \<and> ?Q (Inr x) s'"
        by (cases x) (auto intro: legacy_lifecycle.intros)
      with s Inr show ?thesis
        by (auto simp: client_CreateOrUpdateTry_def r_def [symmetric] intro: reaches.more)
    qed
  qed
qed

interpretation older_protocol: task_protocol "legacy_lifecycle w k" w k "legacy_outcome w" Claimed
    "\<lambda>_. go_return (Inr ())" legacy_createOrUpdateCronJob for w k
  by unfold_locales
    (auto intro: legacy_lifecycle.shared legacy_outcome.shared moves_return moves_legacy_createOrUpdateCronJob)

lemma legacy_reaches:
  "\<exists>s. reaches (legacy_lifecycle w k) Start (snd (legacy_Reconcile k w [])) s \<and> legacy_outcome w s (fst (legacy_Reconcile k w []))"
proof -
  have "\<exists>s. reaches (legacy_lifecycle w k) Start [] s \<and> s = Start" by (blast intro: reaches.none)
  from runsD [OF older_protocol.moves_Reconcile_with [unfolded moves_def] this]
  show ?thesis unfolding legacy_Reconcile_parts .
qed

section \<open>What the log of a stage contains\<close>

definition legacy_scheduled :: "world \<Rightarrow> key \<Rightarrow> event list \<Rightarrow> BackupTask \<Rightarrow> bool" where
  "legacy_scheduled w k h t \<longleftrightarrow> claimed_by w k h t \<and>
     (\<exists>c. legacy_written w t (Inr (Inr c)) \<and> CreateOrUpdateCronJob (legacy_new_cron_job t) (Inr c) \<in> set h)"

definition legacy_reviewed :: "world \<Rightarrow> key \<Rightarrow> event list \<Rightarrow> RetentionPolicy \<Rightarrow> bool" where
  "legacy_reviewed w k h p \<longleftrightarrow> (\<exists>t. legacy_scheduled w k h t \<and> bts_Retention (bt_Spec t) = Some p)"

fun legacy_evidence :: "world \<Rightarrow> key \<Rightarrow> event list \<Rightarrow> stage \<Rightarrow> bool" where
  "legacy_evidence w k h Start = (h = [])"
| "legacy_evidence w k h (Claiming t) = (h = [GetTask k (Inr t)] \<and> \<not> deleting t \<and> \<not> has_finalizer w t)"
| "legacy_evidence w k h (Claimed t) = claimed_by w k h t"
| "legacy_evidence w k h (Colliding t m) = False"
| "legacy_evidence w k h (Configured t) = False"
| "legacy_evidence w k h (Scheduled t c) = legacy_scheduled w k h t"
| "legacy_evidence w k h (Observed t c l) = legacy_scheduled w k h t"
| "legacy_evidence w k h (Judged t c l) = legacy_scheduled w k h t"
| "legacy_evidence w k h (Reported t c) = legacy_scheduled w k h t"
| "legacy_evidence w k h (Listed p rs) = legacy_reviewed w k h p"
| "legacy_evidence w k h (Pruning ds) = (\<exists>p. legacy_reviewed w k h p)"
| "legacy_evidence w k h (Cleaning t) = True"
| "legacy_evidence w k h (Unscheduled t) = True"
| "legacy_evidence w k h (Purging t rs) = True"
| "legacy_evidence w k h (Broken t e) = (claimed_by w k h t \<and> failed_step h \<and> reported_error h e)"
| "legacy_evidence w k h (Finished r) = (case r of Inl e \<Rightarrow> reported_error h e
     | Inr x \<Rightarrow> x = zero_result \<or> (\<exists>t. legacy_scheduled w k h t))"
| "legacy_evidence w k h (Crashed x) = (\<exists>p n. x = SliceOutOfRange \<and> legacy_reviewed w k h p
     \<and> rp_MaxBackupCount p = Some n \<and> sint n < 0)"

lemma legacy_log_step:
  "legacy_scheduled w k h t \<Longrightarrow> legacy_scheduled w k (h @ [e]) t"
  "legacy_reviewed w k h p \<Longrightarrow> legacy_reviewed w k (h @ [e]) p"
proof -
  show s: "legacy_scheduled w k h t \<Longrightarrow> legacy_scheduled w k (h @ [e]) t" for t
    unfolding legacy_scheduled_def using log_step(1) [of w k h t e] by auto
  show "legacy_reviewed w k h p \<Longrightarrow> legacy_reviewed w k (h @ [e]) p"
    unfolding legacy_reviewed_def using s by blast
qed

lemma legacy_failed_step: "legacy_scheduled w k h t \<Longrightarrow> failed_step (h @ [GetTask k' (Inl e)])"
  by (auto simp: legacy_scheduled_def failed_step_def)

lemma legacy_evidence_shared:
  "lifecycle w k s e s' \<Longrightarrow> shared_stage s \<Longrightarrow> legacy_evidence w k h s \<Longrightarrow> legacy_evidence w k (h @ [e]) s'"
proof (induction rule: lifecycle.induct)
  case (select p rs n)
  then have r: "legacy_reviewed w k (h @ [Now n]) p" by (simp add: legacy_log_step)
  show ?case
  proof (cases "filterRecordsToDelete n rs p")
    case (Inl x)
    with r show ?thesis
      by (auto simp: filterRecordsToDelete_cases split: if_splits)
  next
    case (Inr ds)
    with r show ?thesis by auto
  qed
next
  case (absent e)
  then show ?case
    using reported_errorI [of "GetTask k (Inl e)" e e "[]"] by auto
next
  case (claimed t)
  then show ?case by (auto simp: claimed_by_def)
next
  case (claim t t')
  then show ?case by (auto simp: claimed_by_def)
next
  case (review c t p rs)
  then have "legacy_scheduled w k (h @ [ListRecords (bt_Namespace t) (record_selector t) (Inr rs)]) t"
    by (simp add: legacy_log_step)
  with review show ?case by (auto simp: legacy_reviewed_def)
next
  case (review_failed c t p e)
  then have "legacy_scheduled w k (h @ [ListRecords (bt_Namespace t) (record_selector t) (Inl e)]) t"
    by (simp add: legacy_log_step)
  then show ?case by auto
next
  case (prune d ds a)
  then show ?case by (auto intro: legacy_log_step)
next
  case (observe_failed t c e)
  then show ?case
    using legacy_failed_step by (auto simp: legacy_scheduled_def intro: log_step reported_errorI)
next
  case (report_failed t c l e)
  then show ?case by (auto simp: legacy_scheduled_def failed_step_def intro: log_step reported_errorI)
next
  case (claim_failed t e)
  then show ?case using reported_errorI [of "UpdateTask (with_finalizer w t) (Inl e)" e e h] by simp
qed (auto simp: legacy_log_step log_step reported_errorI)

lemma legacy_evidence_step: "legacy_lifecycle w k s e s' \<Longrightarrow> legacy_evidence w k h s \<Longrightarrow> legacy_evidence w k (h @ [e]) s'"
proof (induction rule: legacy_lifecycle.induct)
  case (shared s e s')
  then show ?case by (rule legacy_evidence_shared)
next
  case (schedule t c)
  then show ?case by (auto simp: legacy_scheduled_def intro: log_step)
next
  case (schedule_failed t e)
  then show ?case by (auto simp: failed_step_def intro: log_step reported_errorI)
qed

interpretation older_run: controller_protocol "legacy_lifecycle w k" Start "legacy_Reconcile k w []" "legacy_outcome w"
    "legacy_evidence w k" for w k
  by unfold_locales (auto intro: legacy_reaches legacy_evidence_step)

inductive_cases legacy_cron_job_step: "legacy_lifecycle w k s (CreateOrUpdateCronJob c r) s'"

section \<open>Panics of the mutation\<close>

text \<open>
  What \<open>CreateOrUpdate\<close> does with the mutation: an object it returns was given to it, and a panic of
  it is not recovered; it returns an error also when it has not run the mutation.
\<close>

definition panics_pass :: "world \<Rightarrow> bool" where
  "panics_pass w \<longleftrightarrow> (\<forall>h c f. case w_CreateOrUpdateTry w h c f of
     Inl p \<Rightarrow> (\<exists>c0. f c0 = Inl p)
   | Inr (Inl e) \<Rightarrow> True
   | Inr (Inr c') \<Rightarrow> (\<exists>c0 c1. f c0 = Inr (Inr c1)))"

definition has_ports :: "BackupTask \<Rightarrow> bool" where
  "has_ports t \<longleftrightarrow> \<not> (\<exists>x \<in> set (bt_Targets t). has_portless x)"

lemma has_ports_mutate:
  "has_ports t \<longleftrightarrow> (\<exists>r. legacy_mutate_cron_job f t c = Inr r)" "\<not> has_ports t \<longleftrightarrow> (\<exists>p. legacy_mutate_cron_job f t c = Inl p)"
proof -
  have "has_ports t \<longleftrightarrow> \<not> (\<exists>p. legacy_buildCronJobSpec t = Inl p)"
    by (simp only: has_ports_def legacy_spec_panic)
  then show "has_ports t \<longleftrightarrow> (\<exists>r. legacy_mutate_cron_job f t c = Inr r)" "\<not> has_ports t \<longleftrightarrow> (\<exists>p. legacy_mutate_cron_job f t c = Inl p)"
    by (cases "legacy_buildCronJobSpec t"; simp add: legacy_mutate_cron_job_def)+
qed

lemma panics_passD:
  assumes "panics_pass w"
  shows "w_CreateOrUpdateTry w h c f = Inr (Inr c') \<Longrightarrow> \<exists>c0 r. f c0 = Inr r" and "w_CreateOrUpdateTry w h c f = Inl p \<Longrightarrow> \<exists>c0. f c0 = Inl p"
proof -
  have "case w_CreateOrUpdateTry w h c f of Inl p \<Rightarrow> \<exists>c0. f c0 = Inl p | Inr (Inl e) \<Rightarrow> True
      | Inr (Inr c') \<Rightarrow> \<exists>c0 c1. f c0 = Inr (Inr c1)"
    using assms unfolding panics_pass_def by blast
  then show "w_CreateOrUpdateTry w h c f = Inr (Inr c') \<Longrightarrow> \<exists>c0 r. f c0 = Inr r"
    and "w_CreateOrUpdateTry w h c f = Inl p \<Longrightarrow> \<exists>c0. f c0 = Inl p"
    by auto
qed

lemma legacy_written_ports:
  assumes "panics_pass w"
  shows "legacy_written w t (Inr (Inr c)) \<Longrightarrow> has_ports t" and "legacy_written w t (Inl p) \<Longrightarrow> \<not> has_ports t"
  unfolding legacy_written_def by (metis has_ports_mutate(1) panics_passD(1) [OF assms])
    (metis has_ports_mutate(2) panics_passD(2) [OF assms])

lemma legacy_scheduled_ports: "panics_pass w \<Longrightarrow> legacy_scheduled w k h t \<Longrightarrow> has_ports t"
  unfolding legacy_scheduled_def using legacy_written_ports(1) by blast

lemma steady_panics_pass: "panics_pass (steady t rs answer)"
proof -
  have "case map_sum id (map_sum id answer) (f c) of Inl p \<Rightarrow> \<exists>c0. f c0 = Inl p | Inr (Inl e) \<Rightarrow> True
      | Inr (Inr c') \<Rightarrow> \<exists>c0 c1. f c0 = Inr (Inr c1)" for f :: "cron_job \<Rightarrow> gopanic + (goerror + cron_job)" and c
    by (cases "f c"; cases "projr (f c)") auto
  then show ?thesis by (simp add: panics_pass_def steady_def)
qed

text \<open>A live task with a database without a port.\<close>

definition portless_database :: DatabaseBackupSpec where
  "portless_database = \<lparr>db_Type = ''mysql'', db_Host = ''db'', db_Port = None, db_Database = ''app'',
     db_AuthSecretRef = \<lparr>sr_Name = ''auth'', sr_Namespace = []\<rparr>, db_ExtraArgs = [], db_EnablePITR = False\<rparr>"

definition portless_task :: BackupTask where
  "portless_task = zero_task\<lparr>bt_Meta := zero_meta\<lparr>om_Name := ''t''\<rparr>, bt_Spec := zero_task_spec\<lparr>bts_Targets :=
     Some [zero_target\<lparr>tgt_Type := ''database'', tgt_Database := Some portless_database\<rparr>]\<rparr>\<rparr>"

definition portless_world :: world where
  "portless_world = steady portless_task [] id"

definition portless_key :: key where
  "portless_key = key_of (bt_Meta portless_task)"

lemma portless_facts:
  "\<not> deleting portless_task" "\<not> has_finalizer portless_world portless_task"
  "bt_Spec (with_finalizer portless_world portless_task) = bt_Spec portless_task"
  by (simp_all add: deleting_def has_finalizer_def with_finalizer_def portless_world_def steady_def portless_task_def
      zero_task_def zero_meta_def)

lemma portless_reads: "w_GetTask portless_world h k = Inr portless_task" "w_UpdateTask portless_world h t = Inr t"
  "w_CreateOrUpdateTry portless_world h c f = map_sum id (map_sum id id) (f c)"
  by (simp_all add: portless_world_def steady_def)

lemma portless_panic: "\<exists>p. legacy_mutate_cron_job f (with_finalizer portless_world portless_task) c = Inl p"
proof -
  have "\<not> has_ports (with_finalizer portless_world portless_task)"
    by (simp add: has_ports_def portless_facts)
      (simp add: portless_task_def has_portless_def portless_def portless_database_def)
  then show ?thesis using has_ports_mutate(2) by blast
qed

lemma portless_run: "\<exists>p. legacy_Reconcile portless_key portless_world [] = (Inl p,
    [GetTask portless_key (Inr portless_task),
     UpdateTask (with_finalizer portless_world portless_task) (Inr (with_finalizer portless_world portless_task))])"
proof -
  obtain p where p: "legacy_mutate_cron_job (w_SetControllerReference portless_world)
      (with_finalizer portless_world portless_task) (new_cron_job (with_finalizer portless_world portless_task)) = Inl p"
    using portless_panic by blast
  show ?thesis
    by (rule exI [of _ p])
      (simp add: legacy_Reconcile_parts Reconcile_with_def reconcile_with_def ensure_finalizer_def legacy_createOrUpdateCronJob_def
        client_CreateOrUpdateTry_def go_run portless_facts portless_reads same_objects p)
qed

section \<open>Properties\<close>

text \<open>
  C24: every run of the older controller is a path of a protocol that differs from that of the
  controller which is started only between the finalizer and the cron job: it stores no config map
  and writes the cron job at once, and a panic while the cron job is built is the result of the run.
\<close>

theorem legacy_reconcile_follows_lifecycle:
  "\<exists>s. reaches (legacy_lifecycle w k) Start (snd (legacy_Reconcile k w [])) s
     \<and> legacy_outcome w s (fst (legacy_Reconcile k w []))"
  by (rule legacy_reaches)

text \<open>
  C26: the two task controllers are the same program completed with different functions for the
  config map and for the cron job: reading the task, its finalizer and its deletion, the status,
  the retention policy and the requeue times are equal.
\<close>

theorem controllers_share_code:
  "Reconcile k = Reconcile_with ensure_config_map createOrUpdateCronJob k \<and>
   legacy_Reconcile k = Reconcile_with (\<lambda>_. go_return (Inr ())) legacy_createOrUpdateCronJob k"
  by (intro conjI Reconcile_parts legacy_Reconcile_parts)



end
