(* ===== verification/Record_System.thy ===== *)
theory Record_System
  imports Record_Lifecycle
begin

text \<open>
  The record controller in a cluster.  The stored records change by the calls of the controller, which the
  API server answers (\<open>record_legal\<close>, \<open>record_effect\<close>: an update of the status subresource changes
  nothing but the status), and by everybody else between any two calls.  A \<open>lifetime\<close> of a record is
  any number of runs for any records, each cut off at any point, while the record is not deleted.
\<close>

section \<open>Stored records\<close>

type_synonym store = "key \<Rightarrow> BackupRecord option"

fun record_legal :: "store \<Rightarrow> event \<Rightarrow> bool" where
  "record_legal st (GetRecord k (Inr r)) = (st k = Some r)"
| "record_legal st (GetRecord k (Inl e)) = (IsNotFound e \<longrightarrow> st k = None)"
| "record_legal st (UpdateRecordStatus r (Inr r')) =
    (case st (key_of (br_Meta r)) of None \<Rightarrow> False | Some old \<Rightarrow> r' = old\<lparr>br_Status := br_Status r\<rparr>)"
| "record_legal st e = True"

fun record_effect :: "event \<Rightarrow> store \<Rightarrow> store" where
  "record_effect (UpdateRecordStatus r (Inr r')) st = st(key_of (br_Meta r) := Some r')"
| "record_effect e st = st"

text \<open>
  What others do while the record under \<open>k\<close> is not deleted.  They may write all of a record but what is
  for the controller to compute: the status, the completion time and the statistics.
\<close>

inductive record_others :: "key \<Rightarrow> store \<Rightarrow> store \<Rightarrow> bool" for k where
  create: "st (key_of (br_Meta r)) = None \<Longrightarrow> record_others k st (st(key_of (br_Meta r) := Some r))"
| edit: "st (key_of (br_Meta r')) = Some r \<Longrightarrow> br_Status r' = br_Status r \<Longrightarrow>
    brs_CompletionTime (br_Spec r') = brs_CompletionTime (br_Spec r) \<Longrightarrow>
    brs_Statistics (br_Spec r') = brs_Statistics (br_Spec r) \<Longrightarrow>
    record_others k st (st(key_of (br_Meta r') := Some r'))"
| delete: "k' \<noteq> k \<Longrightarrow> record_others k st (st(k' := None))"

inductive record_serves :: "key \<Rightarrow> store \<Rightarrow> event list \<Rightarrow> store \<Rightarrow> bool" for k where
  idle: "record_serves k st [] st"
| other: "record_others k st st' \<Longrightarrow> record_serves k st' es st'' \<Longrightarrow> record_serves k st es st''"
| answer: "record_legal st e \<Longrightarrow> record_serves k (record_effect e st) es st' \<Longrightarrow> record_serves k st (e # es) st'"

inductive lifetime :: "key \<Rightarrow> store \<Rightarrow> store \<Rightarrow> bool" for k st0 where
  start: "lifetime k st0 st0"
| run: "lifetime k st0 st \<Longrightarrow> record_serves k st (take n (snd (record_Reconcile k' w []))) st' \<Longrightarrow> lifetime k st0 st'"

definition store_ok :: "store \<Rightarrow> bool" where
  "store_ok st \<longleftrightarrow> (\<forall>k r. st k = Some r \<longrightarrow> key_of (br_Meta r) = k)"

section \<open>Which record a run writes\<close>

fun stage_key :: "key \<Rightarrow> record_stage \<Rightarrow> bool" where
  "stage_key k Fresh = True"
| "stage_key k (Loaded r) = (key_of (br_Meta r) = k)"
| "stage_key k (Orphan r) = (key_of (br_Meta r) = k)"
| "stage_key k (Linked r t) = (key_of (br_Meta r) = k)"
| "stage_key k (Ended r t j) = (key_of (br_Meta r) = k)"
| "stage_key k (Counting r t j) = (key_of (br_Meta r) = k)"
| "stage_key k (Timing r t j) = (key_of (br_Meta r) = k)"
| "stage_key k (Failing r t j) = (key_of (br_Meta r) = k)"
| "stage_key k (Verdict r t j) = (key_of (br_Meta r) = k)"
| "stage_key k (Dating r) = (key_of (br_Meta r) = k)"
| "stage_key k (Verifying r) = (key_of (br_Meta r) = k)"
| "stage_key k (Verified r) = (key_of (br_Meta r) = k)"
| "stage_key k (Done x) = True"

lemma meta_simps [simp]:
  "br_Meta (set_phase p r) = br_Meta r" "br_Meta (set_error m r) = br_Meta r" "br_Meta (complete_at n r) = br_Meta r"
  "br_Meta (set_duration w n r) = br_Meta r" "br_Meta (set_expiration d r) = br_Meta r"
  "br_Meta (set_verification n x m r) = br_Meta r" "br_Meta (fail r) = br_Meta r" "br_Meta (expire r) = br_Meta r"
  "br_Meta (explained r ps) = br_Meta r"
  by (simp_all add: set_phase_def set_error_def complete_at_def set_duration_def set_expiration_def set_verification_def
      fail_def expire_def explained_def Let_def split: list.split option.split)

lemma stage_key_after:
  "key_of (br_Meta r) = k \<Longrightarrow> stage_key k (judged r t js)" "key_of (br_Meta r) = k \<Longrightarrow> stage_key k (after_dating r)"
  "key_of (br_Meta r) = k \<Longrightarrow> stage_key k (after_verdict t r)"
  by (simp_all add: judged_def after_dating_def after_verdict_def split: option.split)

lemma legal_update_key:
  "record_legal st (UpdateRecordStatus r (Inr r')) \<Longrightarrow> store_ok st \<Longrightarrow> key_of (br_Meta r') = key_of (br_Meta r)"
  by (auto simp: store_ok_def split: option.splits)

lemma stage_key_step:
  "record_flow w k s e s' \<Longrightarrow> record_legal st e \<Longrightarrow> store_ok st \<Longrightarrow> stage_key k s \<Longrightarrow> stage_key k s'"
proof (induction rule: record_flow.induct)
  case (load r)
  then show ?case by (simp add: store_ok_def)
next
  case (verdict r t j r')
  from legal_update_key [OF verdict.prems(1,2)] verdict.prems(3) show ?case by (simp add: stage_key_after)
next
  case (date r r')
  from legal_update_key [OF date.prems(1,2)] date.prems(3) show ?case by (simp add: stage_key_after)
qed (simp_all add: stage_key_after)

lemma effect_ok: "record_legal st e \<Longrightarrow> store_ok st \<Longrightarrow> store_ok (record_effect e st)"
proof (induction e st rule: record_effect.induct)
  case (1 r r' st)
  from legal_update_key [OF 1] 1(2) show ?case by (auto simp: store_ok_def)
qed simp_all

lemma others_ok: "record_others k st st' \<Longrightarrow> store_ok st \<Longrightarrow> store_ok st'"
  by (induction rule: record_others.induct) (auto simp: store_ok_def)

section \<open>What a lifetime keeps\<close>

definition kept :: "key \<Rightarrow> BackupRecord \<Rightarrow> store \<Rightarrow> bool" where
  "kept k r0 st \<longleftrightarrow> (\<exists>r. st k = Some r \<and> brs_CompletionTime (br_Spec r) = brs_CompletionTime (br_Spec r0)
     \<and> brs_Statistics (br_Spec r) = brs_Statistics (br_Spec r0) \<and> (finished r0 \<longrightarrow> br_Status r = br_Status r0))"

text \<open>While a run for \<open>k'\<close> is in stage \<open>s\<close>: if the record is finished, a run for it has nothing to do.\<close>

definition run_kept :: "key \<Rightarrow> BackupRecord \<Rightarrow> key \<Rightarrow> store \<Rightarrow> record_stage \<Rightarrow> bool" where
  "run_kept k r0 k' st s \<longleftrightarrow> store_ok st \<and> kept k r0 st \<and> stage_key k' s
     \<and> (finished r0 \<and> k' = k \<longrightarrow> s = Fresh \<or> (\<exists>x. s = Done x))"

lemma write_key:
  assumes "record_flow w k s (UpdateRecordStatus l a) s'" and "stage_key k s"
  shows "key_of (br_Meta l) = k" and "s \<noteq> Fresh" and "s \<noteq> Done x"
  using assms by (auto simp: record_write_step)

lemma effect_elsewhere: "record_effect e st = st \<or> (\<exists>l r. e = UpdateRecordStatus l (Inr r) \<and> record_effect e st = st(key_of (br_Meta l) := Some r))"
  by (cases "(e, st)" rule: record_effect.cases) auto

lemma kept_step:
  assumes "record_flow w k' s e s'" and "record_legal st e" and "run_kept k r0 k' st s"
  shows "run_kept k r0 k' (record_effect e st) s'"
proof -
  have ok: "store_ok st" and key: "stage_key k' s" and kept: "kept k r0 st"
    and idle: "finished r0 \<and> k' = k \<longrightarrow> s = Fresh \<or> (\<exists>x. s = Done x)"
    using assms(3) by (auto simp: run_kept_def)
  have "kept k r0 (record_effect e st)"
  proof (cases "record_effect e st = st")
    case False
    then obtain l r where e: "e = UpdateRecordStatus l (Inr r)" "record_effect e st = st(key_of (br_Meta l) := Some r)"
      using effect_elsewhere by blast
    note wr = write_key [OF assms(1) [unfolded e(1)] key]
    show ?thesis
    proof (cases "k' = k")
      case True
      with wr idle have "\<not> finished r0" by blast
      moreover obtain old where "st k = Some old" "r = old\<lparr>br_Status := br_Status l\<rparr>"
        using assms(2) e(1) wr(1) True by (auto split: option.splits)
      ultimately show ?thesis using kept e(2) wr(1) True by (auto simp: kept_def)
    qed (use kept e(2) wr(1) in \<open>simp add: kept_def\<close>)
  qed (use kept in simp)
  moreover have "finished r0 \<and> k' = k \<longrightarrow> s' = Fresh \<or> (\<exists>x. s' = Done x)"
  proof
    assume f: "finished r0 \<and> k' = k"
    with idle have "s = Fresh \<or> (\<exists>x. s = Done x)" by blast
    with assms(1,2) kept f show "s' = Fresh \<or> (\<exists>x. s' = Done x)"
      by (auto simp: kept_def finished_def elim!: record_flow.cases)
  qed
  ultimately show ?thesis
    using effect_ok [OF assms(2) ok] stage_key_step [OF assms(1,2) ok key] by (simp add: run_kept_def)
qed

lemma kept_others: "record_others k st st' \<Longrightarrow> store_ok st \<Longrightarrow> kept k r0 st \<Longrightarrow> kept k r0 st'"
proof (induction rule: record_others.induct)
  case (edit st r' r)
  then show ?case by (cases "key_of (br_Meta r') = k") (auto simp: kept_def)
qed (auto simp: kept_def)

lemma kept_serves:
  "record_serves k st es st' \<Longrightarrow> path (record_flow w k') s es s' \<Longrightarrow> run_kept k r0 k' st s \<Longrightarrow> store_ok st' \<and> kept k r0 st'"
proof (induction arbitrary: s rule: record_serves.induct)
  case (idle st)
  then show ?case by (simp add: run_kept_def)
next
  case (other st st' es st'')
  then have "run_kept k r0 k' st' s" using kept_others others_ok by (auto simp: run_kept_def)
  with other show ?case by blast
next
  case (answer st e es st')
  then obtain s1 where "record_flow w k' s e s1" "path (record_flow w k') s1 es s'" by auto
  with answer kept_step show ?case by blast
qed

lemma kept_lifetime: "lifetime k st0 st \<Longrightarrow> store_ok st0 \<Longrightarrow> kept k r0 st0 \<Longrightarrow> store_ok st \<and> kept k r0 st"
proof (induction rule: lifetime.induct)
  case (run st n k' w st')
  obtain s0 where "reaches (record_flow w k') Fresh (snd (record_Reconcile k' w [])) s0"
    using record_Reconcile_reaches by blast
  from reaches_prefix [OF this] obtain s where "path (record_flow w k') Fresh (take n (snd (record_Reconcile k' w []))) s"
    by blast
  with run show ?case by (intro kept_serves) (auto simp: run_kept_def)
qed simp

section \<open>What a run that waits has achieved\<close>

text \<open>Without others in between, a run changes the store by the effects of its calls alone.\<close>

fun record_quiet :: "store \<Rightarrow> event list \<Rightarrow> bool" where
  "record_quiet st [] = True"
| "record_quiet st (e # es) = (record_legal st e \<and> record_quiet (record_effect e st) es)"

definition record_replay :: "event list \<Rightarrow> store \<Rightarrow> store" where
  "record_replay es st = foldl (\<lambda>st e. record_effect e st) st es"

definition decided :: "key \<Rightarrow> store \<Rightarrow> BackupTask \<Rightarrow> job \<Rightarrow> BackupRecord \<Rightarrow> bool" where
  "decided k st t j r \<longleftrightarrow> st k = Some r \<and> br_Phase r = phase_of_job j"

text \<open>The job is the latest of those listed for the record in the log, and the task is the one it refers to.\<close>

definition latest_of :: "key \<Rightarrow> event list \<Rightarrow> BackupTask \<Rightarrow> job \<Rightarrow> bool" where
  "latest_of k h t j \<longleftrightarrow> (\<exists>r. chosen_by k h r t j)"

fun settled_record :: "key \<Rightarrow> event list \<Rightarrow> store \<Rightarrow> record_stage \<Rightarrow> bool" where
  "settled_record k h st (Dating l) = (\<exists>t j r d. latest_of k h t j \<and> decided k st t j r \<and> l = set_expiration d r)"
| "settled_record k h st (Verifying r) = (\<exists>t j. latest_of k h t j \<and> decided k st t j r \<and> due_expiration t r = None)"
| "settled_record k h st (Verified l) = (\<exists>t j r n. latest_of k h t j \<and> decided k st t j r \<and> due_expiration t r = None
     \<and> l = set_verification n ''Success'' ''Backup verification successful'' r)"
| "settled_record k h st (Done (Inr x)) = (x = five_minutes \<longrightarrow>
     (\<exists>t j r. latest_of k h t j \<and> decided k st t j r \<and> due_expiration t r = None \<and> \<not> due_verification r))"
| "settled_record k h st s = True"

lemma waits_differ: "half_a_minute \<noteq> five_minutes" "zero_result \<noteq> five_minutes"
  by (simp_all add: half_a_minute_def five_minutes_def zero_result_def)

lemma latest_of_step: "latest_of k h t j \<Longrightarrow> latest_of k (h @ [e]) t j"
  unfolding latest_of_def using chosen_mono [OF set_snoc] by blast

lemma legal_update:
  assumes "record_legal st (UpdateRecordStatus l (Inr r))" and "key_of (br_Meta l) = k"
  shows "br_Status r = br_Status l" and "record_effect (UpdateRecordStatus l (Inr r)) st = st(k := Some r)"
  using assms by (auto split: option.splits)

lemma due_expiration_status:
  "br_Status r' = br_Status r \<Longrightarrow> due_expiration t r' = due_expiration t r"
  "br_Status r' = br_Status r \<Longrightarrow> due_verification r' = due_verification r"
  by (simp_all add: due_expiration_def due_verification_def)

lemma due_after_dating: "due_expiration t (set_expiration d r) = None"
  by (simp add: due_expiration_def set_expiration_def)

lemma due_after_verification:
  "due_expiration t (set_verification n x m r) = due_expiration t r" "\<not> due_verification (set_verification n ''Success'' m r)"
  by (simp_all add: due_expiration_def due_verification_def set_verification_def api_consts)

lemma settled_after_dating:
  assumes "latest_of k h t j" and "decided k st t j r" and "due_expiration t r = None"
  shows "settled_record k h st (after_dating r)"
  using assms unfolding after_dating_def by auto

lemma settled_after_verdict:
  assumes "latest_of k h t j" and "decided k st t j r"
  shows "settled_record k h st (after_verdict t r)"
proof (cases "due_expiration t r")
  case None
  with settled_after_dating [OF assms] show ?thesis by (simp add: after_verdict_def)
next
  case (Some d)
  with assms show ?thesis by (auto simp: after_verdict_def)
qed

lemma settled_step:
  "record_flow w k s e s' \<Longrightarrow> record_evidence w k h s \<Longrightarrow> settled_record k h st s \<Longrightarrow> record_legal st e \<Longrightarrow> stage_key k s
    \<Longrightarrow> settled_record k (h @ [e]) (record_effect e st) s'"
proof (induction rule: record_flow.induct)
  case (no_record e)
  then show ?case by (simp add: waits_differ)
next
  case (jobs r t js)
  then show ?case by (simp add: judged_def waits_differ split: option.split)
next
  case (pods j ls r t ps)
  then show ?case by simp
next
  case (verdict r t j r')
  note upd = legal_update [OF verdict.prems(3)] 
  from verdict.prems(1) obtain r0 where c: "chosen_by k h r0 t j" "br_Phase r = phase_of_job j" by auto
  show ?case
  proof (rule settled_after_verdict)
    show "latest_of k (h @ [UpdateRecordStatus r (Inr r')]) t j"
      using c(1) by (auto simp: latest_of_def intro: chosen_mono [OF set_snoc])
    show "decided k (record_effect (UpdateRecordStatus r (Inr r')) st) t j r'"
      using upd [of k] verdict.prems(4) c(2) by (simp add: decided_def)
  qed
next
  case (date l r')
  note upd = legal_update [OF date.prems(3)]
  from date.prems(2) obtain t j r d where d: "latest_of k h t j" "decided k st t j r" "l = set_expiration d r" by auto
  show ?case
  proof (rule settled_after_dating)
    show "latest_of k (h @ [UpdateRecordStatus l (Inr r')]) t j" using d(1) by (rule latest_of_step)
    show "decided k (record_effect (UpdateRecordStatus l (Inr r')) st) t j r'"
      using upd [of k] date.prems(4) d(2,3) by (simp add: decided_def)
    have "br_Status r' = br_Status l" using upd(1) [of k] date.prems(4) by simp
    from due_expiration_status(1) [OF this] d(3) show "due_expiration t r' = None" by (simp add: due_after_dating)
  qed
next
  case (verify r n)
  then show ?case by (auto intro: latest_of_step)
next
  case (verified l r')
  note upd = legal_update [OF verified.prems(3)]
  from verified.prems(2) obtain t j r n where d: "latest_of k h t j" "decided k st t j r" "due_expiration t r = None"
    "l = set_verification n ''Success'' ''Backup verification successful'' r" by auto
  have s: "br_Status r' = br_Status l" using upd(1) [of k] verified.prems(4) by simp
  have "decided k (record_effect (UpdateRecordStatus l (Inr r')) st) t j r'"
    using upd [of k] verified.prems(4) d(2,4) by (simp add: decided_def)
  moreover have "due_expiration t r' = None" "\<not> due_verification r'"
    using due_expiration_status [OF s] d(3,4) due_after_verification by simp_all
  ultimately show ?case
    unfolding settled_record.simps
    by (intro impI exI [of _ t] exI [of _ j] exI [of _ r'] conjI latest_of_step [OF d(1)])
qed (simp_all add: waits_differ)

lemma settled_path:
  "path (record_flow w k) s es s' \<Longrightarrow> record_quiet st es \<Longrightarrow> store_ok st \<Longrightarrow> stage_key k s \<Longrightarrow> record_evidence w k h s
    \<Longrightarrow> settled_record k h st s \<Longrightarrow> settled_record k (h @ es) (record_replay es st) s'"
proof (induction es arbitrary: s h st)
  case (Cons e es)
  then obtain s1 where s1: "record_flow w k s e s1" "path (record_flow w k) s1 es s'" by auto
  have "settled_record k ((h @ [e]) @ es) (record_replay es (record_effect e st)) s'"
  proof (rule Cons.IH [OF s1(2)])
    show "store_ok (record_effect e st)" "stage_key k s1" "record_evidence w k (h @ [e]) s1" "record_quiet (record_effect e st) es"
      using Cons.prems effect_ok stage_key_step [OF s1(1), of st] record_evidence_step [OF s1(1)] by simp_all
    show "settled_record k (h @ [e]) (record_effect e st) s1"
      using Cons.prems settled_step [OF s1(1)] by simp
  qed
  then show ?case by (simp add: record_replay_def)
qed (simp add: record_replay_def)

section \<open>Examples\<close>

definition stored_key :: key where
  "stored_key = key_of (br_Meta example_record)"

text \<open>The pending record of the example run, on a cluster that stores every status.\<close>

definition pending_store :: store where
  "pending_store = (\<lambda>k. None)(stored_key := Some example_record)"

definition honest_world :: world where
  "honest_world = record_world\<lparr>w_UpdateRecordStatus := (\<lambda>h r. Inr (example_record\<lparr>br_Status := br_Status r\<rparr>))\<rparr>"

definition judged_record :: BackupRecord where
  "judged_record = example_record\<lparr>br_Status := br_Status completed_record\<rparr>"

definition dated_record :: BackupRecord where
  "dated_record = set_expiration 1 judged_record"

definition honest_log :: "event list" where
  "honest_log = [GetRecord stored_key (Inr example_record), GetTask (task_key example_record) (Inr example_task),
     ListJobs [] (job_selector example_record) (Inr [example_job]), Now 7, ListPods [] [] (Inr []),
     UpdateRecordStatus completed_record (Inr judged_record), UpdateRecordStatus dated_record (Inr dated_record)]"

lemma honest_reads:
  "w_GetRecord honest_world h k = Inr example_record" "w_GetTask honest_world h k = Inr example_task"
  "w_ListJobs honest_world h ns ls = Inr [example_job]" "w_ListPods honest_world h ns ls = Inr []"
  "w_Now honest_world h = 7" "w_UpdateRecordStatus honest_world h completed_record = Inr judged_record"
  "w_UpdateRecordStatus honest_world h dated_record = Inr dated_record"
  by (simp_all add: honest_world_def example_reads judged_record_def dated_record_def set_expiration_def)

lemma judged_due: "due_expiration example_task judged_record = Some 1" "br_Phase judged_record = ''Completed''"
  "due_expiration example_task dated_record = None" "\<not> due_verification dated_record"
proof -
  have s: "br_Status judged_record = br_Status completed_record" by (simp add: judged_record_def)
  from due_expiration_status(1) [OF s] example_due show "due_expiration example_task judged_record = Some 1" by simp
  show "br_Phase judged_record = ''Completed''" by (simp add: s completed_record_def)
  show "due_expiration example_task dated_record = None" by (simp add: dated_record_def due_after_dating)
  show "\<not> due_verification dated_record"
    by (simp add: due_verification_def dated_record_def set_expiration_def s completed_record_def complete_at_def set_phase_def
        example_record_def zero_record_def zero_verification_def api_consts)
qed

lemma honest_run: "record_Reconcile stored_key honest_world [] = (Inr (Inr five_minutes), honest_log)"
proof -
  have phase: "br_Phase example_record = ''Pending''" by (simp add: example_record_def)
  have job: "latest_job [example_job] = Some example_job" "job_MatchLabels example_job = Some []"
    "sint (job_Succeeded example_job) > 0" "om_Namespace (job_Meta example_job) = []" "om_Namespace (br_Meta example_record) = []"
    by (simp_all add: latest_job_def example_job_def zero_meta_def example_record_def zero_record_def)
  show ?thesis
    by (simp add: record_Reconcile_def reconcileBackupRecord_def checkBackupJobStatus_def judge_job_def
        updateBackupStatistics_def list_job_pods_def put_status_def put_status_or_return_def go_run honest_reads phase job
        judged_due completed_record_def [symmetric] dated_record_def [symmetric] honest_log_def api_consts
        verify_step_def seconds_def five_minutes_def)
qed

lemma pending_ok: "store_ok pending_store"
  by (simp add: store_ok_def pending_store_def stored_key_def)

lemma honest_quiet: "record_quiet pending_store honest_log"
proof -
  have "key_of (br_Meta completed_record) = stored_key" "key_of (br_Meta dated_record) = stored_key"
    by (simp_all add: stored_key_def completed_record_def dated_record_def judged_record_def)
  moreover have "dated_record = judged_record\<lparr>br_Status := br_Status dated_record\<rparr>"
    by (simp add: dated_record_def set_expiration_def)
  ultimately show ?thesis
    by (simp add: honest_log_def pending_store_def) (simp add: judged_record_def)
qed

text \<open>The record as the failed example run leaves it.\<close>

definition completed_store :: store where
  "completed_store = (\<lambda>k. None)(stored_key := Some judged_record)"

lemma completed_ok: "store_ok completed_store"
  by (simp add: store_ok_def completed_store_def stored_key_def judged_record_def)

lemma completed_lifetime: "lifetime stored_key completed_store completed_store"
proof (rule lifetime.run [OF lifetime.start])
  let ?w = "record_world\<lparr>w_GetRecord := (\<lambda>h k. Inr judged_record)\<rparr>"
  have "snd (record_Reconcile stored_key ?w []) = [GetRecord stored_key (Inr judged_record)]"
    using judged_due(2) by (simp add: record_Reconcile_def go_run api_consts)
  moreover have "record_serves stored_key completed_store [GetRecord stored_key (Inr judged_record)] completed_store"
    by (rule record_serves.answer) (simp_all add: completed_store_def record_serves.idle)
  ultimately show "record_serves stored_key completed_store (take 1 (snd (record_Reconcile stored_key ?w []))) completed_store"
    by simp
qed

section \<open>Properties\<close>



text \<open>
  C37: a run that asks to be repeated after five minutes, and that nobody else has disturbed, has left
  the record stored with the phase of the latest job listed for it, and if that is a completed one,
  with an expiration time if its task limits the age, and without a pending verification.
\<close>

theorem waiting_record_settled:
  assumes "store_ok st" and "record_quiet st (snd (record_Reconcile k w []))"
    and "fst (record_Reconcile k w []) = Inr (Inr five_minutes)"
  shows "\<exists>t j r. latest_of k (snd (record_Reconcile k w [])) t j \<and> record_replay (snd (record_Reconcile k w [])) st k = Some r
    \<and> br_Phase r = phase_of_job j \<and> due_expiration t r = None \<and> \<not> due_verification r"
proof -
  let ?h = "snd (record_Reconcile k w [])"
  obtain s where s: "reaches (record_flow w k) Fresh ?h s" "record_outcome s (Inr (Inr five_minutes))"
    using record_Reconcile_reaches assms(3) by metis
  then have "s = Done (Inr five_minutes)" by (auto elim: record_outcome.cases)
  moreover from reaches_prefix [OF s(1), of "length ?h"] s(1) have "path (record_flow w k) Fresh ?h s"
    using reaches_split [of "record_flow w k" Fresh "[]" ?h s] by (auto elim: reaches.cases)
  ultimately have "settled_record k ([] @ ?h) (record_replay ?h st) (Done (Inr five_minutes))"
    using settled_path [OF _ assms(2,1), of w k Fresh "Done (Inr five_minutes)" "[]"] by simp
  then show ?thesis by (auto simp: decided_def)
qed

theorem waiting_record_settled_witness:
  "\<exists>t j r. latest_of stored_key honest_log t j \<and> record_replay honest_log pending_store stored_key = Some r
    \<and> br_Phase r = phase_of_job j \<and> due_expiration t r = None \<and> \<not> due_verification r"
  using waiting_record_settled [OF pending_ok, of stored_key honest_world] honest_quiet
  by (simp add: honest_run)

end
