(* ===== verification/Run_Length.thy ===== *)
theory Run_Length
  imports Legacy_Task_Reconciler Record_Lifecycle
begin

text \<open>
  How many calls a run makes.  Each protocol has a potential (\<open>amortized_protocol\<close>): a step costs one
  call and pays for it with the potential of its stage, and only the answer to a list of records may add to
  it.  So every run ends after a constant number of calls and two for each record listed.
\<close>

section \<open>Potentials\<close>

locale amortized_protocol =
  fixes step :: "'s \<Rightarrow> event \<Rightarrow> 's \<Rightarrow> bool" and start :: 's
    and potential :: "'s \<Rightarrow> nat" and gain :: "event \<Rightarrow> nat"
  assumes pays: "step s e s' \<Longrightarrow> Suc (potential s') \<le> potential s + gain e"
begin

lemma reaches_length: "reaches step start h s \<Longrightarrow> length h + potential s \<le> potential start + sum_list (map gain h)"
proof (induction rule: reaches.induct)
  case (more h s e s')
  then show ?case using pays [of s e s'] by simp
qed simp

lemma run_length: "\<exists>s. reaches step start h s \<and> P s \<Longrightarrow> length h \<le> potential start + sum_list (map gain h)"
  using reaches_length by fastforce

end

section \<open>The potentials of the three protocols\<close>

text \<open>The records in the answers to \<open>List\<close>.\<close>

fun listed_count :: "event \<Rightarrow> nat" where
  "listed_count (ListRecords ns ls (Inr rs)) = length rs"
| "listed_count e = 0"

definition records_listed :: "event list \<Rightarrow> nat" where
  "records_listed h = sum_list (map listed_count h)"

text \<open>The calls that are left, with \<open>d\<close> calls between the finalizer and the cron job.\<close>

fun calls_left :: "nat \<Rightarrow> stage \<Rightarrow> nat" where
  "calls_left d Start = 8 + d"
| "calls_left d (Claiming t) = 7 + d"
| "calls_left d (Claimed t) = 6 + d"
| "calls_left d (Colliding t m) = 7"
| "calls_left d (Configured t) = 6"
| "calls_left d (Scheduled t c) = 5"
| "calls_left d (Observed t c l) = 4"
| "calls_left d (Judged t c l) = 3"
| "calls_left d (Reported t c) = 2"
| "calls_left d (Listed p rs) = 1 + 2 * length rs"
| "calls_left d (Pruning ds) = length ds"
| "calls_left d (Cleaning t) = 3"
| "calls_left d (Unscheduled t) = 2"
| "calls_left d (Purging t rs) = 1 + length rs"
| "calls_left d (Broken t e) = 1"
| "calls_left d (Finished r) = 0"
| "calls_left d (Crashed p) = 0"

lemma filter_length: "filterRecordsToDelete n rs p = Inr ds \<Longrightarrow> length ds \<le> 2 * length rs"
proof -
  assume "filterRecordsToDelete n rs p = Inr ds"
  then have "length ds = (length rs - count_limit p rs) + length (filter (too_old n p) rs)"
    by (auto simp: filterRecordsToDelete_cases split: if_splits)
  moreover have "length (filter (too_old n p) rs) \<le> length rs" by (rule length_filter_le)
  ultimately show "length ds \<le> 2 * length rs" by linarith
qed

lemma lifecycle_pays:
  "lifecycle w k s e s' \<Longrightarrow> d = 2 \<or> shared_stage s \<Longrightarrow> Suc (calls_left d s') \<le> calls_left d s + 2 * listed_count e"
proof (induction rule: lifecycle.induct)
  case (select p rs n)
  then show ?case using filter_length [of n rs p] by (auto split: sum.split)
qed simp_all

interpretation live_length: amortized_protocol "lifecycle w k" Start "calls_left 2" "\<lambda>e. 2 * listed_count e" for w k
  by unfold_locales (use lifecycle_pays [of _ _ _ _ _ 2] in simp)

interpretation older_length: amortized_protocol "legacy_lifecycle w k" Start "calls_left 0" "\<lambda>e. 2 * listed_count e" for w k
proof unfold_locales
  fix s e s'
  show "legacy_lifecycle w k s e s' \<Longrightarrow> Suc (calls_left 0 s') \<le> calls_left 0 s + 2 * listed_count e"
    by (induction rule: legacy_lifecycle.induct) (auto dest: lifecycle_pays [of _ _ _ _ _ 0])
qed

fun record_calls_left :: "record_stage \<Rightarrow> nat" where
  "record_calls_left Fresh = 10"
| "record_calls_left (Loaded r) = 9"
| "record_calls_left (Orphan r) = 1"
| "record_calls_left (Linked r t) = 8"
| "record_calls_left (Ended r t j) = 7"
| "record_calls_left (Counting r t j) = 6"
| "record_calls_left (Timing r t j) = 5"
| "record_calls_left (Failing r t j) = 5"
| "record_calls_left (Verdict r t j) = 4"
| "record_calls_left (Dating r) = 3"
| "record_calls_left (Verifying r) = 2"
| "record_calls_left (Verified r) = 1"
| "record_calls_left (Done r) = 0"

lemma after_dating_left: "record_calls_left (after_dating r) \<le> 2"
  by (simp add: after_dating_def)

interpretation record_length: amortized_protocol "record_flow w k" Fresh record_calls_left "\<lambda>_. 0" for w k
proof unfold_locales
  fix s e s'
  show "record_flow w k s e s' \<Longrightarrow> Suc (record_calls_left s') \<le> record_calls_left s + 0"
  proof (induction rule: record_flow.induct)
    case (jobs r t js)
    then show ?case by (simp add: judged_def split: option.split)
  next
    case (verdict r t j r')
    then show ?case using after_dating_left [of r'] by (simp add: after_verdict_def split: option.split)
  next
    case (date r r')
    then show ?case using after_dating_left [of r'] by simp
  qed simp_all
qed

section \<open>Properties\<close>

text \<open>
  C20: every run ends, whatever the cluster answers.  A run of the task controller makes at most ten calls (of
  the older one eight), the reading of the clock and the event included, and two more for each record in
  the list it got; a run of the record controller makes at most ten.
\<close>

theorem reconcile_call_bound:
  "length (snd (Reconcile k w [])) \<le> 10 + 2 * records_listed (snd (Reconcile k w [])) \<and>
   length (snd (legacy_Reconcile k w [])) \<le> 8 + 2 * records_listed (snd (legacy_Reconcile k w [])) \<and>
   length (snd (record_Reconcile k w [])) \<le> 10"
  using live_length.run_length [OF Reconcile_reaches, of k w] older_length.run_length [OF legacy_reaches, of k w]
    record_length.run_length [OF record_Reconcile_reaches, of k w]
  by (simp add: records_listed_def sum_list_const_mult)

end
