(* ===== verification/Access_Rights.thy ===== *)
theory Access_Rights
  imports Legacy_Task_Reconciler Record_Lifecycle
begin

text \<open>
  What the operator is allowed to do, against what it does.  The controllers state the rights they need in markers
  from which a tool generates the role of the manager (\<open>config/rbac/role.yaml\<close>); a second role for
  leader election holds in the namespace of the operator only (\<open>config/rbac/leader_election_role.yaml\<close>).
  The theorems compare them with the calls in the logs of the controllers.
\<close>

section \<open>Roles and markers\<close>

record rule =
  r_Groups :: "string list"
  r_Resources :: "string list"
  r_Verbs :: "string list"

datatype access = Access (acc_Group: string) (acc_Resource: string) (acc_Verb: string)

definition permits :: "rule list \<Rightarrow> access \<Rightarrow> bool" where
  "permits rules a = list_ex (\<lambda>r. acc_Group a \<in> set (r_Groups r) \<and> acc_Resource a \<in> set (r_Resources r)
     \<and> acc_Verb a \<in> set (r_Verbs r)) rules"

definition rule :: "string \<Rightarrow> string \<Rightarrow> string list \<Rightarrow> rule" where
  "rule g res vs = \<lparr>r_Groups = [g], r_Resources = [res], r_Verbs = vs\<rparr>"

definition all_verbs :: "string list" where
  "all_verbs = [''get'', ''list'', ''watch'', ''create'', ''update'', ''patch'', ''delete'']"

definition read_verbs :: "string list" where
  "read_verbs = [''get'', ''list'', ''watch'']"

text \<open>The markers of the controllers that are started, and of the older ones.\<close>

definition task_markers :: "rule list" where
  "task_markers =
     [rule ''backup.mybackup.com'' ''backuptasks'' all_verbs,
      rule ''backup.mybackup.com'' ''backuptasks/status'' [''get'', ''update'', ''patch''],
      rule ''backup.mybackup.com'' ''backuptasks/finalizers'' [''update''],
      rule ''backup.mybackup.com'' ''backuprecords'' all_verbs,
      rule ''backup.mybackup.com'' ''backuprecords/status'' [''get'', ''update'', ''patch''],
      rule ''batch'' ''cronjobs'' all_verbs,
      rule ''batch'' ''jobs'' all_verbs,
      rule '''' ''pods'' all_verbs,
      rule '''' ''pods/log'' [''get''],
      rule '''' ''configmaps'' read_verbs,
      rule '''' ''secrets'' read_verbs,
      rule '''' ''persistentvolumeclaims'' read_verbs,
      rule '''' ''events'' [''create'', ''patch''],
      rule ''core'' ''configmaps'' all_verbs]"

definition legacy_task_markers :: "rule list" where
  "legacy_task_markers =
     [rule ''backup.mybackup.com'' ''backuptasks'' all_verbs,
      rule ''backup.mybackup.com'' ''backuptasks/status'' [''get'', ''update'', ''patch''],
      rule ''backup.mybackup.com'' ''backuptasks/finalizers'' [''update''],
      rule ''backup.mybackup.com'' ''backuprecords'' all_verbs,
      rule ''backup.mybackup.com'' ''backuprecords/status'' [''get'', ''update'', ''patch''],
      rule ''batch'' ''cronjobs'' all_verbs,
      rule ''batch'' ''jobs'' all_verbs,
      rule '''' ''pods'' all_verbs,
      rule '''' ''pods/log'' [''get''],
      rule '''' ''configmaps'' read_verbs,
      rule '''' ''secrets'' read_verbs,
      rule '''' ''persistentvolumeclaims'' read_verbs,
      rule '''' ''events'' [''create'', ''patch'']]"

definition legacy_record_markers :: "rule list" where
  "legacy_record_markers =
     [rule ''backup.mybackup.com'' ''backuprecords'' all_verbs,
      rule ''backup.mybackup.com'' ''backuprecords/status'' [''get'', ''update'', ''patch''],
      rule ''backup.mybackup.com'' ''backuptasks'' read_verbs,
      rule ''batch'' ''jobs'' read_verbs,
      rule '''' ''pods'' read_verbs]"

text \<open>The generator takes the group \<open>core\<close> for the empty group.\<close>

definition generated_rule :: "rule \<Rightarrow> rule" where
  "generated_rule r = r\<lparr>r_Groups := map (\<lambda>g. if g = ''core'' then '''' else g) (r_Groups r)\<rparr>"

text \<open>The roles of the deployment.\<close>

definition manager_role :: "rule list" where
  "manager_role =
     [\<lparr>r_Groups = [''''], r_Resources = [''configmaps'', ''persistentvolumeclaims'', ''secrets''], r_Verbs = read_verbs\<rparr>,
      \<lparr>r_Groups = [''''], r_Resources = [''events''], r_Verbs = [''create'', ''patch'']\<rparr>,
      \<lparr>r_Groups = [''''], r_Resources = [''pods''], r_Verbs = all_verbs\<rparr>,
      \<lparr>r_Groups = [''''], r_Resources = [''pods/log''], r_Verbs = [''get'']\<rparr>,
      \<lparr>r_Groups = [''backup.mybackup.com''], r_Resources = [''backuprecords'', ''backuptasks''], r_Verbs = all_verbs\<rparr>,
      \<lparr>r_Groups = [''backup.mybackup.com''], r_Resources = [''backuprecords/finalizers'', ''backuptasks/finalizers''],
        r_Verbs = [''update'']\<rparr>,
      \<lparr>r_Groups = [''backup.mybackup.com''], r_Resources = [''backuprecords/status'', ''backuptasks/status''],
        r_Verbs = [''get'', ''patch'', ''update'']\<rparr>,
      \<lparr>r_Groups = [''batch''], r_Resources = [''cronjobs'', ''jobs''], r_Verbs = all_verbs\<rparr>]"

definition leader_election_role :: "rule list" where
  "leader_election_role =
     [\<lparr>r_Groups = [''''], r_Resources = [''configmaps''], r_Verbs = all_verbs\<rparr>,
      \<lparr>r_Groups = [''coordination.k8s.io''], r_Resources = [''leases''], r_Verbs = all_verbs\<rparr>,
      \<lparr>r_Groups = [''''], r_Resources = [''events''], r_Verbs = [''create'', ''patch'']\<rparr>]"

section \<open>What a call needs\<close>

text \<open>The client reads through a cache, which lists and watches; \<open>CreateOrUpdate\<close> may do all it can do.\<close>

definition accesses :: "string \<Rightarrow> string \<Rightarrow> string list \<Rightarrow> access list" where
  "accesses g res vs = map (Access g res) vs"

fun needs :: "event \<Rightarrow> access list" where
  "needs (GetTask k a) = accesses ''backup.mybackup.com'' ''backuptasks'' read_verbs"
| "needs (UpdateTask t a) = accesses ''backup.mybackup.com'' ''backuptasks'' [''update'']"
| "needs (UpdateTaskStatus t a) = accesses ''backup.mybackup.com'' ''backuptasks/status'' [''update'']"
| "needs (CreateConfigMap m a) = accesses '''' ''configmaps'' [''create'']"
| "needs (UpdateConfigMap m a) = accesses '''' ''configmaps'' [''update'']"
| "needs (CreateOrUpdateCronJob c a) = accesses ''batch'' ''cronjobs'' [''get'', ''list'', ''watch'', ''create'', ''update'']"
| "needs (DeleteCronJob k a) = accesses ''batch'' ''cronjobs'' [''delete'']"
| "needs (ListRecords ns ls a) = accesses ''backup.mybackup.com'' ''backuprecords'' read_verbs"
| "needs (DeleteRecord r a) = accesses ''backup.mybackup.com'' ''backuprecords'' [''delete'']"
| "needs (GetRecord k a) = accesses ''backup.mybackup.com'' ''backuprecords'' read_verbs"
| "needs (UpdateRecordStatus r a) = accesses ''backup.mybackup.com'' ''backuprecords/status'' [''update'']"
| "needs (ListJobs ns ls a) = accesses ''batch'' ''jobs'' read_verbs"
| "needs (ListPods ns ls a) = accesses '''' ''pods'' read_verbs"
| "needs (Now n) = []"
| "needs (RecordEvent t a b c e) = accesses '''' ''events'' [''create'', ''patch'']"

definition granted :: "rule list \<Rightarrow> event \<Rightarrow> bool" where
  "granted rules ev = list_all (permits rules) (needs ev)"

text \<open>The namespace of a call for a config map; the role of the deployment grants all other calls everywhere.\<close>

fun config_map_namespace :: "event \<Rightarrow> string option" where
  "config_map_namespace (CreateConfigMap m a) = Some (om_Namespace (cm_Meta m))"
| "config_map_namespace (UpdateConfigMap m a) = Some (om_Namespace (cm_Meta m))"
| "config_map_namespace e = None"

text \<open>What the deployment grants an operator that runs in the namespace \<open>ns\<close>.\<close>

definition deployed :: "string \<Rightarrow> event \<Rightarrow> bool" where
  "deployed ns ev \<longleftrightarrow> granted manager_role ev \<or> (config_map_namespace ev = Some ns \<and> granted (manager_role @ leader_election_role) ev)"

section \<open>Which calls are granted\<close>

text \<open>The calls of each controller.\<close>

fun on_config_map :: "event \<Rightarrow> bool" where
  "on_config_map (CreateConfigMap m a) = True"
| "on_config_map (UpdateConfigMap m a) = True"
| "on_config_map e = False"

fun of_record_controller :: "event \<Rightarrow> bool" where
  "of_record_controller (GetRecord k a) = True"
| "of_record_controller (GetTask k a) = True"
| "of_record_controller (UpdateRecordStatus r a) = True"
| "of_record_controller (ListJobs ns ls a) = True"
| "of_record_controller (ListPods ns ls a) = True"
| "of_record_controller (Now n) = True"
| "of_record_controller e = False"

fun of_task_controller :: "event \<Rightarrow> bool" where
  "of_task_controller (GetRecord k a) = False"
| "of_task_controller (UpdateRecordStatus r a) = False"
| "of_task_controller (ListJobs ns ls a) = False"
| "of_task_controller (ListPods ns ls a) = False"
| "of_task_controller e = True"

lemmas role_defs = granted_def permits_def accesses_def rule_def all_verbs_def read_verbs_def generated_rule_def

lemma manager_role_grants: "\<not> on_config_map ev \<Longrightarrow> granted manager_role ev"
  by (cases ev) (simp_all add: role_defs manager_role_def)

lemma manager_role_refuses: "on_config_map ev \<Longrightarrow> \<not> granted manager_role ev"
  by (cases ev) (simp_all add: role_defs manager_role_def)

lemma task_markers_grant: "of_task_controller ev \<Longrightarrow> granted (map generated_rule task_markers) ev"
  by (cases ev) (simp_all add: role_defs task_markers_def)

lemma legacy_task_markers_grant:
  "of_task_controller ev \<and> \<not> on_config_map ev \<Longrightarrow> granted (map generated_rule legacy_task_markers) ev"
  by (cases ev) (simp_all add: role_defs legacy_task_markers_def)

lemma legacy_record_markers_grant: "of_record_controller ev \<Longrightarrow> granted (map generated_rule legacy_record_markers) ev"
  by (cases ev) (simp_all add: role_defs legacy_record_markers_def)

lemma reaches_all: "reaches step start h s \<Longrightarrow> (\<And>s e s'. step s e s' \<Longrightarrow> P e) \<Longrightarrow> list_all P h"
  by (induction rule: reaches.induct) auto

lemma lifecycle_events: "lifecycle w k s e s' \<Longrightarrow> of_task_controller e \<and> (shared_stage s \<longrightarrow> \<not> on_config_map e)"
  by (induction rule: lifecycle.induct) simp_all

lemma legacy_events: "legacy_lifecycle w k s e s' \<Longrightarrow> of_task_controller e \<and> \<not> on_config_map e"
  by (induction rule: legacy_lifecycle.induct) (auto dest: lifecycle_events)

lemma record_events: "record_flow w k s e s' \<Longrightarrow> of_record_controller e \<and> \<not> on_config_map e"
  by (induction rule: record_flow.induct) simp_all

text \<open>What a stored config map says of the namespace of its task.\<close>

lemma config_map_in_namespace: "createTargetConfigMap t = Inr m \<Longrightarrow> om_Namespace (cm_Meta m) = bt_Namespace t"
  by (auto simp: createTargetConfigMap_def Let_def split: sum.splits)

section \<open>Properties\<close>

text \<open>
  C18: the markers of each controller grant every call it ever makes, and the role in the repository
  grants every call of the older controllers; but of the calls of the task controller that is started
  it refuses those that write the config map: it was not generated from the markers of that controller.
\<close>

theorem markers_cover_runs:
  "list_all (granted (map generated_rule task_markers)) (snd (Reconcile k w [])) \<and>
   list_all (granted (map generated_rule legacy_task_markers)) (snd (legacy_Reconcile k w [])) \<and>
   list_all (granted (map generated_rule legacy_record_markers)) (snd (record_Reconcile k w [])) \<and>
   list_all (granted manager_role) (snd (legacy_Reconcile k w []) @ snd (record_Reconcile k w [])) \<and>
   \<not> granted manager_role (CreateConfigMap m a) \<and> \<not> granted manager_role (UpdateConfigMap m a)"
proof -
  obtain s where s: "reaches (lifecycle w k) Start (snd (Reconcile k w [])) s" using Reconcile_reaches by blast
  obtain l where l: "reaches (legacy_lifecycle w k) Start (snd (legacy_Reconcile k w [])) l" using legacy_reaches by blast
  obtain r where r: "reaches (record_flow w k) Fresh (snd (record_Reconcile k w [])) r" using record_Reconcile_reaches by blast
  have "list_all (granted (map generated_rule task_markers)) (snd (Reconcile k w []))"
    by (rule reaches_all [OF s]) (auto dest: lifecycle_events intro: task_markers_grant)
  moreover have "list_all (granted (map generated_rule legacy_task_markers)) (snd (legacy_Reconcile k w []))"
    by (rule reaches_all [OF l]) (auto dest: legacy_events intro: legacy_task_markers_grant)
  moreover have "list_all (granted (map generated_rule legacy_record_markers)) (snd (record_Reconcile k w []))"
    by (rule reaches_all [OF r]) (auto dest: record_events intro: legacy_record_markers_grant)
  moreover have "list_all (granted manager_role) (snd (legacy_Reconcile k w []))"
    by (rule reaches_all [OF l]) (auto dest: legacy_events intro: manager_role_grants)
  moreover have "list_all (granted manager_role) (snd (record_Reconcile k w []))"
    by (rule reaches_all [OF r]) (auto dest: record_events intro: manager_role_grants)
  ultimately show ?thesis by (simp add: manager_role_refuses)
qed

text \<open>
  C19: so with the roles in the repository no backup is ever scheduled outside the namespace of the
  operator: if every call that is not granted fails, the cron jobs that the task controller writes are all in
  that namespace.
\<close>

theorem cron_jobs_confined:
  assumes "list_all (\<lambda>ev. deployed ns ev \<or> answer_error ev \<noteq> None) (snd (Reconcile k w []))"
    and "snd (Reconcile k w []) = xs @ CreateOrUpdateCronJob c r # ys"
  shows "om_Namespace (cj_Meta c) = ns"
proof -
  obtain s s' s'' where s: "evidence w k xs s" "lifecycle w k s (CreateOrUpdateCronJob c r) s'"
    using assms(2) by (rule Reconcile_event)
  from s(2) obtain t where t: "s = Configured t" "c = new_cron_job t"
    unfolding CronJob_step by blast
  with s(1) obtain m m' ev where m: "createTargetConfigMap t = Inr m" "ev \<in> set xs"
    "ev = CreateConfigMap m (Inr m') \<or> ev = UpdateConfigMap m (Inr m')"
    by (auto simp: configured_by_def config_stored_def)
  then have "deployed ns ev" using assms by (auto simp: list_all_iff)
  moreover have "\<not> granted manager_role ev" using m(3) manager_role_refuses [of ev] by auto
  ultimately have "om_Namespace (cm_Meta m) = ns" using m(3) by (auto simp: deployed_def)
  with config_map_in_namespace [OF m(1)] t(2) show ?thesis by (simp add: new_cron_job_def)
qed

lemma live_log_deployed: "list_all (\<lambda>ev. deployed [] ev \<or> answer_error ev \<noteq> None) live_log"
proof -
  have "deployed [] (CreateConfigMap live_config_map (Inr live_config_map))"
    using config_map_in_namespace [OF live_config_map]
    by (simp add: deployed_def live_facts) (simp add: role_defs manager_role_def leader_election_role_def)
  then show ?thesis by (simp add: live_log_def deployed_def manager_role_grants)
qed

theorem cron_jobs_confined_witness: "om_Namespace (cj_Meta (new_cron_job claimed_live)) = []"
  by (rule cron_jobs_confined [OF live_log_deployed [folded live_run], where xs = "take 3 live_log" and ys = "drop 4 live_log"])
    (simp add: live_run, simp add: live_log_def)

end
