(* ===== verification/Go_Memory.thy ===== *)
theory Go_Memory
  imports Go_Prelude "HOL-Library.AList"
begin

text \<open>
  Go's memory, as far as copying objects needs it.  A value of a struct type holds its fields; a
  pointer, a slice and a map hold the address of a cell (or nil), so two values can share cells.  The
  statements of the generated \<open>DeepCopyInto\<close> functions are \<open>copier\<close>s; \<open>deep_copier\<close> is their
  contract: the copy holds the same as the original and shares no cell with anything that was there
  before.  The contract is shown once for each kind of statement and for a struct copied by a list of
  them.
\<close>

section \<open>Values, memory and types\<close>

type_synonym addr = nat

datatype val =
    Scalar string
  | Ref "addr option"
  | Struct "(string \<times> val) list"
  | Array "val list"
  | Entries "(string \<times> string) list"

text \<open>The cells, and the first address that was never used.\<close>

record memory =
  cells :: "addr \<Rightarrow> val option"
  fresh :: addr

definition wf_memory :: "memory \<Rightarrow> bool" where
  "wf_memory m \<longleftrightarrow> (\<forall>a. cells m a \<noteq> None \<longrightarrow> a < fresh m)"

definition allocate :: "val \<Rightarrow> memory \<Rightarrow> addr \<times> memory" where
  "allocate v m = (fresh m, m\<lparr>cells := (cells m)(fresh m \<mapsto> v), fresh := Suc (fresh m)\<rparr>)"

definition store :: "addr \<Rightarrow> val \<Rightarrow> memory \<Rightarrow> memory" where
  "store a v m = m\<lparr>cells := (cells m)(a \<mapsto> v)\<rparr>"

lemma memory_simps [simp]:
  "fst (allocate v m) = fresh m" "cells (snd (allocate v m)) = (cells m)(fresh m \<mapsto> v)" "fresh (snd (allocate v m)) = Suc (fresh m)"
  "cells (store a v m) = (cells m)(a \<mapsto> v)" "fresh (store a v m) = fresh m"
  by (simp_all add: allocate_def store_def)

text \<open>A Go type by its shape; numbers, strings and bools are scalars.\<close>

datatype ty = TScalar | TPtr ty | TSlice ty | TMap | TStruct "(string \<times> ty) list"

definition field :: "(string \<times> val) list \<Rightarrow> string \<Rightarrow> val" where
  "field vs f = (case map_of vs f of Some v \<Rightarrow> v | None \<Rightarrow> Scalar [])"

fun typed :: "ty \<Rightarrow> memory \<Rightarrow> val \<Rightarrow> bool" where
  "typed TScalar m v = (case v of Scalar s \<Rightarrow> True | _ \<Rightarrow> False)"
| "typed (TPtr t) m v = (case v of
      Ref (Some a) \<Rightarrow> (case cells m a of Some x \<Rightarrow> typed t m x | None \<Rightarrow> False)
    | Ref None \<Rightarrow> True | _ \<Rightarrow> False)"
| "typed (TSlice t) m v = (case v of
      Ref (Some a) \<Rightarrow> (case cells m a of Some (Array xs) \<Rightarrow> list_all (typed t m) xs | _ \<Rightarrow> False)
    | Ref None \<Rightarrow> True | _ \<Rightarrow> False)"
| "typed TMap m v = (case v of
      Ref (Some a) \<Rightarrow> (case cells m a of Some (Entries es) \<Rightarrow> distinct (map fst es) | _ \<Rightarrow> False)
    | Ref None \<Rightarrow> True | _ \<Rightarrow> False)"
| "typed (TStruct fs) m v = (case v of
      Struct vs \<Rightarrow> map fst vs = map fst fs \<and> list_all (\<lambda>(f, t). typed t m (field vs f)) fs
    | _ \<Rightarrow> False)"

text \<open>What a value holds when all addresses are followed, and the addresses of the cells it reaches.\<close>

datatype tree = Leaf string | Nil | Points tree | Items "tree list" | Keys "(string \<times> string) list" | Fields "(string \<times> tree) list"

fun holds :: "ty \<Rightarrow> memory \<Rightarrow> val \<Rightarrow> tree" where
  "holds TScalar m v = (case v of Scalar s \<Rightarrow> Leaf s | _ \<Rightarrow> Nil)"
| "holds (TPtr t) m v = (case v of
      Ref (Some a) \<Rightarrow> (case cells m a of Some x \<Rightarrow> Points (holds t m x) | None \<Rightarrow> Nil) | _ \<Rightarrow> Nil)"
| "holds (TSlice t) m v = (case v of
      Ref (Some a) \<Rightarrow> (case cells m a of Some (Array xs) \<Rightarrow> Items (map (holds t m) xs) | _ \<Rightarrow> Nil) | _ \<Rightarrow> Nil)"
| "holds TMap m v = (case v of
      Ref (Some a) \<Rightarrow> (case cells m a of Some (Entries es) \<Rightarrow> Keys es | _ \<Rightarrow> Nil) | _ \<Rightarrow> Nil)"
| "holds (TStruct fs) m v = (case v of
      Struct vs \<Rightarrow> Fields (map (\<lambda>(f, t). (f, holds t m (field vs f))) fs) | _ \<Rightarrow> Nil)"

fun reached :: "ty \<Rightarrow> memory \<Rightarrow> val \<Rightarrow> addr set" where
  "reached TScalar m v = {}"
| "reached (TPtr t) m v = (case v of
      Ref (Some a) \<Rightarrow> insert a (case cells m a of Some x \<Rightarrow> reached t m x | None \<Rightarrow> {}) | _ \<Rightarrow> {})"
| "reached (TSlice t) m v = (case v of
      Ref (Some a) \<Rightarrow> insert a (case cells m a of Some (Array xs) \<Rightarrow> \<Union> (set (map (reached t m) xs)) | _ \<Rightarrow> {}) | _ \<Rightarrow> {})"
| "reached TMap m v = (case v of Ref (Some a) \<Rightarrow> {a} | _ \<Rightarrow> {})"
| "reached (TStruct fs) m v = (case v of
      Struct vs \<Rightarrow> \<Union> (set (map (\<lambda>(f, t). reached t m (field vs f)) fs)) | _ \<Rightarrow> {})"

text \<open>A value only depends on the cells it reaches.\<close>

lemma frame:
  "typed t m v \<Longrightarrow> \<forall>a \<in> reached t m v. cells m' a = cells m a \<Longrightarrow>
    typed t m' v \<and> holds t m' v = holds t m v \<and> reached t m' v = reached t m v"
proof (induction t arbitrary: v)
  case (TStruct fs)
  then obtain vs where vs: "v = Struct vs" by (cases v) auto
  have "typed t m' (field vs f) \<and> holds t m' (field vs f) = holds t m (field vs f)
      \<and> reached t m' (field vs f) = reached t m (field vs f)" if "(f, t) \<in> set fs" for f t
    using TStruct.IH [OF that, of t "field vs f"] TStruct.prems that vs by (fastforce simp: list_all_iff)
  with TStruct.prems vs show ?case by (auto simp: list_all_iff)
next
  case (TSlice t)
  show ?case
  proof (cases "\<exists>a xs. v = Ref (Some a) \<and> cells m a = Some (Array xs)")
    case True
    then obtain a xs where a: "v = Ref (Some a)" "cells m a = Some (Array xs)" by blast
    have "typed t m' x \<and> holds t m' x = holds t m x \<and> reached t m' x = reached t m x" if "x \<in> set xs" for x
      using TSlice.IH [of x] TSlice.prems that a by (auto simp: list_all_iff)
    with TSlice.prems a show ?thesis by (auto simp: list_all_iff)
  next
    case False
    with TSlice.prems show ?thesis by (auto split: val.splits option.splits)
  qed
qed (auto split: val.splits option.splits)

lemma reached_allocated: "typed t m v \<Longrightarrow> wf_memory m \<Longrightarrow> reached t m v \<subseteq> {..<fresh m}"
proof (induction t arbitrary: v)
  case (TStruct fs)
  then show ?case by (fastforce simp: list_all_iff split: val.splits)
next
  case (TSlice t)
  then show ?case by (fastforce simp: list_all_iff wf_memory_def split: val.splits option.splits)
next
  case (TPtr t)
  then show ?case by (fastforce simp: wf_memory_def split: val.splits option.splits)
qed (auto simp: wf_memory_def split: val.splits option.splits)

section \<open>Copiers\<close>

text \<open>
  A copier takes the value it copies and the memory; it returns the copy, or nothing when it runs
  into memory that is not allocated.  \<open>DeepCopyInto\<close> is the copier that gives what is written to
  \<open>*out\<close>.
\<close>

type_synonym copier = "val \<Rightarrow> memory \<Rightarrow> (val \<times> memory) option"

definition extends :: "memory \<Rightarrow> memory \<Rightarrow> bool" where
  "extends m m' \<longleftrightarrow> wf_memory m' \<and> fresh m \<le> fresh m' \<and> (\<forall>a < fresh m. cells m' a = cells m a)"

definition deep_copy :: "ty \<Rightarrow> memory \<Rightarrow> val \<Rightarrow> memory \<Rightarrow> val \<Rightarrow> bool" where
  "deep_copy t m v m' v' \<longleftrightarrow> extends m m' \<and> typed t m' v' \<and> holds t m' v' = holds t m v
     \<and> (\<forall>a \<in> reached t m' v'. fresh m \<le> a)"

definition deep_copier :: "ty \<Rightarrow> copier \<Rightarrow> bool" where
  "deep_copier t c \<longleftrightarrow> (\<forall>m v. wf_memory m \<longrightarrow> typed t m v \<longrightarrow> (\<exists>v' m'. c v m = Some (v', m') \<and> deep_copy t m v m' v'))"

lemma deep_copierE:
  assumes "deep_copier t c" and "wf_memory m" and "typed t m v"
  obtains v' m' where "c v m = Some (v', m')" and "deep_copy t m v m' v'"
  using assms unfolding deep_copier_def by blast

lemma extends_refl: "wf_memory m \<Longrightarrow> extends m m"
  by (simp add: extends_def)

lemma extends_trans: "extends m m1 \<Longrightarrow> extends m1 m2 \<Longrightarrow> extends m m2"
  by (auto simp: extends_def)

lemma extends_allocate: "wf_memory m \<Longrightarrow> extends m (snd (allocate v m))"
  by (auto simp: extends_def wf_memory_def less_Suc_eq)

lemma extends_store: "extends m m' \<Longrightarrow> fresh m \<le> a \<Longrightarrow> a < fresh m' \<Longrightarrow> extends m (store a v m')"
  by (auto simp: extends_def wf_memory_def)

lemma extended:
  assumes "typed t m v" and "wf_memory m" and "extends m m'"
  shows "typed t m' v" "holds t m' v = holds t m v" "reached t m' v = reached t m v"
  using frame [OF assms(1), of m'] reached_allocated [OF assms(1,2)] assms(3) by (auto simp: extends_def)

text \<open>A copy stays a copy when memory is added, and when a cell it does not reach changes.\<close>

lemma deep_copy_extended:
  assumes "deep_copy t m v m1 v'" and "extends m1 m2"
  shows "deep_copy t m v m2 v'"
  using assms extended [of t m1 v' m2] extends_trans [OF _ assms(2)] by (auto simp: deep_copy_def) (auto simp: extends_def)

text \<open>An assignment; it copies deeply what contains no address.\<close>

definition assign :: copier where
  "assign v m = Some (v, m)"

fun address_free :: "ty \<Rightarrow> bool" where
  "address_free TScalar = True"
| "address_free (TStruct fs) = list_all (\<lambda>(f, t). address_free t) fs"
| "address_free t = False"

lemma address_free_reached: "address_free t \<Longrightarrow> reached t m v = {}"
proof (induction t arbitrary: v)
  case (TStruct fs)
  then show ?case by (fastforce simp: list_all_iff split: val.splits)
qed auto

lemma deep_copier_assign: "address_free t \<Longrightarrow> deep_copier t assign"
  by (simp add: deep_copier_def assign_def deep_copy_def extends_refl address_free_reached)

text \<open>\<open>if in.F != nil \<lbrace> *out = new(T); (*in).DeepCopyInto(*out) \<rbrace>\<close>; with \<open>assign\<close> for \<open>**out = **in\<close>.\<close>

definition copy_pointer :: "copier \<Rightarrow> copier" where
  "copy_pointer c v m = (case v of
      Ref (Some a) \<Rightarrow> (case cells m a of
          Some x \<Rightarrow> (let (b, m) = allocate (Scalar []) m in
            case c x m of Some (y, m) \<Rightarrow> Some (Ref (Some b), store b y m) | None \<Rightarrow> None)
        | None \<Rightarrow> None)
    | Ref None \<Rightarrow> Some (v, m)
    | _ \<Rightarrow> None)"

lemma deep_copier_pointer:
  assumes c: "deep_copier t c"
  shows "deep_copier (TPtr t) (copy_pointer c)"
  unfolding deep_copier_def
proof (intro allI impI)
  fix m v
  assume m: "wf_memory m" and v: "typed (TPtr t) m v"
  show "\<exists>v' m'. copy_pointer c v m = Some (v', m') \<and> deep_copy (TPtr t) m v m' v'"
  proof (cases "v = Ref None")
    case True
    then show ?thesis using m by (simp add: copy_pointer_def deep_copy_def extends_refl)
  next
    case False
    then obtain a x where a: "v = Ref (Some a)" "cells m a = Some x" and x: "typed t m x"
      using v by (auto split: val.splits option.splits)
    let ?m = "snd (allocate (Scalar []) m)" and ?b = "fresh m"
    have ext: "extends m ?m" using m by (rule extends_allocate)
    have "typed t ?m x" "holds t ?m x = holds t m x" using extended [OF x m ext] by simp_all
    then obtain y m2 where y: "c x ?m = Some (y, m2)" "deep_copy t ?m x m2 y"
      using deep_copierE [OF c] ext unfolding extends_def by blast
    then have ext2: "extends ?m m2" and new: "\<forall>a \<in> reached t m2 y. Suc ?b \<le> a" and ty: "typed t m2 y"
      by (auto simp: deep_copy_def)
    have same: "\<forall>a \<in> reached t m2 y. cells (store ?b y m2) a = cells m2 a" using new by auto
    have "extends m (store ?b y m2)"
      using extends_trans [OF ext ext2] ext2 by (intro extends_store) (auto simp: extends_def)
    moreover have "copy_pointer c v m = Some (Ref (Some ?b), store ?b y m2)"
      using a y(1) by (simp add: copy_pointer_def case_prod_beta)
    ultimately show ?thesis
      using a y(2) frame [OF ty same] new \<open>holds t ?m x = holds t m x\<close> by (auto simp: deep_copy_def)
  qed
qed

text \<open>
  \<open>if in.F != nil \<lbrace> *out = make([]T, len( *in)); for i := range *in \<lbrace> ( *in)[i].DeepCopyInto(&( *out)[i]) \<rbrace> \<rbrace>\<close>; with
  \<open>assign\<close> for \<open>copy( *out, *in)\<close>.  The new array is filled when its elements are made; nothing reads it before.
\<close>

fun copy_elements :: "copier \<Rightarrow> val list \<Rightarrow> memory \<Rightarrow> (val list \<times> memory) option" where
  "copy_elements c [] m = Some ([], m)"
| "copy_elements c (x # xs) m = (case c x m of
      None \<Rightarrow> None
    | Some (y, m) \<Rightarrow> (case copy_elements c xs m of None \<Rightarrow> None | Some (ys, m) \<Rightarrow> Some (y # ys, m)))"

definition copy_slice :: "copier \<Rightarrow> copier" where
  "copy_slice c v m = (case v of
      Ref (Some a) \<Rightarrow> (case cells m a of
          Some (Array xs) \<Rightarrow> (let (b, m) = allocate (Array (replicate (length xs) (Scalar []))) m in
            case copy_elements c xs m of Some (ys, m) \<Rightarrow> Some (Ref (Some b), store b (Array ys) m) | None \<Rightarrow> None)
        | _ \<Rightarrow> None)
    | Ref None \<Rightarrow> Some (v, m)
    | _ \<Rightarrow> None)"

lemma deep_copy_from:
  assumes "typed t m v" and "wf_memory m" and "extends m m1" and "deep_copy t m1 v m2 v'"
  shows "deep_copy t m v m2 v'"
  using assms extended [OF assms(1-3)] extends_trans [OF assms(3)] by (auto simp: deep_copy_def) (auto simp: extends_def)

lemma list_all2_split:
  "list_all2 (\<lambda>x y. P y \<and> f y = g x \<and> Q y) xs ys \<Longrightarrow> list_all P ys \<and> map f ys = map g xs \<and> (\<forall>y \<in> set ys. Q y)"
  by (induction rule: list_all2_induct) auto

lemma copy_elements_deep:
  assumes c: "deep_copier t c"
  shows "wf_memory m \<Longrightarrow> list_all (typed t m) xs \<Longrightarrow>
    \<exists>ys m'. copy_elements c xs m = Some (ys, m') \<and> extends m m' \<and> list_all2 (\<lambda>x y. deep_copy t m x m' y) xs ys"
proof (induction xs arbitrary: m)
  case Nil
  then show ?case by (simp add: extends_refl)
next
  case (Cons x xs)
  then obtain y m1 where y: "c x m = Some (y, m1)" "deep_copy t m x m1 y"
    using deep_copierE [OF c, of m x] by auto
  then have ext: "extends m m1" by (simp add: deep_copy_def)
  have "list_all (typed t m1) xs" using extended(1) [OF _ Cons.prems(1) ext] Cons.prems(2) by (auto simp: list_all_iff)
  then obtain ys m2 where ys: "copy_elements c xs m1 = Some (ys, m2)" "extends m1 m2" "list_all2 (\<lambda>x y. deep_copy t m1 x m2 y) xs ys"
    using Cons.IH [of m1] ext by (auto simp: extends_def)
  have "list_all2 (\<lambda>x y. deep_copy t m x m2 y) xs ys"
    using ys(3) Cons.prems deep_copy_from [OF _ Cons.prems(1) ext] by (auto simp: list_all2_conv_all_nth list_all_length)
  then show ?case
    using y ys deep_copy_extended [OF y(2) ys(2)] extends_trans [OF ext ys(2)] by auto
qed

lemma deep_copier_slice:
  assumes c: "deep_copier t c"
  shows "deep_copier (TSlice t) (copy_slice c)"
  unfolding deep_copier_def
proof (intro allI impI)
  fix m v
  assume m: "wf_memory m" and v: "typed (TSlice t) m v"
  show "\<exists>v' m'. copy_slice c v m = Some (v', m') \<and> deep_copy (TSlice t) m v m' v'"
  proof (cases "v = Ref None")
    case True
    then show ?thesis using m by (simp add: copy_slice_def deep_copy_def extends_refl)
  next
    case False
    then obtain a xs where a: "v = Ref (Some a)" "cells m a = Some (Array xs)" and xs: "list_all (typed t m) xs"
      using v by (auto split: val.splits option.splits)
    let ?m = "snd (allocate (Array (replicate (length xs) (Scalar []))) m)" and ?b = "fresh m"
    have ext: "extends m ?m" using m by (rule extends_allocate)
    have "list_all (typed t ?m) xs" using extended(1) [OF _ m ext] xs by (auto simp: list_all_iff)
    then obtain ys m2 where ys: "copy_elements c xs ?m = Some (ys, m2)" "extends ?m m2" "list_all2 (\<lambda>x y. deep_copy t ?m x m2 y) xs ys"
      using copy_elements_deep [OF c, of ?m xs] ext by (auto simp: extends_def)
    let ?m2 = "store ?b (Array ys) m2"
    have "typed t ?m2 y \<and> holds t ?m2 y = holds t m x \<and> (\<forall>a \<in> reached t ?m2 y. ?b \<le> a)" if "(x, y) \<in> set (zip xs ys)" for x y
    proof -
      have y: "deep_copy t ?m x m2 y" using ys(3) that by (auto simp: list_all2_iff)
      then have "\<forall>a \<in> reached t m2 y. cells ?m2 a = cells m2 a" by (auto simp: deep_copy_def)
      from frame [OF _ this] y have "typed t ?m2 y" "holds t ?m2 y = holds t ?m x" "\<forall>a \<in> reached t ?m2 y. ?b \<le> a"
        by (auto simp: deep_copy_def)
      moreover have "typed t m x" using xs that by (auto simp: list_all_iff dest: set_zip_leftD)
      ultimately show ?thesis using extended(2) [OF _ m ext] by auto
    qed
    then have "list_all2 (\<lambda>x y. typed t ?m2 y \<and> holds t ?m2 y = holds t m x \<and> (\<forall>a \<in> reached t ?m2 y. ?b \<le> a)) xs ys"
      using ys(3) by (auto simp: list_all2_iff)
    then have "list_all (typed t ?m2) ys \<and> map (holds t ?m2) ys = map (holds t m) xs \<and> (\<forall>y \<in> set ys. \<forall>a \<in> reached t ?m2 y. ?b \<le> a)"
      by (rule list_all2_split)
    moreover have "extends m ?m2"
      using extends_trans [OF ext ys(2)] ys(2) by (intro extends_store) (auto simp: extends_def)
    moreover have "copy_slice c v m = Some (Ref (Some ?b), ?m2)"
      using a ys(1) by (simp add: copy_slice_def case_prod_beta)
    ultimately show ?thesis using a by (auto simp: deep_copy_def)
  qed
qed

text \<open>\<open>if in.F != nil \<lbrace> *out = make(map[string]string, len( *in)); for key, val := range *in \<lbrace> ( *out)[key] = val \<rbrace> \<rbrace>\<close>\<close>

definition copy_map :: copier where
  "copy_map v m = (case v of
      Ref (Some a) \<Rightarrow> (case cells m a of
          Some (Entries es) \<Rightarrow> (let (b, m) = allocate (Entries []) m in
            Some (Ref (Some b), store b (Entries (fold (\<lambda>(key, val) out. AList.update key val out) es [])) m))
        | _ \<Rightarrow> None)
    | Ref None \<Rightarrow> Some (v, m)
    | _ \<Rightarrow> None)"

lemma fold_update: "distinct (map fst (acc @ es)) \<Longrightarrow> fold (\<lambda>(key, val) out. AList.update key val out) es acc = acc @ es"
proof (induction es arbitrary: acc)
  case (Cons e es)
  obtain k v where e: "e = (k, v)" by (cases e)
  have "AList.update k v acc = acc @ [e]"
    using Cons.prems e by (induction acc) auto
  with Cons.IH [of "acc @ [e]"] Cons.prems e show ?case by simp
qed simp

lemma deep_copier_map: "deep_copier TMap copy_map"
  unfolding deep_copier_def
proof (intro allI impI)
  fix m v
  assume m: "wf_memory m" and v: "typed TMap m v"
  show "\<exists>v' m'. copy_map v m = Some (v', m') \<and> deep_copy TMap m v m' v'"
  proof (cases "v = Ref None")
    case True
    then show ?thesis using m by (simp add: copy_map_def deep_copy_def extends_refl)
  next
    case False
    then obtain a es where a: "v = Ref (Some a)" "cells m a = Some (Entries es)" "distinct (map fst es)"
      using v by (auto split: val.splits option.splits)
    moreover have "extends m (store (fresh m) (Entries es) (snd (allocate (Entries []) m)))"
      using extends_allocate [OF m] by (intro extends_store) auto
    ultimately show ?thesis
      using fold_update [of "[]" es] by (auto simp: copy_map_def deep_copy_def case_prod_beta)
  qed
qed

section \<open>Structs\<close>

text \<open>
  \<open>DeepCopyInto\<close> of a struct: \<open>*out = *in\<close>, and then one statement after the other, each of which
  makes one field of \<open>*out\<close> from the same field of \<open>*in\<close>.
\<close>

fun statements :: "(string \<times> copier) list \<Rightarrow> (string \<times> val) list \<Rightarrow> (string \<times> val) list \<Rightarrow> memory \<Rightarrow> ((string \<times> val) list \<times> memory) option" where
  "statements [] from out m = Some (out, m)"
| "statements ((f, c) # ss) from out m = (case c (field from f) m of
      None \<Rightarrow> None
    | Some (y, m) \<Rightarrow> statements ss from (AList.update f y out) m)"

definition copy_struct :: "(string \<times> copier) list \<Rightarrow> copier" where
  "copy_struct ss v m = (case v of
      Struct from \<Rightarrow> (case statements ss from from m of None \<Rightarrow> None | Some (out, m) \<Rightarrow> Some (Struct out, m))
    | _ \<Rightarrow> None)"

text \<open>Every field that holds an address has a statement, and every statement copies its field deeply.\<close>

definition covers :: "(string \<times> ty) list \<Rightarrow> (string \<times> copier) list \<Rightarrow> bool" where
  "covers fs ss \<longleftrightarrow> distinct (map fst fs) \<and> distinct (map fst ss)
     \<and> list_all (\<lambda>(f, t). case map_of ss f of Some c \<Rightarrow> deep_copier t c | None \<Rightarrow> address_free t) fs
     \<and> set (map fst ss) \<subseteq> set (map fst fs)"

lemma field_update: "field (AList.update f y vs) g = (if g = f then y else field vs g)"
  by (simp add: field_def update_conv)

lemma keys_update: "f \<in> fst ` set vs \<Longrightarrow> map fst (AList.update f y vs) = map fst vs"
  by (induction vs) auto

text \<open>
  The fields in \<open>D\<close> are done.  The others still hold what the struct held when it was assigned.
\<close>

lemma statements_deep:
  assumes "wf_memory m0" and "typed (TStruct fs) m0 (Struct from)" and "distinct (map fst fs)"
    and "\<forall>(f, t) \<in> set fs. case map_of ss f of Some c \<Rightarrow> deep_copier t c | None \<Rightarrow> f \<in> D \<or> address_free t"
    and "distinct (map fst ss)" and "set (map fst ss) \<subseteq> set (map fst fs)" and "set (map fst ss) \<inter> D = {}"
    and "extends m0 m" and "map fst out = map fst fs"
    and "\<forall>(f, t) \<in> set fs. if f \<in> D then deep_copy t m0 (field from f) m (field out f) else field out f = field from f"
  shows "\<exists>out' m'. statements ss from out m = Some (out', m') \<and> extends m0 m' \<and> map fst out' = map fst fs
    \<and> (\<forall>(f, t) \<in> set fs. deep_copy t m0 (field from f) m' (field out' f))"
  using assms(4-10)
proof (induction ss arbitrary: D out m)
  case Nil
  have "deep_copy t m0 (field from f) m (field out f)" if "(f, t) \<in> set fs" for f t
  proof (cases "f \<in> D")
    case False
    have ty: "typed t m0 (field from f)" using assms(2) that by (auto simp: list_all_iff)
    from False that Nil.prems have "address_free t" "field out f = field from f" by auto
    then show ?thesis
      using extended [OF ty assms(1) Nil.prems(5)] Nil.prems(5) by (simp add: deep_copy_def address_free_reached)
  qed (use Nil.prems(7) that in auto)
  with Nil.prems show ?case by auto
next
  case (Cons s ss)
  obtain f c where s: "s = (f, c)" by (cases s)
  then obtain t where t: "(f, t) \<in> set fs" using Cons.prems(3) by auto
  have c: "deep_copier t c" using Cons.prems(1) t s by fastforce
  have ty: "typed t m0 (field from f)" using assms(2) t by (auto simp: list_all_iff)
  have "wf_memory m" "typed t m (field from f)"
    using extended(1) [OF ty assms(1) Cons.prems(5)] Cons.prems(5) by (auto simp: extends_def)
  then obtain y m1 where y: "c (field from f) m = Some (y, m1)" "deep_copy t m (field from f) m1 y"
    using deep_copierE [OF c] by blast
  have ext: "extends m m1" using y(2) by (simp add: deep_copy_def)
  have new: "deep_copy t m0 (field from f) m1 y" by (rule deep_copy_from [OF ty assms(1) Cons.prems(5) y(2)])
  let ?out = "AList.update f y out"
  have only: "t' = t" if "(f, t') \<in> set fs" for t'
    using that t assms(3) by (metis eq_key_imp_eq_value)
  have fields: "if g \<in> insert f D then deep_copy t' m0 (field from g) m1 (field ?out g) else field ?out g = field from g"
    if g: "(g, t') \<in> set fs" for g t'
  proof (cases "g = f")
    case True
    then show ?thesis using new only g by (auto simp: field_update)
  next
    case False
    then show ?thesis
      using Cons.prems(7) g deep_copy_extended [OF _ ext] by (fastforce simp: field_update)
  qed
  have "\<exists>out' m'. statements ss from ?out m1 = Some (out', m') \<and> extends m0 m' \<and> map fst out' = map fst fs
      \<and> (\<forall>(f, t) \<in> set fs. deep_copy t m0 (field from f) m' (field out' f))"
  proof (rule Cons.IH [where D = "insert f D"])
    have "case map_of ss g of Some c \<Rightarrow> deep_copier t c | None \<Rightarrow> g \<in> insert f D \<or> address_free t" if g: "(g, t) \<in> set fs" for g t
    proof (cases "g = f")
      case True
      then have "map_of ss g = None" using Cons.prems(2) s by (simp add: map_of_eq_None_iff)
      with True show ?thesis by simp
    next
      case False
      have "case map_of (s # ss) g of Some c \<Rightarrow> deep_copier t c | None \<Rightarrow> g \<in> D \<or> address_free t"
        using bspec [OF Cons.prems(1) g] by simp
      with False s show ?thesis by (simp split: option.splits)
    qed
    then show "\<forall>(g, t) \<in> set fs. case map_of ss g of Some c \<Rightarrow> deep_copier t c | None \<Rightarrow> g \<in> insert f D \<or> address_free t"
      by blast
    have "f \<in> set (map fst out)" using t Cons.prems(6) by force
    then show "map fst ?out = map fst fs" using Cons.prems(6) keys_update by (metis set_map)
    show "distinct (map fst ss)" "set (map fst ss) \<subseteq> set (map fst fs)" using Cons.prems(2,3) by simp_all
    have "f \<notin> set (map fst ss)" using Cons.prems(2) s by simp
    then show "set (map fst ss) \<inter> insert f D = {}" using Cons.prems(4) by auto
    show "extends m0 m1" using extends_trans [OF Cons.prems(5) ext] .
    show "\<forall>(g, t) \<in> set fs. if g \<in> insert f D then deep_copy t m0 (field from g) m1 (field ?out g) else field ?out g = field from g"
      using fields by blast
  qed
  then show ?case using s y(1) by simp
qed

lemma deep_copier_struct:
  assumes "covers fs ss"
  shows "deep_copier (TStruct fs) (copy_struct ss)"
  unfolding deep_copier_def
proof (intro allI impI)
  fix m v
  assume m: "wf_memory m" and v: "typed (TStruct fs) m v"
  then obtain vs where vs: "v = Struct vs" by (auto split: val.splits)
  have "\<exists>out m'. statements ss vs vs m = Some (out, m') \<and> extends m m' \<and> map fst out = map fst fs
      \<and> (\<forall>(f, t) \<in> set fs. deep_copy t m (field vs f) m' (field out f))"
  proof (rule statements_deep [OF m v [unfolded vs], where D = "{}"])
    show "\<forall>(f, t) \<in> set fs. case map_of ss f of Some c \<Rightarrow> deep_copier t c | None \<Rightarrow> f \<in> {} \<or> address_free t"
      unfolding empty_iff simp_thms using assms by (simp add: covers_def list_all_iff)
    show "map fst vs = map fst fs" using v vs by simp
  qed (use assms extends_refl [OF m] in \<open>simp_all add: covers_def\<close>)
  then obtain out m' where out: "statements ss vs vs m = Some (out, m')" "extends m m'" "map fst out = map fst fs"
      "\<forall>(f, t) \<in> set fs. deep_copy t m (field vs f) m' (field out f)"
    by blast
  then have "\<forall>(f, t) \<in> set fs. typed t m' (field out f) \<and> holds t m' (field out f) = holds t m (field vs f)
      \<and> (\<forall>a \<in> reached t m' (field out f). fresh m \<le> a)"
    by (simp add: deep_copy_def case_prod_beta)
  with out(2,3) vs have "deep_copy (TStruct fs) m v m' (Struct out)"
    by (simp add: deep_copy_def list_all_iff case_prod_beta)
  with out(1) vs show "\<exists>v' m'. copy_struct ss v m = Some (v', m') \<and> deep_copy (TStruct fs) m v m' v'"
    by (auto simp: copy_struct_def)
qed

end
