(* ===== verification/Deep_Copies.thy ===== *)
theory Deep_Copies
  imports Go_Memory
begin

text \<open>
  The generated deep copies (\<open>api/v1alpha1/zz_generated.deepcopy.go\<close>), on the memory of
  \<open>Go_Memory\<close>.  \<open>T_<struct>\<close> is the shape of a struct in \<open>backuptask_types.go\<close> and
  \<open>backuprecord_types.go\<close>, field by field; \<open>DeepCopyInto_<struct>\<close> has one entry for each statement of the
  function after \<open>*out = *in\<close>, in its order.  The file has to follow the types: a pointer, slice or map that
  is added to a struct but not here would be shared by all copies.  The theorems rule that out.
\<close>

section \<open>Types\<close>

text \<open>
  The structs of other packages.  The functions rely on the first three holding no address (they are assigned), and
  on the deep copies of the others.
\<close>

record externals =
  x_TypeMeta :: ty
  x_ObjectReference :: ty
  x_SecretReference :: ty
  x_ObjectMeta :: "ty \<times> copier"
  x_ListMeta :: "ty \<times> copier"
  x_Time :: "ty \<times> copier"
  x_LabelSelector :: "ty \<times> copier"
  x_TypedLocalObjectReference :: "ty \<times> copier"
  x_PodSpec :: "ty \<times> copier"
  x_ResourceRequirements :: "ty \<times> copier"

definition externals_ok :: "externals \<Rightarrow> bool" where
  "externals_ok x \<longleftrightarrow> list_all address_free [x_TypeMeta x, x_ObjectReference x, x_SecretReference x]
     \<and> list_all (\<lambda>(t, c). deep_copier t c) [x_ObjectMeta x, x_ListMeta x, x_Time x, x_LabelSelector x,
       x_TypedLocalObjectReference x, x_PodSpec x, x_ResourceRequirements x]"

definition T_KeepLastPolicy :: "externals \<Rightarrow> ty" where
  "T_KeepLastPolicy x = TStruct [(''Hours'', TScalar), (''Days'', TScalar), (''Weeks'', TScalar),
     (''Months'', TScalar)]"

definition T_RetentionPolicy :: "externals \<Rightarrow> ty" where
  "T_RetentionPolicy x = TStruct [(''MaxAgeDays'', TPtr TScalar), (''MaxBackupCount'', TPtr TScalar),
     (''KeepLast'', TPtr (T_KeepLastPolicy x))]"

definition T_DatabaseBackupSpec :: "externals \<Rightarrow> ty" where
  "T_DatabaseBackupSpec x = TStruct [(''Type'', TScalar), (''Host'', TScalar), (''Port'', TPtr TScalar),
     (''Database'', TScalar), (''AuthSecretRef'', x_SecretReference x), (''ExtraArgs'', TSlice TScalar),
     (''EnablePITR'', TScalar)]"

definition T_ConfigBackupSpec :: "externals \<Rightarrow> ty" where
  "T_ConfigBackupSpec x = TStruct [(''IncludeNamespaces'', TSlice TScalar),
     (''ExcludeNamespaces'', TSlice TScalar), (''ResourceTypes'', TSlice TScalar),
     (''LabelSelector'', TPtr (fst (x_LabelSelector x)))]"

definition T_DirectoryPath :: "externals \<Rightarrow> ty" where
  "T_DirectoryPath x = TStruct [(''Path'', TScalar), (''PVCRef'', TPtr (fst (x_TypedLocalObjectReference x))),
     (''SubPath'', TScalar)]"

definition T_DirectoryBackupSpec :: "externals \<Rightarrow> ty" where
  "T_DirectoryBackupSpec x = TStruct [(''Paths'', TSlice (T_DirectoryPath x)),
     (''ExcludePatterns'', TSlice TScalar), (''CompressionLevel'', TPtr TScalar)]"

definition T_NFSBackupSpec :: "externals \<Rightarrow> ty" where
  "T_NFSBackupSpec x = TStruct [(''Server'', TScalar), (''Path'', TScalar), (''MountOptions'', TSlice TScalar),
     (''SubPath'', TScalar)]"

definition T_BackupTarget :: "externals \<Rightarrow> ty" where
  "T_BackupTarget x = TStruct [(''Name'', TScalar), (''Type'', TScalar),
     (''Database'', TPtr (T_DatabaseBackupSpec x)), (''Config'', TPtr (T_ConfigBackupSpec x)),
     (''Directory'', TPtr (T_DirectoryBackupSpec x)), (''NFS'', TPtr (T_NFSBackupSpec x))]"

definition T_S3StorageSpec :: "externals \<Rightarrow> ty" where
  "T_S3StorageSpec x = TStruct [(''Endpoint'', TScalar), (''Bucket'', TScalar), (''Prefix'', TScalar),
     (''Region'', TScalar), (''AuthSecretRef'', x_SecretReference x), (''UseTLS'', TPtr TScalar),
     (''SkipTLSVerify'', TPtr TScalar)]"

definition T_SFTPStorageSpec :: "externals \<Rightarrow> ty" where
  "T_SFTPStorageSpec x = TStruct [(''Host'', TScalar), (''Port'', TPtr TScalar), (''Path'', TScalar),
     (''AuthSecretRef'', x_SecretReference x), (''SSHKeyType'', TScalar)]"

definition T_NFSStorageSpec :: "externals \<Rightarrow> ty" where
  "T_NFSStorageSpec x = TStruct [(''Server'', TScalar), (''Path'', TScalar), (''MountOptions'', TSlice TScalar)]"

definition T_SMBStorageSpec :: "externals \<Rightarrow> ty" where
  "T_SMBStorageSpec x = TStruct [(''Server'', TScalar), (''Share'', TScalar), (''Path'', TScalar),
     (''AuthSecretRef'', x_SecretReference x), (''Domain'', TScalar)]"

definition T_RemoteStorageSpec :: "externals \<Rightarrow> ty" where
  "T_RemoteStorageSpec x = TStruct [(''Type'', TScalar), (''S3'', TPtr (T_S3StorageSpec x)),
     (''SFTP'', TPtr (T_SFTPStorageSpec x)), (''NFS'', TPtr (T_NFSStorageSpec x)),
     (''SMB'', TPtr (T_SMBStorageSpec x))]"

definition T_EncryptionSpec :: "externals \<Rightarrow> ty" where
  "T_EncryptionSpec x = TStruct [(''Enabled'', TScalar), (''Algorithm'', TScalar),
     (''KeySecretRef'', x_SecretReference x), (''EncryptAfterCompress'', TPtr TScalar)]"

definition T_PodTemplateSpec :: "externals \<Rightarrow> ty" where
  "T_PodTemplateSpec x = TStruct [(''Metadata'', TPtr (fst (x_ObjectMeta x))),
     (''Spec'', TPtr (fst (x_PodSpec x)))]"

definition T_ExecHook :: "externals \<Rightarrow> ty" where
  "T_ExecHook x = TStruct [(''Command'', TSlice TScalar), (''Container'', TScalar)]"

definition T_HTTPHeader :: "externals \<Rightarrow> ty" where
  "T_HTTPHeader x = TStruct [(''Name'', TScalar), (''Value'', TScalar)]"

definition T_HTTPHook :: "externals \<Rightarrow> ty" where
  "T_HTTPHook x = TStruct [(''URL'', TScalar), (''Method'', TScalar), (''Headers'', TSlice (T_HTTPHeader x)),
     (''Body'', TScalar)]"

definition T_HookSpec :: "externals \<Rightarrow> ty" where
  "T_HookSpec x = TStruct [(''Type'', TScalar), (''Exec'', TPtr (T_ExecHook x)),
     (''HTTP'', TPtr (T_HTTPHook x)), (''TimeoutSeconds'', TPtr TScalar)]"

definition T_BackupTaskSpec :: "externals \<Rightarrow> ty" where
  "T_BackupTaskSpec x = TStruct [(''Schedule'', TScalar), (''Retention'', TPtr (T_RetentionPolicy x)),
     (''Targets'', TSlice (T_BackupTarget x)), (''RemoteStorage'', T_RemoteStorageSpec x),
     (''Encryption'', TPtr (T_EncryptionSpec x)), (''PodTemplate'', TPtr (T_PodTemplateSpec x)),
     (''PostBackupHooks'', TSlice (T_HookSpec x)), (''Resources'', TPtr (fst (x_ResourceRequirements x))),
     (''BackupImage'', TScalar), (''BackupCmd'', TScalar)]"

definition T_BackupTaskCondition :: "externals \<Rightarrow> ty" where
  "T_BackupTaskCondition x = TStruct [(''Type'', TScalar), (''Status'', TScalar),
     (''LastTransitionTime'', fst (x_Time x)), (''Reason'', TScalar), (''Message'', TScalar)]"

definition T_BackupTaskStatus :: "externals \<Rightarrow> ty" where
  "T_BackupTaskStatus x = TStruct [(''ObservedGeneration'', TScalar), (''Phase'', TScalar),
     (''LastScheduledTime'', TPtr (fst (x_Time x))), (''LastSuccessfulTime'', TPtr (fst (x_Time x))),
     (''LastCompletionTime'', TPtr (fst (x_Time x))), (''ActiveBackupJob'', TPtr (x_ObjectReference x)),
     (''BackupHistoryCount'', TScalar), (''Conditions'', TSlice (T_BackupTaskCondition x)),
     (''NextScheduleTime'', TPtr (fst (x_Time x)))]"

definition T_BackupTask :: "externals \<Rightarrow> ty" where
  "T_BackupTask x = TStruct [(''TypeMeta'', x_TypeMeta x), (''ObjectMeta'', fst (x_ObjectMeta x)),
     (''Spec'', T_BackupTaskSpec x), (''Status'', T_BackupTaskStatus x)]"

definition T_BackupTaskList :: "externals \<Rightarrow> ty" where
  "T_BackupTaskList x = TStruct [(''TypeMeta'', x_TypeMeta x), (''ListMeta'', fst (x_ListMeta x)),
     (''Items'', TSlice (T_BackupTask x))]"

definition T_BackupFileInfo :: "externals \<Rightarrow> ty" where
  "T_BackupFileInfo x = TStruct [(''Path'', TScalar), (''Size'', TScalar), (''Checksum'', TScalar),
     (''StorageType'', TScalar)]"

definition T_BackupStatistics :: "externals \<Rightarrow> ty" where
  "T_BackupStatistics x = TStruct [(''TotalSize'', TScalar), (''FileCount'', TScalar),
     (''CompressionRatio'', TScalar), (''DurationSeconds'', TScalar)]"

definition T_BackupRecordSpec :: "externals \<Rightarrow> ty" where
  "T_BackupRecordSpec x = TStruct [(''BackupTaskRef'', x_ObjectReference x), (''StartTime'', fst (x_Time x)),
     (''CompletionTime'', TPtr (fst (x_Time x))), (''BackupFiles'', TSlice (T_BackupFileInfo x)),
     (''Statistics'', TPtr (T_BackupStatistics x)), (''Labels'', TMap)]"

definition T_VerificationStatus :: "externals \<Rightarrow> ty" where
  "T_VerificationStatus x = TStruct [(''VerifiedAt'', TPtr (fst (x_Time x))), (''Result'', TScalar),
     (''Message'', TScalar)]"

definition T_BackupRecordStatus :: "externals \<Rightarrow> ty" where
  "T_BackupRecordStatus x = TStruct [(''Phase'', TScalar), (''Error'', TScalar),
     (''VerificationStatus'', T_VerificationStatus x), (''ExpirationTime'', TPtr (fst (x_Time x)))]"

definition T_BackupRecord :: "externals \<Rightarrow> ty" where
  "T_BackupRecord x = TStruct [(''TypeMeta'', x_TypeMeta x), (''ObjectMeta'', fst (x_ObjectMeta x)),
     (''Spec'', T_BackupRecordSpec x), (''Status'', T_BackupRecordStatus x)]"

definition T_BackupRecordList :: "externals \<Rightarrow> ty" where
  "T_BackupRecordList x = TStruct [(''TypeMeta'', x_TypeMeta x), (''ListMeta'', fst (x_ListMeta x)),
     (''Items'', TSlice (T_BackupRecord x))]"

section \<open>The functions\<close>

definition DeepCopyInto_KeepLastPolicy :: "externals \<Rightarrow> copier" where
  "DeepCopyInto_KeepLastPolicy x = copy_struct []"

definition DeepCopyInto_RetentionPolicy :: "externals \<Rightarrow> copier" where
  "DeepCopyInto_RetentionPolicy x = copy_struct [(''MaxAgeDays'', copy_pointer assign),
     (''MaxBackupCount'', copy_pointer assign), (''KeepLast'', copy_pointer assign)]"

definition DeepCopyInto_DatabaseBackupSpec :: "externals \<Rightarrow> copier" where
  "DeepCopyInto_DatabaseBackupSpec x = copy_struct [(''Port'', copy_pointer assign), (''AuthSecretRef'', assign),
     (''ExtraArgs'', copy_slice assign)]"

definition DeepCopyInto_ConfigBackupSpec :: "externals \<Rightarrow> copier" where
  "DeepCopyInto_ConfigBackupSpec x = copy_struct [(''IncludeNamespaces'', copy_slice assign),
     (''ExcludeNamespaces'', copy_slice assign), (''ResourceTypes'', copy_slice assign),
     (''LabelSelector'', copy_pointer (snd (x_LabelSelector x)))]"

definition DeepCopyInto_DirectoryPath :: "externals \<Rightarrow> copier" where
  "DeepCopyInto_DirectoryPath x = copy_struct [(''PVCRef'', copy_pointer (snd (x_TypedLocalObjectReference x)))]"

definition DeepCopyInto_DirectoryBackupSpec :: "externals \<Rightarrow> copier" where
  "DeepCopyInto_DirectoryBackupSpec x = copy_struct [(''Paths'', copy_slice (DeepCopyInto_DirectoryPath x)),
     (''ExcludePatterns'', copy_slice assign), (''CompressionLevel'', copy_pointer assign)]"

definition DeepCopyInto_NFSBackupSpec :: "externals \<Rightarrow> copier" where
  "DeepCopyInto_NFSBackupSpec x = copy_struct [(''MountOptions'', copy_slice assign)]"

definition DeepCopyInto_BackupTarget :: "externals \<Rightarrow> copier" where
  "DeepCopyInto_BackupTarget x = copy_struct [(''Database'', copy_pointer (DeepCopyInto_DatabaseBackupSpec x)),
     (''Config'', copy_pointer (DeepCopyInto_ConfigBackupSpec x)),
     (''Directory'', copy_pointer (DeepCopyInto_DirectoryBackupSpec x)),
     (''NFS'', copy_pointer (DeepCopyInto_NFSBackupSpec x))]"

definition DeepCopyInto_S3StorageSpec :: "externals \<Rightarrow> copier" where
  "DeepCopyInto_S3StorageSpec x = copy_struct [(''AuthSecretRef'', assign), (''UseTLS'', copy_pointer assign),
     (''SkipTLSVerify'', copy_pointer assign)]"

definition DeepCopyInto_SFTPStorageSpec :: "externals \<Rightarrow> copier" where
  "DeepCopyInto_SFTPStorageSpec x = copy_struct [(''Port'', copy_pointer assign), (''AuthSecretRef'', assign)]"

definition DeepCopyInto_NFSStorageSpec :: "externals \<Rightarrow> copier" where
  "DeepCopyInto_NFSStorageSpec x = copy_struct [(''MountOptions'', copy_slice assign)]"

definition DeepCopyInto_SMBStorageSpec :: "externals \<Rightarrow> copier" where
  "DeepCopyInto_SMBStorageSpec x = copy_struct [(''AuthSecretRef'', assign)]"

definition DeepCopyInto_RemoteStorageSpec :: "externals \<Rightarrow> copier" where
  "DeepCopyInto_RemoteStorageSpec x = copy_struct [(''S3'', copy_pointer (DeepCopyInto_S3StorageSpec x)),
     (''SFTP'', copy_pointer (DeepCopyInto_SFTPStorageSpec x)),
     (''NFS'', copy_pointer (DeepCopyInto_NFSStorageSpec x)), (''SMB'', copy_pointer assign)]"

definition DeepCopyInto_EncryptionSpec :: "externals \<Rightarrow> copier" where
  "DeepCopyInto_EncryptionSpec x = copy_struct [(''KeySecretRef'', assign),
     (''EncryptAfterCompress'', copy_pointer assign)]"

definition DeepCopyInto_PodTemplateSpec :: "externals \<Rightarrow> copier" where
  "DeepCopyInto_PodTemplateSpec x = copy_struct [(''Metadata'', copy_pointer (snd (x_ObjectMeta x))),
     (''Spec'', copy_pointer (snd (x_PodSpec x)))]"

definition DeepCopyInto_ExecHook :: "externals \<Rightarrow> copier" where
  "DeepCopyInto_ExecHook x = copy_struct [(''Command'', copy_slice assign)]"

definition DeepCopyInto_HTTPHeader :: "externals \<Rightarrow> copier" where
  "DeepCopyInto_HTTPHeader x = copy_struct []"

definition DeepCopyInto_HTTPHook :: "externals \<Rightarrow> copier" where
  "DeepCopyInto_HTTPHook x = copy_struct [(''Headers'', copy_slice assign)]"

definition DeepCopyInto_HookSpec :: "externals \<Rightarrow> copier" where
  "DeepCopyInto_HookSpec x = copy_struct [(''Exec'', copy_pointer (DeepCopyInto_ExecHook x)),
     (''HTTP'', copy_pointer (DeepCopyInto_HTTPHook x)), (''TimeoutSeconds'', copy_pointer assign)]"

definition DeepCopyInto_BackupTaskSpec :: "externals \<Rightarrow> copier" where
  "DeepCopyInto_BackupTaskSpec x = copy_struct [(''Retention'', copy_pointer (DeepCopyInto_RetentionPolicy x)),
     (''Targets'', copy_slice (DeepCopyInto_BackupTarget x)), (''RemoteStorage'', DeepCopyInto_RemoteStorageSpec x),
     (''Encryption'', copy_pointer (DeepCopyInto_EncryptionSpec x)),
     (''PodTemplate'', copy_pointer (DeepCopyInto_PodTemplateSpec x)),
     (''PostBackupHooks'', copy_slice (DeepCopyInto_HookSpec x)),
     (''Resources'', copy_pointer (snd (x_ResourceRequirements x)))]"

definition DeepCopyInto_BackupTaskCondition :: "externals \<Rightarrow> copier" where
  "DeepCopyInto_BackupTaskCondition x = copy_struct [(''LastTransitionTime'', snd (x_Time x))]"

definition DeepCopyInto_BackupTaskStatus :: "externals \<Rightarrow> copier" where
  "DeepCopyInto_BackupTaskStatus x = copy_struct [(''LastScheduledTime'', copy_pointer (snd (x_Time x))),
     (''LastSuccessfulTime'', copy_pointer (snd (x_Time x))),
     (''LastCompletionTime'', copy_pointer (snd (x_Time x))), (''ActiveBackupJob'', copy_pointer assign),
     (''Conditions'', copy_slice (DeepCopyInto_BackupTaskCondition x)),
     (''NextScheduleTime'', copy_pointer (snd (x_Time x)))]"

definition DeepCopyInto_BackupTask :: "externals \<Rightarrow> copier" where
  "DeepCopyInto_BackupTask x = copy_struct [(''TypeMeta'', assign), (''ObjectMeta'', snd (x_ObjectMeta x)),
     (''Spec'', DeepCopyInto_BackupTaskSpec x), (''Status'', DeepCopyInto_BackupTaskStatus x)]"

definition DeepCopyInto_BackupTaskList :: "externals \<Rightarrow> copier" where
  "DeepCopyInto_BackupTaskList x = copy_struct [(''TypeMeta'', assign), (''ListMeta'', snd (x_ListMeta x)),
     (''Items'', copy_slice (DeepCopyInto_BackupTask x))]"

definition DeepCopyInto_BackupFileInfo :: "externals \<Rightarrow> copier" where
  "DeepCopyInto_BackupFileInfo x = copy_struct []"

definition DeepCopyInto_BackupStatistics :: "externals \<Rightarrow> copier" where
  "DeepCopyInto_BackupStatistics x = copy_struct []"

definition DeepCopyInto_BackupRecordSpec :: "externals \<Rightarrow> copier" where
  "DeepCopyInto_BackupRecordSpec x = copy_struct [(''BackupTaskRef'', assign), (''StartTime'', snd (x_Time x)),
     (''CompletionTime'', copy_pointer (snd (x_Time x))), (''BackupFiles'', copy_slice assign),
     (''Statistics'', copy_pointer assign), (''Labels'', copy_map)]"

definition DeepCopyInto_VerificationStatus :: "externals \<Rightarrow> copier" where
  "DeepCopyInto_VerificationStatus x = copy_struct [(''VerifiedAt'', copy_pointer (snd (x_Time x)))]"

definition DeepCopyInto_BackupRecordStatus :: "externals \<Rightarrow> copier" where
  "DeepCopyInto_BackupRecordStatus x = copy_struct [(''VerificationStatus'', DeepCopyInto_VerificationStatus x),
     (''ExpirationTime'', copy_pointer (snd (x_Time x)))]"

definition DeepCopyInto_BackupRecord :: "externals \<Rightarrow> copier" where
  "DeepCopyInto_BackupRecord x = copy_struct [(''TypeMeta'', assign), (''ObjectMeta'', snd (x_ObjectMeta x)),
     (''Spec'', DeepCopyInto_BackupRecordSpec x), (''Status'', DeepCopyInto_BackupRecordStatus x)]"

definition DeepCopyInto_BackupRecordList :: "externals \<Rightarrow> copier" where
  "DeepCopyInto_BackupRecordList x = copy_struct [(''TypeMeta'', assign), (''ListMeta'', snd (x_ListMeta x)),
     (''Items'', copy_slice (DeepCopyInto_BackupRecord x))]"

definition DeepCopy_KeepLastPolicy :: "externals \<Rightarrow> copier" where
  "DeepCopy_KeepLastPolicy x = copy_pointer (DeepCopyInto_KeepLastPolicy x)"

definition DeepCopy_RetentionPolicy :: "externals \<Rightarrow> copier" where
  "DeepCopy_RetentionPolicy x = copy_pointer (DeepCopyInto_RetentionPolicy x)"

definition DeepCopy_DatabaseBackupSpec :: "externals \<Rightarrow> copier" where
  "DeepCopy_DatabaseBackupSpec x = copy_pointer (DeepCopyInto_DatabaseBackupSpec x)"

definition DeepCopy_ConfigBackupSpec :: "externals \<Rightarrow> copier" where
  "DeepCopy_ConfigBackupSpec x = copy_pointer (DeepCopyInto_ConfigBackupSpec x)"

definition DeepCopy_DirectoryPath :: "externals \<Rightarrow> copier" where
  "DeepCopy_DirectoryPath x = copy_pointer (DeepCopyInto_DirectoryPath x)"

definition DeepCopy_DirectoryBackupSpec :: "externals \<Rightarrow> copier" where
  "DeepCopy_DirectoryBackupSpec x = copy_pointer (DeepCopyInto_DirectoryBackupSpec x)"

definition DeepCopy_NFSBackupSpec :: "externals \<Rightarrow> copier" where
  "DeepCopy_NFSBackupSpec x = copy_pointer (DeepCopyInto_NFSBackupSpec x)"

definition DeepCopy_BackupTarget :: "externals \<Rightarrow> copier" where
  "DeepCopy_BackupTarget x = copy_pointer (DeepCopyInto_BackupTarget x)"

definition DeepCopy_S3StorageSpec :: "externals \<Rightarrow> copier" where
  "DeepCopy_S3StorageSpec x = copy_pointer (DeepCopyInto_S3StorageSpec x)"

definition DeepCopy_SFTPStorageSpec :: "externals \<Rightarrow> copier" where
  "DeepCopy_SFTPStorageSpec x = copy_pointer (DeepCopyInto_SFTPStorageSpec x)"

definition DeepCopy_NFSStorageSpec :: "externals \<Rightarrow> copier" where
  "DeepCopy_NFSStorageSpec x = copy_pointer (DeepCopyInto_NFSStorageSpec x)"

definition DeepCopy_SMBStorageSpec :: "externals \<Rightarrow> copier" where
  "DeepCopy_SMBStorageSpec x = copy_pointer (DeepCopyInto_SMBStorageSpec x)"

definition DeepCopy_RemoteStorageSpec :: "externals \<Rightarrow> copier" where
  "DeepCopy_RemoteStorageSpec x = copy_pointer (DeepCopyInto_RemoteStorageSpec x)"

definition DeepCopy_EncryptionSpec :: "externals \<Rightarrow> copier" where
  "DeepCopy_EncryptionSpec x = copy_pointer (DeepCopyInto_EncryptionSpec x)"

definition DeepCopy_PodTemplateSpec :: "externals \<Rightarrow> copier" where
  "DeepCopy_PodTemplateSpec x = copy_pointer (DeepCopyInto_PodTemplateSpec x)"

definition DeepCopy_ExecHook :: "externals \<Rightarrow> copier" where
  "DeepCopy_ExecHook x = copy_pointer (DeepCopyInto_ExecHook x)"

definition DeepCopy_HTTPHeader :: "externals \<Rightarrow> copier" where
  "DeepCopy_HTTPHeader x = copy_pointer (DeepCopyInto_HTTPHeader x)"

definition DeepCopy_HTTPHook :: "externals \<Rightarrow> copier" where
  "DeepCopy_HTTPHook x = copy_pointer (DeepCopyInto_HTTPHook x)"

definition DeepCopy_HookSpec :: "externals \<Rightarrow> copier" where
  "DeepCopy_HookSpec x = copy_pointer (DeepCopyInto_HookSpec x)"

definition DeepCopy_BackupTaskSpec :: "externals \<Rightarrow> copier" where
  "DeepCopy_BackupTaskSpec x = copy_pointer (DeepCopyInto_BackupTaskSpec x)"

definition DeepCopy_BackupTaskCondition :: "externals \<Rightarrow> copier" where
  "DeepCopy_BackupTaskCondition x = copy_pointer (DeepCopyInto_BackupTaskCondition x)"

definition DeepCopy_BackupTaskStatus :: "externals \<Rightarrow> copier" where
  "DeepCopy_BackupTaskStatus x = copy_pointer (DeepCopyInto_BackupTaskStatus x)"

definition DeepCopy_BackupTask :: "externals \<Rightarrow> copier" where
  "DeepCopy_BackupTask x = copy_pointer (DeepCopyInto_BackupTask x)"

definition DeepCopy_BackupTaskList :: "externals \<Rightarrow> copier" where
  "DeepCopy_BackupTaskList x = copy_pointer (DeepCopyInto_BackupTaskList x)"

definition DeepCopy_BackupFileInfo :: "externals \<Rightarrow> copier" where
  "DeepCopy_BackupFileInfo x = copy_pointer (DeepCopyInto_BackupFileInfo x)"

definition DeepCopy_BackupStatistics :: "externals \<Rightarrow> copier" where
  "DeepCopy_BackupStatistics x = copy_pointer (DeepCopyInto_BackupStatistics x)"

definition DeepCopy_BackupRecordSpec :: "externals \<Rightarrow> copier" where
  "DeepCopy_BackupRecordSpec x = copy_pointer (DeepCopyInto_BackupRecordSpec x)"

definition DeepCopy_VerificationStatus :: "externals \<Rightarrow> copier" where
  "DeepCopy_VerificationStatus x = copy_pointer (DeepCopyInto_VerificationStatus x)"

definition DeepCopy_BackupRecordStatus :: "externals \<Rightarrow> copier" where
  "DeepCopy_BackupRecordStatus x = copy_pointer (DeepCopyInto_BackupRecordStatus x)"

definition DeepCopy_BackupRecord :: "externals \<Rightarrow> copier" where
  "DeepCopy_BackupRecord x = copy_pointer (DeepCopyInto_BackupRecord x)"

definition DeepCopy_BackupRecordList :: "externals \<Rightarrow> copier" where
  "DeepCopy_BackupRecordList x = copy_pointer (DeepCopyInto_BackupRecordList x)"

section \<open>Every function copies deeply\<close>

named_theorems deep

lemma address_free_types [simp]:
  "address_free (T_KeepLastPolicy x)" "address_free (T_HTTPHeader x)" "address_free (T_BackupFileInfo x)"
  "address_free (T_BackupStatistics x)" "externals_ok x \<Longrightarrow> address_free (T_SMBStorageSpec x)"
  by (simp_all add: T_KeepLastPolicy_def T_HTTPHeader_def T_BackupFileInfo_def T_BackupStatistics_def T_SMBStorageSpec_def externals_ok_def)

lemma deep_externals [deep]:
  assumes "externals_ok x"
  shows "address_free (x_TypeMeta x)" "address_free (x_ObjectReference x)" "address_free (x_SecretReference x)"
    "deep_copier (fst (x_ObjectMeta x)) (snd (x_ObjectMeta x))" "deep_copier (fst (x_ListMeta x)) (snd (x_ListMeta x))"
    "deep_copier (fst (x_Time x)) (snd (x_Time x))" "deep_copier (fst (x_LabelSelector x)) (snd (x_LabelSelector x))"
    "deep_copier (fst (x_TypedLocalObjectReference x)) (snd (x_TypedLocalObjectReference x))"
    "deep_copier (fst (x_PodSpec x)) (snd (x_PodSpec x))"
    "deep_copier (fst (x_ResourceRequirements x)) (snd (x_ResourceRequirements x))"
  using assms by (simp_all add: externals_ok_def case_prod_beta)

lemmas deep_statements = deep_copier_assign deep_copier_pointer deep_copier_slice deep_copier_map

lemma deep_KeepLastPolicy [deep]: "externals_ok x \<Longrightarrow> deep_copier (T_KeepLastPolicy x) (DeepCopyInto_KeepLastPolicy x)"
  unfolding T_KeepLastPolicy_def DeepCopyInto_KeepLastPolicy_def by (rule deep_copier_struct) (simp add: covers_def deep deep_statements)

lemma deep_RetentionPolicy [deep]: "externals_ok x \<Longrightarrow> deep_copier (T_RetentionPolicy x) (DeepCopyInto_RetentionPolicy x)"
  unfolding T_RetentionPolicy_def DeepCopyInto_RetentionPolicy_def by (rule deep_copier_struct) (simp add: covers_def deep deep_statements)

lemma deep_DatabaseBackupSpec [deep]: "externals_ok x \<Longrightarrow> deep_copier (T_DatabaseBackupSpec x) (DeepCopyInto_DatabaseBackupSpec x)"
  unfolding T_DatabaseBackupSpec_def DeepCopyInto_DatabaseBackupSpec_def by (rule deep_copier_struct) (simp add: covers_def deep deep_statements)

lemma deep_ConfigBackupSpec [deep]: "externals_ok x \<Longrightarrow> deep_copier (T_ConfigBackupSpec x) (DeepCopyInto_ConfigBackupSpec x)"
  unfolding T_ConfigBackupSpec_def DeepCopyInto_ConfigBackupSpec_def by (rule deep_copier_struct) (simp add: covers_def deep deep_statements)

lemma deep_DirectoryPath [deep]: "externals_ok x \<Longrightarrow> deep_copier (T_DirectoryPath x) (DeepCopyInto_DirectoryPath x)"
  unfolding T_DirectoryPath_def DeepCopyInto_DirectoryPath_def by (rule deep_copier_struct) (simp add: covers_def deep deep_statements)

lemma deep_DirectoryBackupSpec [deep]: "externals_ok x \<Longrightarrow> deep_copier (T_DirectoryBackupSpec x) (DeepCopyInto_DirectoryBackupSpec x)"
  unfolding T_DirectoryBackupSpec_def DeepCopyInto_DirectoryBackupSpec_def by (rule deep_copier_struct) (simp add: covers_def deep deep_statements)

lemma deep_NFSBackupSpec [deep]: "externals_ok x \<Longrightarrow> deep_copier (T_NFSBackupSpec x) (DeepCopyInto_NFSBackupSpec x)"
  unfolding T_NFSBackupSpec_def DeepCopyInto_NFSBackupSpec_def by (rule deep_copier_struct) (simp add: covers_def deep deep_statements)

lemma deep_BackupTarget [deep]: "externals_ok x \<Longrightarrow> deep_copier (T_BackupTarget x) (DeepCopyInto_BackupTarget x)"
  unfolding T_BackupTarget_def DeepCopyInto_BackupTarget_def by (rule deep_copier_struct) (simp add: covers_def deep deep_statements)

lemma deep_S3StorageSpec [deep]: "externals_ok x \<Longrightarrow> deep_copier (T_S3StorageSpec x) (DeepCopyInto_S3StorageSpec x)"
  unfolding T_S3StorageSpec_def DeepCopyInto_S3StorageSpec_def by (rule deep_copier_struct) (simp add: covers_def deep deep_statements)

lemma deep_SFTPStorageSpec [deep]: "externals_ok x \<Longrightarrow> deep_copier (T_SFTPStorageSpec x) (DeepCopyInto_SFTPStorageSpec x)"
  unfolding T_SFTPStorageSpec_def DeepCopyInto_SFTPStorageSpec_def by (rule deep_copier_struct) (simp add: covers_def deep deep_statements)

lemma deep_NFSStorageSpec [deep]: "externals_ok x \<Longrightarrow> deep_copier (T_NFSStorageSpec x) (DeepCopyInto_NFSStorageSpec x)"
  unfolding T_NFSStorageSpec_def DeepCopyInto_NFSStorageSpec_def by (rule deep_copier_struct) (simp add: covers_def deep deep_statements)

lemma deep_SMBStorageSpec [deep]: "externals_ok x \<Longrightarrow> deep_copier (T_SMBStorageSpec x) (DeepCopyInto_SMBStorageSpec x)"
  unfolding T_SMBStorageSpec_def DeepCopyInto_SMBStorageSpec_def by (rule deep_copier_struct) (simp add: covers_def deep deep_statements)

lemma deep_RemoteStorageSpec [deep]: "externals_ok x \<Longrightarrow> deep_copier (T_RemoteStorageSpec x) (DeepCopyInto_RemoteStorageSpec x)"
  unfolding T_RemoteStorageSpec_def DeepCopyInto_RemoteStorageSpec_def by (rule deep_copier_struct) (simp add: covers_def deep deep_statements)

lemma deep_EncryptionSpec [deep]: "externals_ok x \<Longrightarrow> deep_copier (T_EncryptionSpec x) (DeepCopyInto_EncryptionSpec x)"
  unfolding T_EncryptionSpec_def DeepCopyInto_EncryptionSpec_def by (rule deep_copier_struct) (simp add: covers_def deep deep_statements)

lemma deep_PodTemplateSpec [deep]: "externals_ok x \<Longrightarrow> deep_copier (T_PodTemplateSpec x) (DeepCopyInto_PodTemplateSpec x)"
  unfolding T_PodTemplateSpec_def DeepCopyInto_PodTemplateSpec_def by (rule deep_copier_struct) (simp add: covers_def deep deep_statements)

lemma deep_ExecHook [deep]: "externals_ok x \<Longrightarrow> deep_copier (T_ExecHook x) (DeepCopyInto_ExecHook x)"
  unfolding T_ExecHook_def DeepCopyInto_ExecHook_def by (rule deep_copier_struct) (simp add: covers_def deep deep_statements)

lemma deep_HTTPHeader [deep]: "externals_ok x \<Longrightarrow> deep_copier (T_HTTPHeader x) (DeepCopyInto_HTTPHeader x)"
  unfolding T_HTTPHeader_def DeepCopyInto_HTTPHeader_def by (rule deep_copier_struct) (simp add: covers_def deep deep_statements)

lemma deep_HTTPHook [deep]: "externals_ok x \<Longrightarrow> deep_copier (T_HTTPHook x) (DeepCopyInto_HTTPHook x)"
  unfolding T_HTTPHook_def DeepCopyInto_HTTPHook_def by (rule deep_copier_struct) (simp add: covers_def deep deep_statements)

lemma deep_HookSpec [deep]: "externals_ok x \<Longrightarrow> deep_copier (T_HookSpec x) (DeepCopyInto_HookSpec x)"
  unfolding T_HookSpec_def DeepCopyInto_HookSpec_def by (rule deep_copier_struct) (simp add: covers_def deep deep_statements)

lemma deep_BackupTaskSpec [deep]: "externals_ok x \<Longrightarrow> deep_copier (T_BackupTaskSpec x) (DeepCopyInto_BackupTaskSpec x)"
  unfolding T_BackupTaskSpec_def DeepCopyInto_BackupTaskSpec_def by (rule deep_copier_struct) (simp add: covers_def deep deep_statements)

lemma deep_BackupTaskCondition [deep]: "externals_ok x \<Longrightarrow> deep_copier (T_BackupTaskCondition x) (DeepCopyInto_BackupTaskCondition x)"
  unfolding T_BackupTaskCondition_def DeepCopyInto_BackupTaskCondition_def by (rule deep_copier_struct) (simp add: covers_def deep deep_statements)

lemma deep_BackupTaskStatus [deep]: "externals_ok x \<Longrightarrow> deep_copier (T_BackupTaskStatus x) (DeepCopyInto_BackupTaskStatus x)"
  unfolding T_BackupTaskStatus_def DeepCopyInto_BackupTaskStatus_def by (rule deep_copier_struct) (simp add: covers_def deep deep_statements)

lemma deep_BackupTask [deep]: "externals_ok x \<Longrightarrow> deep_copier (T_BackupTask x) (DeepCopyInto_BackupTask x)"
  unfolding T_BackupTask_def DeepCopyInto_BackupTask_def by (rule deep_copier_struct) (simp add: covers_def deep deep_statements)

lemma deep_BackupTaskList [deep]: "externals_ok x \<Longrightarrow> deep_copier (T_BackupTaskList x) (DeepCopyInto_BackupTaskList x)"
  unfolding T_BackupTaskList_def DeepCopyInto_BackupTaskList_def by (rule deep_copier_struct) (simp add: covers_def deep deep_statements)

lemma deep_BackupFileInfo [deep]: "externals_ok x \<Longrightarrow> deep_copier (T_BackupFileInfo x) (DeepCopyInto_BackupFileInfo x)"
  unfolding T_BackupFileInfo_def DeepCopyInto_BackupFileInfo_def by (rule deep_copier_struct) (simp add: covers_def deep deep_statements)

lemma deep_BackupStatistics [deep]: "externals_ok x \<Longrightarrow> deep_copier (T_BackupStatistics x) (DeepCopyInto_BackupStatistics x)"
  unfolding T_BackupStatistics_def DeepCopyInto_BackupStatistics_def by (rule deep_copier_struct) (simp add: covers_def deep deep_statements)

lemma deep_BackupRecordSpec [deep]: "externals_ok x \<Longrightarrow> deep_copier (T_BackupRecordSpec x) (DeepCopyInto_BackupRecordSpec x)"
  unfolding T_BackupRecordSpec_def DeepCopyInto_BackupRecordSpec_def by (rule deep_copier_struct) (simp add: covers_def deep deep_statements)

lemma deep_VerificationStatus [deep]: "externals_ok x \<Longrightarrow> deep_copier (T_VerificationStatus x) (DeepCopyInto_VerificationStatus x)"
  unfolding T_VerificationStatus_def DeepCopyInto_VerificationStatus_def by (rule deep_copier_struct) (simp add: covers_def deep deep_statements)

lemma deep_BackupRecordStatus [deep]: "externals_ok x \<Longrightarrow> deep_copier (T_BackupRecordStatus x) (DeepCopyInto_BackupRecordStatus x)"
  unfolding T_BackupRecordStatus_def DeepCopyInto_BackupRecordStatus_def by (rule deep_copier_struct) (simp add: covers_def deep deep_statements)

lemma deep_BackupRecord [deep]: "externals_ok x \<Longrightarrow> deep_copier (T_BackupRecord x) (DeepCopyInto_BackupRecord x)"
  unfolding T_BackupRecord_def DeepCopyInto_BackupRecord_def by (rule deep_copier_struct) (simp add: covers_def deep deep_statements)

lemma deep_BackupRecordList [deep]: "externals_ok x \<Longrightarrow> deep_copier (T_BackupRecordList x) (DeepCopyInto_BackupRecordList x)"
  unfolding T_BackupRecordList_def DeepCopyInto_BackupRecordList_def by (rule deep_copier_struct) (simp add: covers_def deep deep_statements)

text \<open>\<open>DeepCopyObject\<close>: a nil copy becomes a nil object.\<close>

definition as_object :: "copier \<Rightarrow> copier" where
  "as_object copy v m = (case copy v m of
      Some (Ref (Some c), m) \<Rightarrow> Some (Ref (Some c), m)
    | Some (_, m) \<Rightarrow> Some (Ref None, m)
    | None \<Rightarrow> None)"

definition DeepCopyObject_BackupTask :: "externals \<Rightarrow> copier" where
  "DeepCopyObject_BackupTask x = as_object (DeepCopy_BackupTask x)"

definition DeepCopyObject_BackupTaskList :: "externals \<Rightarrow> copier" where
  "DeepCopyObject_BackupTaskList x = as_object (DeepCopy_BackupTaskList x)"

definition DeepCopyObject_BackupRecord :: "externals \<Rightarrow> copier" where
  "DeepCopyObject_BackupRecord x = as_object (DeepCopy_BackupRecord x)"

definition DeepCopyObject_BackupRecordList :: "externals \<Rightarrow> copier" where
  "DeepCopyObject_BackupRecordList x = as_object (DeepCopy_BackupRecordList x)"

text \<open>All functions of the file with the types they copy, and the four kinds of objects.\<close>

definition generated :: "externals \<Rightarrow> (ty \<times> copier) list" where
  "generated x =
    [(T_KeepLastPolicy x, DeepCopyInto_KeepLastPolicy x), (T_RetentionPolicy x, DeepCopyInto_RetentionPolicy x),
     (T_DatabaseBackupSpec x, DeepCopyInto_DatabaseBackupSpec x),
     (T_ConfigBackupSpec x, DeepCopyInto_ConfigBackupSpec x), (T_DirectoryPath x, DeepCopyInto_DirectoryPath x),
     (T_DirectoryBackupSpec x, DeepCopyInto_DirectoryBackupSpec x),
     (T_NFSBackupSpec x, DeepCopyInto_NFSBackupSpec x), (T_BackupTarget x, DeepCopyInto_BackupTarget x),
     (T_S3StorageSpec x, DeepCopyInto_S3StorageSpec x), (T_SFTPStorageSpec x, DeepCopyInto_SFTPStorageSpec x),
     (T_NFSStorageSpec x, DeepCopyInto_NFSStorageSpec x), (T_SMBStorageSpec x, DeepCopyInto_SMBStorageSpec x),
     (T_RemoteStorageSpec x, DeepCopyInto_RemoteStorageSpec x), (T_EncryptionSpec x, DeepCopyInto_EncryptionSpec x),
     (T_PodTemplateSpec x, DeepCopyInto_PodTemplateSpec x), (T_ExecHook x, DeepCopyInto_ExecHook x),
     (T_HTTPHeader x, DeepCopyInto_HTTPHeader x), (T_HTTPHook x, DeepCopyInto_HTTPHook x),
     (T_HookSpec x, DeepCopyInto_HookSpec x), (T_BackupTaskSpec x, DeepCopyInto_BackupTaskSpec x),
     (T_BackupTaskCondition x, DeepCopyInto_BackupTaskCondition x),
     (T_BackupTaskStatus x, DeepCopyInto_BackupTaskStatus x), (T_BackupTask x, DeepCopyInto_BackupTask x),
     (T_BackupTaskList x, DeepCopyInto_BackupTaskList x), (T_BackupFileInfo x, DeepCopyInto_BackupFileInfo x),
     (T_BackupStatistics x, DeepCopyInto_BackupStatistics x),
     (T_BackupRecordSpec x, DeepCopyInto_BackupRecordSpec x),
     (T_VerificationStatus x, DeepCopyInto_VerificationStatus x),
     (T_BackupRecordStatus x, DeepCopyInto_BackupRecordStatus x), (T_BackupRecord x, DeepCopyInto_BackupRecord x),
     (T_BackupRecordList x, DeepCopyInto_BackupRecordList x)]"

definition objects :: "externals \<Rightarrow> (ty \<times> copier) list" where
  "objects x = [(T_BackupTask x, DeepCopyObject_BackupTask x), (T_BackupTaskList x, DeepCopyObject_BackupTaskList x),
     (T_BackupRecord x, DeepCopyObject_BackupRecord x), (T_BackupRecordList x, DeepCopyObject_BackupRecordList x)]"

lemma deep_copier_object: "deep_copier (TPtr t) c \<Longrightarrow> deep_copier (TPtr t) (as_object c)"
  unfolding deep_copier_def
proof (intro allI impI)
  fix m v
  assume c: "\<forall>m v. wf_memory m \<longrightarrow> typed (TPtr t) m v \<longrightarrow> (\<exists>v' m'. c v m = Some (v', m') \<and> deep_copy (TPtr t) m v m' v')"
    and "wf_memory m" "typed (TPtr t) m v"
  then obtain v' m' where v': "c v m = Some (v', m')" "deep_copy (TPtr t) m v m' v'" by blast
  then have "as_object c v m = Some (v', m')"
    by (auto simp: as_object_def deep_copy_def split: val.splits option.splits)
  with v'(2) show "\<exists>v' m'. as_object c v m = Some (v', m') \<and> deep_copy (TPtr t) m v m' v'" by blast
qed

lemma deep_objects:
  assumes "externals_ok x" and "(t, c) \<in> set (objects x)"
  shows "deep_copier (TPtr t) c"
  using assms deep [OF assms(1)]
  by (auto simp: objects_def DeepCopyObject_BackupTask_def DeepCopyObject_BackupTaskList_def DeepCopyObject_BackupRecord_def
      DeepCopyObject_BackupRecordList_def DeepCopy_BackupTask_def DeepCopy_BackupTaskList_def DeepCopy_BackupRecord_def
      DeepCopy_BackupRecordList_def intro!: deep_copier_object deep_copier_pointer)

text \<open>What holds two values apart that reach no common cell.\<close>

lemma copy_apart:
  assumes "deep_copier t c" and "wf_memory m" and "typed t m v"
  obtains v' m' where "c v m = Some (v', m')" and "deep_copy t m v m' v'"
    and "\<And>m''. \<forall>a. a \<notin> reached t m' v' \<longrightarrow> cells m'' a = cells m' a \<Longrightarrow> holds t m'' v = holds t m v"
    and "\<And>m''. \<forall>a. a \<notin> reached t m v \<longrightarrow> cells m'' a = cells m' a \<Longrightarrow> holds t m'' v' = holds t m v"
proof -
  obtain v' m' where v': "c v m = Some (v', m')" "deep_copy t m v m' v'"
    using deep_copierE [OF assms] by blast
  then have ext: "extends m m'" and new: "\<forall>a \<in> reached t m' v'. fresh m \<le> a" by (simp_all add: deep_copy_def)
  have old: "reached t m v \<subseteq> {..<fresh m}" by (rule reached_allocated [OF assms(3,2)])
  have apart: "a \<notin> reached t m' v'" if "a \<in> reached t m v" for a using that old new by fastforce
  have "holds t m'' v = holds t m v" if "\<forall>a. a \<notin> reached t m' v' \<longrightarrow> cells m'' a = cells m' a" for m''
  proof -
    have "\<forall>a \<in> reached t m v. cells m'' a = cells m a" using that apart old ext by (fastforce simp: extends_def)
    with frame [OF assms(3)] show ?thesis by blast
  qed
  moreover have "holds t m'' v' = holds t m v" if "\<forall>a. a \<notin> reached t m v \<longrightarrow> cells m'' a = cells m' a" for m''
  proof -
    have "typed t m' v'" "holds t m' v' = holds t m v" using v'(2) by (simp_all add: deep_copy_def)
    moreover have "\<forall>a \<in> reached t m' v'. cells m'' a = cells m' a" using that apart by blast
    ultimately show ?thesis using frame by metis
  qed
  ultimately show thesis using that v' by blast
qed

section \<open>An example\<close>

definition demo_externals :: externals where
  "demo_externals = \<lparr>x_TypeMeta = TStruct [(''Kind'', TScalar)], x_ObjectReference = TStruct [(''Name'', TScalar)],
     x_SecretReference = TStruct [(''Name'', TScalar)],
     x_ObjectMeta = (TStruct [(''Name'', TScalar), (''Labels'', TMap)], copy_struct [(''Labels'', copy_map)]),
     x_ListMeta = (TScalar, assign), x_Time = (TScalar, assign), x_LabelSelector = (TMap, copy_map),
     x_TypedLocalObjectReference = (TScalar, assign), x_PodSpec = (TSlice TScalar, copy_slice assign),
     x_ResourceRequirements = (TMap, copy_map)\<rparr>"

lemma demo_externals_ok: "externals_ok demo_externals"
  by (simp add: externals_ok_def demo_externals_def deep_statements)
    (rule deep_copier_struct, simp add: covers_def deep_statements)

text \<open>A record with labels in one cell, an expiration time in another, and a pointer to it.\<close>

definition demo_memory :: memory where
  "demo_memory = \<lparr>cells = [0 \<mapsto> Struct [(''TypeMeta'', Struct [(''Kind'', Scalar ''BackupRecord'')]),
        (''ObjectMeta'', Struct [(''Name'', Scalar ''r''), (''Labels'', Ref (Some 1))]),
        (''Spec'', Struct [(''BackupTaskRef'', Struct [(''Name'', Scalar ''t'')]), (''StartTime'', Scalar ''7''),
          (''CompletionTime'', Ref None), (''BackupFiles'', Ref None), (''Statistics'', Ref None), (''Labels'', Ref (Some 1))]),
        (''Status'', Struct [(''Phase'', Scalar ''Completed''), (''Error'', Scalar []),
          (''VerificationStatus'', Struct [(''VerifiedAt'', Ref None), (''Result'', Scalar []), (''Message'', Scalar [])]),
          (''ExpirationTime'', Ref (Some 2))])],
      1 \<mapsto> Entries [(''app'', ''x'')], 2 \<mapsto> Scalar ''9''], fresh = 3\<rparr>"

lemmas record_types = T_BackupRecord_def T_BackupRecordSpec_def T_BackupRecordStatus_def T_VerificationStatus_def T_BackupFileInfo_def
  T_BackupStatistics_def

lemma demo_memory_ok: "wf_memory demo_memory" "typed (TPtr (T_BackupRecord demo_externals)) demo_memory (Ref (Some 0))"
  by (simp_all add: wf_memory_def demo_memory_def record_types demo_externals_def field_def)

section \<open>Properties\<close>

text \<open>
  C22: every generated function copies deeply.  From well-typed memory it returns; its result has the
  type of the original and holds the same, whatever the pointers, slices and maps in it hold; it
  reaches only cells that were not in use before, and no cell in use has changed.
\<close>

theorem generated_copies_deep:
  assumes "externals_ok x"
  shows "list_all (\<lambda>(t, copy). deep_copier t copy) (generated x)"
  using deep [OF assms] by (simp add: generated_def)

theorem generated_copies_deep_witness: "list_all (\<lambda>(t, copy). deep_copier t copy) (generated demo_externals)"
  by (rule generated_copies_deep [OF demo_externals_ok])

text \<open>
  C21: a copied object and its original are independent.  \<open>DeepCopyObject\<close>, which the client calls on what it
  takes from its cache, returns for each of the four kinds an object of the same type that holds the
  same; whatever is then written through the copy leaves the original as it was, and the other way
  round.
\<close>

theorem copied_object_independent:
  assumes "externals_ok x" and "(t, copy) \<in> set (objects x)" and "wf_memory m" and "typed (TPtr t) m p"
  shows "\<exists>p' m'. copy p m = Some (p', m') \<and> typed (TPtr t) m' p' \<and> holds (TPtr t) m' p' = holds (TPtr t) m p
    \<and> (\<forall>m''. (\<forall>a. a \<notin> reached (TPtr t) m' p' \<longrightarrow> cells m'' a = cells m' a) \<longrightarrow> holds (TPtr t) m'' p = holds (TPtr t) m p)
    \<and> (\<forall>m''. (\<forall>a. a \<notin> reached (TPtr t) m p \<longrightarrow> cells m'' a = cells m' a) \<longrightarrow> holds (TPtr t) m'' p' = holds (TPtr t) m p)"
  by (rule copy_apart [OF deep_objects [OF assms(1,2)] assms(3,4)]) (auto simp: deep_copy_def)

theorem copied_object_independent_witness:
  "reached (TPtr (T_BackupRecord demo_externals)) demo_memory (Ref (Some 0)) = {0, 1, 2}
    \<and> (\<exists>p' m'. DeepCopyObject_BackupRecord demo_externals (Ref (Some 0)) demo_memory = Some (p', m')
        \<and> holds (TPtr (T_BackupRecord demo_externals)) m' p' = holds (TPtr (T_BackupRecord demo_externals)) demo_memory (Ref (Some 0)))"
proof
  show "reached (TPtr (T_BackupRecord demo_externals)) demo_memory (Ref (Some 0)) = {0, 1, 2}"
    by (simp add: demo_memory_def record_types demo_externals_def field_def) auto
  have "(T_BackupRecord demo_externals, DeepCopyObject_BackupRecord demo_externals) \<in> set (objects demo_externals)"
    by (simp add: objects_def)
  from copied_object_independent [OF demo_externals_ok this demo_memory_ok]
  show "\<exists>p' m'. DeepCopyObject_BackupRecord demo_externals (Ref (Some 0)) demo_memory = Some (p', m')
      \<and> holds (TPtr (T_BackupRecord demo_externals)) m' p' = holds (TPtr (T_BackupRecord demo_externals)) demo_memory (Ref (Some 0))"
    by blast
qed

end
