(* ===== verification/Command_Line.thy ===== *)
theory Command_Line
  imports Go_Prelude
begin

text \<open>
  The command line of the manager: the flags that \<open>main\<close> of \<open>cmd/main.go\<close> declares and \<open>flag.Parse\<close> of
  the Go library, which ends the program with code 2 on an error and with code 0 after printing
  the help.  The same flag set holds flags that other packages have declared (those of the logger
  and the path of the kubeconfig); they are a parameter.  The lemmas give the result for every
  printed command line.
\<close>

section \<open>The flags\<close>

record flags =
  fl_metricsAddr :: string
  fl_probeAddr :: string
  fl_enableLeaderElection :: bool
  fl_secureMetrics :: bool
  fl_webhookCertPath :: string
  fl_webhookCertName :: string
  fl_webhookCertKey :: string
  fl_metricsCertPath :: string
  fl_metricsCertName :: string
  fl_metricsCertKey :: string
  fl_enableHTTP2 :: bool

definition default_flags :: flags where
  "default_flags = \<lparr>fl_metricsAddr = ''0'', fl_probeAddr = '':8081'', fl_enableLeaderElection = False,
     fl_secureMetrics = True, fl_webhookCertPath = [], fl_webhookCertName = ''tls.crt'', fl_webhookCertKey = ''tls.key'',
     fl_metricsCertPath = [], fl_metricsCertName = ''tls.crt'', fl_metricsCertKey = ''tls.key'', fl_enableHTTP2 = False\<rparr>"

text \<open>
  What \<open>Parse\<close> knows of a flag: whether it is boolean and what setting it does.  A flag of another package
  is boolean or not, and accepts or refuses a text.
\<close>

datatype flag =
    StringFlag "string \<Rightarrow> flags \<Rightarrow> flags"
  | BoolFlag "bool \<Rightarrow> flags \<Rightarrow> flags"
  | OtherFlag bool "string \<Rightarrow> bool"

definition declared_flags :: "(string \<times> flag) list" where
  "declared_flags =
     [(''metrics-bind-address'', StringFlag (\<lambda>v f. f\<lparr>fl_metricsAddr := v\<rparr>)),
      (''health-probe-bind-address'', StringFlag (\<lambda>v f. f\<lparr>fl_probeAddr := v\<rparr>)),
      (''leader-elect'', BoolFlag (\<lambda>v f. f\<lparr>fl_enableLeaderElection := v\<rparr>)),
      (''metrics-secure'', BoolFlag (\<lambda>v f. f\<lparr>fl_secureMetrics := v\<rparr>)),
      (''webhook-cert-path'', StringFlag (\<lambda>v f. f\<lparr>fl_webhookCertPath := v\<rparr>)),
      (''webhook-cert-name'', StringFlag (\<lambda>v f. f\<lparr>fl_webhookCertName := v\<rparr>)),
      (''webhook-cert-key'', StringFlag (\<lambda>v f. f\<lparr>fl_webhookCertKey := v\<rparr>)),
      (''metrics-cert-path'', StringFlag (\<lambda>v f. f\<lparr>fl_metricsCertPath := v\<rparr>)),
      (''metrics-cert-name'', StringFlag (\<lambda>v f. f\<lparr>fl_metricsCertName := v\<rparr>)),
      (''metrics-cert-key'', StringFlag (\<lambda>v f. f\<lparr>fl_metricsCertKey := v\<rparr>)),
      (''enable-http2'', BoolFlag (\<lambda>v f. f\<lparr>fl_enableHTTP2 := v\<rparr>))]"

type_synonym other_flags = "string \<Rightarrow> (bool \<times> (string \<Rightarrow> bool)) option"

definition formal_flag :: "other_flags \<Rightarrow> string \<Rightarrow> flag option" where
  "formal_flag others name =
     (case map_of declared_flags name of
        Some f \<Rightarrow> Some f
      | None \<Rightarrow> map_option (\<lambda>(b, accepts). OtherFlag b accepts) (others name))"

section \<open>\<open>flag.Parse\<close>\<close>

definition ParseBool :: "string \<Rightarrow> bool option" where
  "ParseBool s =
     (if s \<in> set [''1'', ''t'', ''T'', ''true'', ''TRUE'', ''True''] then Some True
      else if s \<in> set [''0'', ''f'', ''F'', ''false'', ''FALSE'', ''False''] then Some False
      else None)"

text \<open>An argument: the name of a flag with the text after \<open>=\<close> if there is one, or the end of the flags, or an error.\<close>

datatype argument = NoFlag | BadSyntax | Flag string "string option"

definition flag_name :: "string \<Rightarrow> argument" where
  "flag_name name =
     (if name = [] \<or> hd name = CHR ''-'' \<or> hd name = CHR ''='' then BadSyntax
      else (case dropWhile (\<lambda>c. c \<noteq> CHR ''='') name of
          [] \<Rightarrow> Flag name None
        | _ # value \<Rightarrow> Flag (takeWhile (\<lambda>c. c \<noteq> CHR ''='') name) (Some value)))"

definition argument :: "string \<Rightarrow> argument" where
  "argument s =
     (if length s < 2 \<or> hd s \<noteq> CHR ''-'' then NoFlag
      else if s ! 1 = CHR ''-'' then (if length s = 2 then NoFlag else flag_name (drop 2 s))
      else flag_name (drop 1 s))"

text \<open>\<open>Value.Set\<close>; \<open>None\<close> is an error.\<close>

fun set_flag :: "flag \<Rightarrow> string \<Rightarrow> flags \<Rightarrow> flags option" where
  "set_flag (StringFlag f) v fl = Some (f v fl)"
| "set_flag (BoolFlag f) v fl = map_option (\<lambda>b. f b fl) (ParseBool v)"
| "set_flag (OtherFlag b accepts) v fl = (if accepts v then Some fl else None)"

fun is_bool_flag :: "flag \<Rightarrow> bool" where
  "is_bool_flag (StringFlag f) = False"
| "is_bool_flag (BoolFlag f) = True"
| "is_bool_flag (OtherFlag b accepts) = b"

text \<open>The flags, or the code the program ends with.\<close>

fun parse_flags :: "other_flags \<Rightarrow> string list \<Rightarrow> flags \<Rightarrow> int + flags" where
  "parse_flags others [] fl = Inr fl"
| "parse_flags others (s # args) fl =
     (case argument s of
        NoFlag \<Rightarrow> Inr fl
      | BadSyntax \<Rightarrow> Inl 2
      | Flag name value \<Rightarrow>
          (case formal_flag others name of
             None \<Rightarrow> if name = ''help'' \<or> name = ''h'' then Inl 0 else Inl 2
           | Some flag \<Rightarrow>
               if is_bool_flag flag then
                 (case set_flag flag (case value of Some v \<Rightarrow> v | None \<Rightarrow> ''true'') fl of
                    None \<Rightarrow> Inl 2
                  | Some fl \<Rightarrow> parse_flags others args fl)
               else
                 (case (value, args) of
                    (Some v, _) \<Rightarrow> (case set_flag flag v fl of None \<Rightarrow> Inl 2 | Some fl \<Rightarrow> parse_flags others args fl)
                  | (None, v # args') \<Rightarrow> (case set_flag flag v fl of None \<Rightarrow> Inl 2 | Some fl \<Rightarrow> parse_flags others args' fl)
                  | (None, []) \<Rightarrow> Inl 2)))"

declare parse_flags.simps(2) [simp del]

definition Parse :: "other_flags \<Rightarrow> string list \<Rightarrow> int + flags" where
  "Parse others args = parse_flags others args default_flags"

section \<open>Printed flags\<close>

definition print_bool :: "bool \<Rightarrow> string" where
  "print_bool b = (if b then ''true'' else ''false'')"

definition print_flag :: "string \<Rightarrow> string \<Rightarrow> string" where
  "print_flag name value = ''--'' @ name @ ''='' @ value"

definition print_flags :: "flags \<Rightarrow> string list" where
  "print_flags f =
     [print_flag ''metrics-bind-address'' (fl_metricsAddr f),
      print_flag ''health-probe-bind-address'' (fl_probeAddr f),
      print_flag ''leader-elect'' (print_bool (fl_enableLeaderElection f)),
      print_flag ''metrics-secure'' (print_bool (fl_secureMetrics f)),
      print_flag ''webhook-cert-path'' (fl_webhookCertPath f),
      print_flag ''webhook-cert-name'' (fl_webhookCertName f),
      print_flag ''webhook-cert-key'' (fl_webhookCertKey f),
      print_flag ''metrics-cert-path'' (fl_metricsCertPath f),
      print_flag ''metrics-cert-name'' (fl_metricsCertName f),
      print_flag ''metrics-cert-key'' (fl_metricsCertKey f),
      print_flag ''enable-http2'' (print_bool (fl_enableHTTP2 f))]"

lemma ParseBool_print [simp]: "ParseBool (print_bool b) = Some b"
  by (simp add: ParseBool_def print_bool_def)

text \<open>The name of a flag that \<open>Parse\<close> can read back.\<close>

definition flag_word :: "string \<Rightarrow> bool" where
  "flag_word name \<longleftrightarrow> name \<noteq> [] \<and> hd name \<noteq> CHR ''-'' \<and> CHR ''='' \<notin> set name"

lemma argument_print: "flag_word name \<Longrightarrow> argument (print_flag name v) = Flag name (Some v)"
proof -
  assume n: "flag_word name"
  then have "hd name \<noteq> CHR ''=''" unfolding flag_word_def using list.set_sel(1) by force
  moreover have "takeWhile (\<lambda>c. c \<noteq> CHR ''='') (name @ CHR ''='' # v) = name"
    "dropWhile (\<lambda>c. c \<noteq> CHR ''='') (name @ CHR ''='' # v) = CHR ''='' # v"
    using n unfolding flag_word_def by (subst takeWhile_append2 dropWhile_append2; auto)+
  ultimately show ?thesis
    using n by (simp add: argument_def print_flag_def flag_name_def flag_word_def)
qed

lemma parse_flags_print:
  assumes "flag_word name" and "formal_flag others name = Some flag" and "set_flag flag v fl = Some fl'"
  shows "parse_flags others (print_flag name v # args) fl = parse_flags others args fl'"
  using assms by (simp add: parse_flags.simps(2) argument_print)

section \<open>Which arguments matter\<close>

definition keeps_http2 :: "flag \<Rightarrow> bool" where
  "keeps_http2 flag \<longleftrightarrow> (\<forall>v fl fl'. set_flag flag v fl = Some fl' \<longrightarrow> fl_enableHTTP2 fl' = fl_enableHTTP2 fl)"

lemma keeps_http2_intros:
  "(\<And>v fl. fl_enableHTTP2 (f v fl) = fl_enableHTTP2 fl) \<Longrightarrow> keeps_http2 (StringFlag f)"
  "(\<And>v fl. fl_enableHTTP2 (g v fl) = fl_enableHTTP2 fl) \<Longrightarrow> keeps_http2 (BoolFlag g)"
  "keeps_http2 (OtherFlag b accepts)"
  by (auto simp: keeps_http2_def split: if_splits)

lemma declared_keep_http2: "list_all (\<lambda>(name, flag). name = ''enable-http2'' \<or> keeps_http2 flag) declared_flags"
  unfolding declared_flags_def by (simp add: keeps_http2_intros)

lemma set_flag_http2:
  assumes "formal_flag others name = Some flag" and "set_flag flag v fl = Some fl'" and "name \<noteq> ''enable-http2''"
  shows "fl_enableHTTP2 fl' = fl_enableHTTP2 fl"
proof -
  have "keeps_http2 flag"
  proof (cases "map_of declared_flags name")
    case None
    with assms(1) show ?thesis by (auto simp: formal_flag_def intro: keeps_http2_intros)
  next
    case (Some f)
    then have "(name, flag) \<in> set declared_flags"
      using assms(1) by (auto simp: formal_flag_def dest: map_of_SomeD)
    with declared_keep_http2 assms(3) show ?thesis by (auto simp: list_all_iff)
  qed
  with assms(2) show ?thesis by (simp add: keeps_http2_def)
qed

lemma parse_flags_step:
  assumes "parse_flags others (s # args) fl = Inr fl''"
  obtains "fl'' = fl"
  | name val flag v fl' args' where "argument s = Flag name val" "formal_flag others name = Some flag"
      "set_flag flag v fl = Some fl'" "set args' \<subseteq> set args" "length args' < length (s # args)"
      "parse_flags others args' fl' = Inr fl''"
proof (cases "argument s")
  case (Flag name val)
  with assms obtain flag where f: "formal_flag others name = Some flag"
    by (auto simp: parse_flags.simps(2) split: option.splits if_splits)
  show ?thesis
  proof (cases "is_bool_flag flag")
    case True
    with assms Flag f show ?thesis
      by (auto simp: parse_flags.simps(2) split: option.splits intro: that(2) [of name val flag _ _ args])
  next
    case False
    with assms Flag f show ?thesis
      by (auto simp: parse_flags.simps(2) split: option.splits list.splits intro: that(2) [of name val flag])
  qed
qed (use assms that in \<open>auto simp: parse_flags.simps(2)\<close>)

lemma parse_flags_http2:
  "parse_flags others args fl = Inr fl' \<Longrightarrow> fl_enableHTTP2 fl' \<Longrightarrow> \<not> fl_enableHTTP2 fl \<Longrightarrow>
    \<exists>s \<in> set args. \<exists>v. argument s = Flag ''enable-http2'' v"
proof (induction args arbitrary: fl rule: length_induct)
  case (1 args)
  then show ?case
  proof (cases args)
    case (Cons s args0)
    from 1(2) [unfolded Cons] show ?thesis
    proof (cases rule: parse_flags_step)
      case 1
      with \<open>fl_enableHTTP2 fl'\<close> \<open>\<not> fl_enableHTTP2 fl\<close> show ?thesis by simp
    next
      case (2 name val flag v fl1 args')
      show ?thesis
      proof (cases "name = ''enable-http2''")
        case True
        with 2 Cons show ?thesis by auto
      next
        case False
        with 2 have "\<not> fl_enableHTTP2 fl1" using set_flag_http2 \<open>\<not> fl_enableHTTP2 fl\<close> by blast
        with 1(1) 1(3) 2 Cons have "\<exists>s \<in> set args'. \<exists>v. argument s = Flag ''enable-http2'' v" by blast
        with 2 Cons show ?thesis by auto
      qed
    qed
  qed simp
qed

section \<open>Properties\<close>

text \<open>
  Every setting of the flags can be given on the command line: parsing the printed flags yields
  them again, whatever texts they hold, whatever flags other packages declare and whatever the
  defaults are.
\<close>

theorem flags_roundtrip: "parse_flags others (print_flags f) g = Inr f"
  unfolding print_flags_def
  by (subst parse_flags_print, (simp add: flag_word_def formal_flag_def declared_flags_def; fail)+)+

end
