(* ===== verification/Start_Up.thy ===== *)
theory Start_Up
  imports Command_Line K8s_Types
begin

text \<open>
  The start-up of the manager: \<open>init\<close> and \<open>main\<close> of \<open>cmd/main.go\<close> with the functions that register
  the controllers and the webhook, and the registration of the types of the API
  (\<open>api/v1alpha1\<close>).  Each call of the framework is an event with the error it returns; the command line,
  the environment and the answers of the framework are the machine the program runs on.
\<close>

section \<open>Options of the servers and of the manager\<close>

text \<open>A \<open>tls.Config\<close>, of which \<open>main\<close> sets one field; a TLS option changes it.\<close>

record tls_config =
  tls_NextProtos :: "string list"
  tls_rest :: string

type_synonym tls_option = "tls_config \<Rightarrow> tls_config"

record webhook_options =
  wo_TLSOpts :: "tls_option list"
  wo_CertDir :: string
  wo_CertName :: string
  wo_KeyName :: string

record metrics_options =
  mo_BindAddress :: string
  mo_SecureServing :: bool
  mo_FilterProvider :: "string option"
  mo_TLSOpts :: "tls_option list"
  mo_CertDir :: string
  mo_CertName :: string
  mo_KeyName :: string

record manager_options =
  mgr_Metrics :: metrics_options
  mgr_WebhookServer :: webhook_options
  mgr_HealthProbeBindAddress :: string
  mgr_LeaderElection :: bool
  mgr_LeaderElectionID :: string

definition disableHTTP2 :: tls_option where
  "disableHTTP2 c = c\<lparr>tls_NextProtos := [''http/1.1'']\<rparr>"

definition tlsOpts :: "flags \<Rightarrow> tls_option list" where
  "tlsOpts f = (if \<not> fl_enableHTTP2 f then [] @ [disableHTTP2] else [])"

definition webhookServerOptions :: "flags \<Rightarrow> webhook_options" where
  "webhookServerOptions f =
     (let opts = \<lparr>wo_TLSOpts = tlsOpts f, wo_CertDir = [], wo_CertName = [], wo_KeyName = []\<rparr>
      in if length (fl_webhookCertPath f) > 0
         then opts\<lparr>wo_CertDir := fl_webhookCertPath f, wo_CertName := fl_webhookCertName f, wo_KeyName := fl_webhookCertKey f\<rparr>
         else opts)"

definition metricsServerOptions :: "flags \<Rightarrow> metrics_options" where
  "metricsServerOptions f =
     (let opts = \<lparr>mo_BindAddress = fl_metricsAddr f, mo_SecureServing = fl_secureMetrics f, mo_FilterProvider = None,
            mo_TLSOpts = tlsOpts f, mo_CertDir = [], mo_CertName = [], mo_KeyName = []\<rparr>;
          opts = (if fl_secureMetrics f then opts\<lparr>mo_FilterProvider := Some ''WithAuthenticationAndAuthorization''\<rparr> else opts)
      in if length (fl_metricsCertPath f) > 0
         then opts\<lparr>mo_CertDir := fl_metricsCertPath f, mo_CertName := fl_metricsCertName f, mo_KeyName := fl_metricsCertKey f\<rparr>
         else opts)"

definition managerOptions :: "flags \<Rightarrow> manager_options" where
  "managerOptions f =
     \<lparr>mgr_Metrics = metricsServerOptions f, mgr_WebhookServer = webhookServerOptions f,
      mgr_HealthProbeBindAddress = fl_probeAddr f, mgr_LeaderElection = fl_enableLeaderElection f,
      mgr_LeaderElectionID = ''a6ca9057.mybackup.com''\<rparr>"

section \<open>Calls of the framework\<close>

text \<open>A controller: the kind it is for, the kinds it owns, its name if it is given one, and whether its reconciler has a recorder.\<close>

record controller =
  ctl_For :: string
  ctl_Owns :: "string list"
  ctl_Named :: "string option"
  ctl_Recorder :: bool

record webhook =
  wh_For :: string
  wh_Validator :: "string option"
  wh_Defaulter :: "string option"

datatype boot_call =
    AddToScheme string "string list"
  | GetConfigOrDie
  | NewManager manager_options
  | SetupController controller
  | SetupWebhook webhook
  | AddHealthzCheck string
  | AddReadyzCheck string
  | StartManager

type_synonym boot_log = "(boot_call \<times> goerror option) list"

text \<open>The machine: the answer to a call after those before it, the environment, and the flags other packages declare.\<close>

record machine =
  m_answer :: "boot_log \<Rightarrow> boot_call \<Rightarrow> goerror option"
  m_Getenv :: "string \<Rightarrow> string"
  m_others :: other_flags

datatype exit = Returned | Exit int | Panicked

type_synonym program = "machine \<Rightarrow> boot_log \<Rightarrow> exit \<times> boot_log"

text \<open>\<open>if err := call; err != nil { failed }\<close>, then the rest.\<close>

definition boot :: "boot_call \<Rightarrow> exit \<Rightarrow> program \<Rightarrow> program" where
  "boot c failed rest m h =
     (case m_answer m h c of
        Some err \<Rightarrow> (failed, h @ [(c, Some err)])
      | None \<Rightarrow> rest m (h @ [(c, None)]))"

section \<open>Registration of types, controllers and the webhook\<close>

definition SchemeBuilder :: "string list" where
  "SchemeBuilder = [''BackupTask'', ''BackupTaskList''] @ [''BackupRecord'', ''BackupRecordList'']"

definition GroupVersion :: string where
  "GroupVersion = ''backup.mybackup.com/v1alpha1''"

definition init :: "program \<Rightarrow> program" where
  "init rest =
     boot (AddToScheme ''client-go'' []) Panicked (
     boot (AddToScheme GroupVersion SchemeBuilder) Panicked
     rest)"

definition BackupTask_SetupWithManager :: "bool \<Rightarrow> boot_call" where
  "BackupTask_SetupWithManager recorder = SetupController
     \<lparr>ctl_For = ''BackupTask'', ctl_Owns = [''CronJob'', ''Job'', ''Pod''], ctl_Named = None, ctl_Recorder = recorder\<rparr>"

definition BackupRecord_SetupWithManager :: boot_call where
  "BackupRecord_SetupWithManager = SetupController
     \<lparr>ctl_For = ''BackupRecord'', ctl_Owns = [], ctl_Named = Some ''backuprecord'', ctl_Recorder = False\<rparr>"

definition SetupBackupTaskWebhookWithManager :: boot_call where
  "SetupBackupTaskWebhookWithManager = SetupWebhook
     \<lparr>wh_For = ''BackupTask'', wh_Validator = Some ''BackupTaskCustomValidator'', wh_Defaulter = Some ''BackupTaskCustomDefaulter''\<rparr>"

text \<open>The registrations that the older package and \<open>api/v1alpha1\<close> offer, which nothing calls.\<close>

definition legacy_BackupTask_SetupWithManager :: "bool \<Rightarrow> boot_call" where
  "legacy_BackupTask_SetupWithManager recorder = SetupController
     \<lparr>ctl_For = ''BackupTask'', ctl_Owns = [''CronJob'', ''Job'', ''Pod''], ctl_Named = None, ctl_Recorder = recorder\<rparr>"

definition legacy_BackupRecord_SetupWithManager :: boot_call where
  "legacy_BackupRecord_SetupWithManager = SetupController
     \<lparr>ctl_For = ''BackupRecord'', ctl_Owns = [], ctl_Named = None, ctl_Recorder = False\<rparr>"

definition BackupTask_SetupWebhookWithManager :: boot_call where
  "BackupTask_SetupWebhookWithManager = SetupWebhook \<lparr>wh_For = ''BackupTask'', wh_Validator = None, wh_Defaulter = None\<rparr>"

section \<open>\<open>main\<close>\<close>

definition start_manager :: program where
  "start_manager =
     boot (AddHealthzCheck ''healthz'') (Exit 1) (
     boot (AddReadyzCheck ''readyz'') (Exit 1) (
     boot StartManager (Exit 1)
     (\<lambda>m h. (Returned, h))))"

text \<open>The task reconciler is built from the client and the scheme, without a recorder.\<close>

definition run_manager :: "flags \<Rightarrow> program" where
  "run_manager f =
     boot GetConfigOrDie (Exit 1) (
     boot (NewManager (managerOptions f)) (Exit 1) (
     boot (BackupTask_SetupWithManager False) (Exit 1) (
     boot BackupRecord_SetupWithManager (Exit 1) (
     \<lambda>m. if m_Getenv m ''ENABLE_WEBHOOKS'' \<noteq> ''false''
         then boot SetupBackupTaskWebhookWithManager (Exit 1) start_manager m
         else start_manager m))))"

definition main :: "string list \<Rightarrow> program" where
  "main args m = (case Parse (m_others m) args of
     Inl code \<Rightarrow> (\<lambda>h. (Exit code, h))
   | Inr f \<Rightarrow> run_manager f m)"

definition operator :: "machine \<Rightarrow> string list \<Rightarrow> exit \<times> boot_log" where
  "operator m args = init (main args) m []"

section \<open>What is called, in which order\<close>

definition webhooks_enabled :: "machine \<Rightarrow> bool" where
  "webhooks_enabled m \<longleftrightarrow> m_Getenv m ''ENABLE_WEBHOOKS'' \<noteq> ''false''"

definition planned :: "machine \<Rightarrow> flags \<Rightarrow> boot_call list" where
  "planned m f =
     [GetConfigOrDie, NewManager (managerOptions f), BackupTask_SetupWithManager False, BackupRecord_SetupWithManager]
     @ (if webhooks_enabled m then [SetupBackupTaskWebhookWithManager] else [])
     @ [AddHealthzCheck ''healthz'', AddReadyzCheck ''readyz'', StartManager]"

definition scheme_calls :: "boot_call list" where
  "scheme_calls = [AddToScheme ''client-go'' [], AddToScheme GroupVersion SchemeBuilder]"

text \<open>The calls \<open>cs\<close> in order, up to the first error, which ends the program with \<open>failed\<close>.\<close>

fun boots :: "boot_call list \<Rightarrow> exit \<Rightarrow> program \<Rightarrow> program" where
  "boots [] failed rest = rest"
| "boots (c # cs) failed rest = boot c failed (boots cs failed rest)"

lemma boots_append: "boots (cs @ ds) failed rest = boots cs failed (boots ds failed rest)"
  by (induction cs) simp_all

lemma boot_cong: "(\<And>h. rest m h = rest' m h) \<Longrightarrow> boot c failed rest m h = boot c failed rest' m h"
  by (simp add: boot_def split: option.split)

lemma run_manager_boots: "run_manager f m h = boots (planned m f) (Exit 1) (\<lambda>m h. (Returned, h)) m h"
  unfolding run_manager_def planned_def start_manager_def
  by (cases "webhooks_enabled m") (simp_all add: webhooks_enabled_def boot_def split: option.split)

text \<open>Every call was answered without an error.\<close>

definition smooth :: "boot_log \<Rightarrow> bool" where
  "smooth h \<longleftrightarrow> list_all (\<lambda>(c, a). a = None) h"

lemma smooth_simps [simp]: "smooth []" "smooth (h @ h') \<longleftrightarrow> smooth h \<and> smooth h'" "smooth ((c, a) # h) \<longleftrightarrow> a = None \<and> smooth h"
  by (auto simp: smooth_def)

text \<open>The log of a run of \<open>boots\<close>: all calls without an error, or some and one with an error.\<close>

lemma boots_cases:
  obtains (through) l where "boots cs failed rest m h = rest m (h @ l)" "smooth l" "map fst l = cs"
  | (stopped) l c e ds where "boots cs failed rest m h = (failed, h @ l @ [(c, Some e)])" "smooth l" "map fst l @ c # ds = cs"
proof (induction cs arbitrary: h thesis)
  case Nil
  then show ?case by (metis append_Nil2 boots.simps(1) list.map(1) smooth_simps(1))
next
  case (Cons c cs)
  show ?case
  proof (cases "m_answer m h c")
    case (Some e)
    then show ?thesis
      by (intro Cons.prems(2) [of "[]" c e cs]) (simp_all add: boot_def)
  next
    case None
    then have step: "boots (c # cs) failed rest m h = boots cs failed rest m (h @ [(c, None)])"
      by (simp add: boot_def)
    show ?thesis
    proof (rule Cons.IH [of "h @ [(c, None)]"], goal_cases)
      case (1 l)
      then show ?thesis using step by (intro Cons.prems(1) [of "(c, None) # l"]) simp_all
    next
      case (2 l d e ds)
      then show ?thesis using step by (intro Cons.prems(2) [of "(c, None) # l" d e ds]) simp_all
    qed
  qed
qed

text \<open>The calls of a whole run, and the exit when all of them succeed.\<close>

definition all_calls :: "machine \<Rightarrow> string list \<Rightarrow> boot_call list" where
  "all_calls m args = scheme_calls @ (case Parse (m_others m) args of Inl code \<Rightarrow> [] | Inr f \<Rightarrow> planned m f)"

definition good_exit :: "machine \<Rightarrow> string list \<Rightarrow> exit" where
  "good_exit m args = (case Parse (m_others m) args of Inl code \<Rightarrow> Exit code | Inr f \<Rightarrow> Returned)"

lemma init_boots: "init rest = boots scheme_calls Panicked rest"
  by (simp add: init_def scheme_calls_def)

lemma main_boots: "main args m h = boots (case Parse (m_others m) args of Inl code \<Rightarrow> [] | Inr f \<Rightarrow> planned m f) (Exit 1)
    (\<lambda>_ h. (good_exit m args, h)) m h"
proof (cases "Parse (m_others m) args")
  case (Inr f)
  have "boots cs failed (\<lambda>_ h. (Returned, h)) m h = boots cs failed (\<lambda>_ h. (good_exit m args, h)) m h" for cs failed h
    using Inr by (induction cs arbitrary: h) (auto simp: good_exit_def intro: boot_cong)
  with Inr show ?thesis by (simp add: main_def run_manager_boots)
qed (simp add: main_def good_exit_def)

lemma planned_not_scheme: "c \<in> set (planned m f) \<Longrightarrow> c \<notin> set scheme_calls"
  by (auto simp: planned_def scheme_calls_def BackupTask_SetupWithManager_def BackupRecord_SetupWithManager_def
      SetupBackupTaskWebhookWithManager_def split: if_splits)

text \<open>How a run ends.\<close>

lemma operator_cases:
  obtains (through) h where "operator m args = (good_exit m args, h)" "smooth h" "map fst h = all_calls m args"
  | (stopped) l c e ds where "operator m args = (if c \<in> set scheme_calls then Panicked else Exit 1, l @ [(c, Some e)])"
      "smooth l" "map fst l @ c # ds = all_calls m args"
proof (cases rule: boots_cases [of scheme_calls Panicked "main args" m "[]"])
  case (through l)
  note l = through
  let ?cs = "case Parse (m_others m) args of Inl code \<Rightarrow> [] | Inr f \<Rightarrow> planned m f"
  from l have op: "operator m args = boots ?cs (Exit 1) (\<lambda>_ h. (good_exit m args, h)) m l"
    by (simp add: operator_def init_boots main_boots)
  show thesis
  proof (cases rule: boots_cases [of ?cs "Exit 1" "\<lambda>_ h. (good_exit m args, h)" m l])
    case (through l')
    show thesis
      by (rule that(1) [of "l @ l'"]) (use l through op in \<open>simp_all add: all_calls_def\<close>)
  next
    case (stopped l' c e ds)
    then have "c \<in> set ?cs" by (metis in_set_conv_decomp)
    then have c: "c \<notin> set scheme_calls" using planned_not_scheme by (auto split: sum.splits)
    show thesis
      by (rule that(2) [of c "l @ l'" e ds]) (use l stopped op c in \<open>simp_all add: all_calls_def\<close>)
  qed
next
  case (stopped l c e ds)
  then have "c \<in> set scheme_calls" by (metis in_set_conv_decomp)
  moreover have "map fst l @ c # (ds @ (case Parse (m_others m) args of Inl code \<Rightarrow> [] | Inr f \<Rightarrow> planned m f)) = all_calls m args"
    by (simp add: all_calls_def stopped(3) [symmetric])
  ultimately show thesis
    using stopped by (intro that(2)) (simp_all add: operator_def init_boots)
qed

text \<open>What a run calls is planned.\<close>

lemma called_planned:
  assumes "(c, a) \<in> set (snd (operator m args))" and "c \<notin> set scheme_calls"
  obtains f where "Parse (m_others m) args = Inr f" and "c \<in> set (planned m f)"
proof -
  have "c \<in> set (all_calls m args)"
  proof (cases rule: operator_cases [of m args])
    case (through h)
    with assms(1) have "(c, a) \<in> set h" by simp
    then have "c \<in> set (map fst h)" unfolding set_map by (rule image_eqI [rotated]) simp
    with through show ?thesis by simp
  next
    case (stopped l d e ds)
    with assms(1) have "(c, a) \<in> set (l @ [(d, Some e)])" by simp
    then have "c \<in> set (map fst (l @ [(d, Some e)]))" unfolding set_map by (rule image_eqI [rotated]) simp
    then have "c \<in> set (map fst l @ d # ds)" by auto
    with stopped show ?thesis by simp
  qed
  with assms(2) have "c \<in> set (case Parse (m_others m) args of Inl code \<Rightarrow> [] | Inr f \<Rightarrow> planned m f)"
    by (simp add: all_calls_def)
  with that show thesis by (cases "Parse (m_others m) args") auto
qed

text \<open>The configuration that all TLS options of a server give.\<close>

definition apply_options :: "tls_option list \<Rightarrow> tls_config \<Rightarrow> tls_config" where
  "apply_options opts c = foldl (\<lambda>c f. f c) c opts"

lemma planned_manager: "NewManager opts \<in> set (planned m f) \<Longrightarrow> opts = managerOptions f"
  by (auto simp: planned_def BackupTask_SetupWithManager_def BackupRecord_SetupWithManager_def
      SetupBackupTaskWebhookWithManager_def split: if_splits)

lemma planned_webhook: "SetupWebhook wh \<in> set (planned m f) \<Longrightarrow> webhooks_enabled m"
  by (auto simp: planned_def BackupTask_SetupWithManager_def BackupRecord_SetupWithManager_def split: if_splits)

lemma manager_tls: "wo_TLSOpts (mgr_WebhookServer (managerOptions f)) = tlsOpts f" "mo_TLSOpts (mgr_Metrics (managerOptions f)) = tlsOpts f"
  by (simp_all add: managerOptions_def webhookServerOptions_def metricsServerOptions_def Let_def)

text \<open>
  The controller that works on backup records and the webhook whose kind validates itself are never
  registered: what is registered for these kinds has a name or a validator of its own.
\<close>

lemma older_parts_never_started:
  "(legacy_BackupRecord_SetupWithManager, a) \<notin> set (snd (operator m args))"
  "(BackupTask_SetupWebhookWithManager, a) \<notin> set (snd (operator m args))"
proof -
  have "legacy_BackupRecord_SetupWithManager \<notin> set (planned m f)" "BackupTask_SetupWebhookWithManager \<notin> set (planned m f)" for f
    by (simp_all add: planned_def BackupTask_SetupWithManager_def BackupRecord_SetupWithManager_def SetupBackupTaskWebhookWithManager_def
        legacy_BackupRecord_SetupWithManager_def BackupTask_SetupWebhookWithManager_def)
  moreover have "legacy_BackupRecord_SetupWithManager \<notin> set scheme_calls" "BackupTask_SetupWebhookWithManager \<notin> set scheme_calls"
    by (simp_all add: scheme_calls_def legacy_BackupRecord_SetupWithManager_def BackupTask_SetupWebhookWithManager_def)
  ultimately show "(legacy_BackupRecord_SetupWithManager, a) \<notin> set (snd (operator m args))"
    "(BackupTask_SetupWebhookWithManager, a) \<notin> set (snd (operator m args))"
    using called_planned by metis+
qed

section \<open>The deployment\<close>

text \<open>The arguments of \<open>config/manager/manager.yaml\<close> after the patches of \<open>config/default\<close>.\<close>

definition deployed_args :: "string list" where
  "deployed_args = [''--metrics-bind-address=:8443'', ''--leader-elect'', ''--health-probe-bind-address=:8081'',
     ''--webhook-cert-path=/tmp/k8s-webhook-server/serving-certs'']"

text \<open>A machine on which nothing fails, with the environment of the deployment.\<close>

definition quiet_machine :: machine where
  "quiet_machine = \<lparr>m_answer = (\<lambda>h c. None), m_Getenv = (\<lambda>v. if v = ''ENABLE_WEBHOOKS'' then ''false'' else []),
     m_others = (\<lambda>name. None)\<rparr>"

lemma quiet_answers: "m_answer quiet_machine h c = None" "m_Getenv quiet_machine ''ENABLE_WEBHOOKS'' = ''false''"
  by (simp_all add: quiet_machine_def)

section \<open>Properties\<close>

text \<open>
  C23: the start-up makes its calls in one order, with the webhook exactly if the environment does not
  turn it off: the types are registered, the manager is built, both controllers are registered, then
  the webhook, the two health checks, and last the manager is started.  The first error ends the program
  after the call that failed: with a panic while the types are registered, else with code 1.
  Without an error it ends when the manager does, or with the code of a bad command line.
\<close>

theorem operator_start_up:
  "case operator m args of (r, h) \<Rightarrow>
     (smooth h \<and> map fst h = all_calls m args \<and> r = good_exit m args)
     \<or> (\<exists>l c e ds. h = l @ [(c, Some e)] \<and> smooth l \<and> map fst l @ c # ds = all_calls m args
          \<and> r = (if c \<in> set scheme_calls then Panicked else Exit 1))"
  by (cases rule: operator_cases [of m args]; fastforce)

text \<open>
  C27: neither server speaks HTTP/2 unless the command line asks for it: a manager that is built
  without an argument for the flag \<open>enable-http2\<close> offers HTTP/1.1 alone, on the server of the webhook and on that
  of the metrics, whatever the configuration was before.
\<close>

theorem http2_off_by_default:
  assumes "(NewManager opts, a) \<in> set (snd (operator m args))" and "\<And>s v. s \<in> set args \<Longrightarrow> argument s \<noteq> Flag ''enable-http2'' v"
  shows "tls_NextProtos (apply_options (wo_TLSOpts (mgr_WebhookServer opts)) c) = [''http/1.1''] \<and>
    tls_NextProtos (apply_options (mo_TLSOpts (mgr_Metrics opts)) c) = [''http/1.1'']"
proof -
  from assms(1) obtain f where f: "Parse (m_others m) args = Inr f" "NewManager opts \<in> set (planned m f)"
    by (rule called_planned) (simp add: scheme_calls_def)
  from f(2) have opts: "opts = managerOptions f" by (rule planned_manager)
  have "\<not> fl_enableHTTP2 f"
    using parse_flags_http2 [OF f(1) [unfolded Parse_def]] assms(2) by (auto simp: default_flags_def)
  then show ?thesis by (simp add: opts manager_tls tlsOpts_def apply_options_def disableHTTP2_def)
qed

theorem http2_off_by_default_witness:
  "\<exists>opts. (NewManager opts, None) \<in> set (snd (operator quiet_machine [''--leader-elect''])) \<and>
    tls_NextProtos (apply_options (wo_TLSOpts (mgr_WebhookServer opts)) \<lparr>tls_NextProtos = [''h2''], tls_rest = []\<rparr>) = [''http/1.1'']"
proof -
  have p: "Parse (m_others quiet_machine) [''--leader-elect''] = Inr (default_flags\<lparr>fl_enableLeaderElection := True\<rparr>)"
    by (simp add: Parse_def parse_flags.simps(2) argument_def flag_name_def formal_flag_def declared_flags_def ParseBool_def)
  let ?o = "managerOptions (default_flags\<lparr>fl_enableLeaderElection := True\<rparr>)"
  have run: "(NewManager ?o, None) \<in> set (snd (operator quiet_machine [''--leader-elect'']))"
    by (simp add: operator_def init_def main_def p run_manager_def start_manager_def boot_def quiet_answers)
  have "argument ''--leader-elect'' \<noteq> Flag ''enable-http2'' v" for v
    by (simp add: argument_def flag_name_def)
  with http2_off_by_default [OF run, THEN conjunct1] run show ?thesis by auto
qed

text \<open>
  C28: with the arguments and the environment of the deployment in \<open>config/\<close> the manager elects a leader, serves its
  metrics on port 8443 with authentication, and is given the certificates of the webhook; but the
  webhook is never registered, although the deployment tells the API server to ask it.
\<close>

theorem deployment_serves_no_webhook:
  assumes "m_Getenv m ''ENABLE_WEBHOOKS'' = ''false''"
  shows "Parse (m_others m) deployed_args = Inr (default_flags\<lparr>fl_metricsAddr := '':8443'', fl_enableLeaderElection := True,
      fl_webhookCertPath := ''/tmp/k8s-webhook-server/serving-certs''\<rparr>) \<and>
    (SetupWebhook wh, a) \<notin> set (snd (operator m deployed_args))"
proof -
  have "(SetupWebhook wh, a) \<notin> set (snd (operator m deployed_args))"
  proof
    assume "(SetupWebhook wh, a) \<in> set (snd (operator m deployed_args))"
    then obtain f where "SetupWebhook wh \<in> set (planned m f)" by (rule called_planned) (simp add: scheme_calls_def)
    with assms planned_webhook show False by (auto simp: webhooks_enabled_def)
  qed
  moreover have "Parse (m_others m) deployed_args = Inr (default_flags\<lparr>fl_metricsAddr := '':8443'', fl_enableLeaderElection := True,
      fl_webhookCertPath := ''/tmp/k8s-webhook-server/serving-certs''\<rparr>)"
    by (simp add: Parse_def deployed_args_def parse_flags.simps(2) argument_def flag_name_def formal_flag_def declared_flags_def
        ParseBool_def default_flags_def)
  ultimately show ?thesis by simp
qed

theorem deployment_serves_no_webhook_witness:
  "\<forall>wh a. (SetupWebhook wh, a) \<notin> set (snd (operator quiet_machine deployed_args))"
  by (intro allI deployment_serves_no_webhook [THEN conjunct2]) (simp add: quiet_machine_def)

end
