(* ===== verification/Spec2Isabelle.thy ===== *)
theory Spec2Isabelle
  imports Cron_Schedule Task_Webhook Pod_Builder Target_Config_Map Config_Map_Codec Retention Task_Lifecycle Operator_System
    Record_Lifecycle Legacy_Pod_Builder Legacy_Task_Reconciler Record_System Run_Length Access_Rights Deep_Copies Command_Line Start_Up
begin

text \<open>
  A verification library for a Kubernetes operator that runs backups.

  The program.  A user creates a \<open>BackupTask\<close>; the operator keeps a cron job for it, whose jobs run
  the backup agent in a pod, reports their state in the status of the task and deletes old
  \<open>BackupRecord\<close>s.  The repository holds two generations of it.  What \<open>cmd/main.go\<close> starts is the
  package \<open>internal/controller\<close> with the webhook of \<open>internal/webhook/v1alpha1\<close>; the package
  \<open>controllers\<close> is older and is not started, but has the only real controller of backup records.
  Both use the types of \<open>api/v1alpha1\<close>, which also defines validation methods that nothing
  registers.

  The theories, in the order of the imports.

  \<^item> \<open>Go_Prelude\<close>: 32- and 64-bit integers as words, nil pointers as options, the functions of the Go
    library on strings and numbers that the source calls.
  \<^item> \<open>K8s_Types\<close>: the objects of the Kubernetes API with the fields the source names; Go errors.
  \<^item> \<open>Api_Types\<close>: \<open>backuptask_types.go\<close> and \<open>backuprecord_types.go\<close>, a record per struct.
  \<^item> \<open>Cron_Schedule\<close>: \<open>isValidCronSchedule\<close>, with a compiler and a matcher for the regular
    expressions it uses; the accepted language is given exactly.
  \<^item> \<open>Task_Webhook\<close>: defaulting and validation (\<open>api/v1alpha1/backuptask_webhook.go\<close>) and the
    handlers that are registered (\<open>internal/webhook/v1alpha1\<close>); a specification of valid tasks; the
    locale \<open>admission\<close>, interpreted on both.
  \<^item> \<open>Pod_Builder\<close>: the cron job, pod, volumes, mounts and environment of a task
    (\<open>internal/controller/backuptask_controller.go\<close>, from \<open>buildCronJobSpec\<close> down); the locale
    \<open>volume_contract\<close>.
  \<^item> \<open>Legacy_Constants\<close>, \<open>Legacy_Pod_Builder\<close>: the same for \<open>controllers\<close>, with database sidecars and
    the panics on a nil port; the second interpretation of \<open>volume_contract\<close>.
  \<^item> \<open>Target_Config_Map\<close>, \<open>Config_Map_Codec\<close>: \<open>createTargetConfigMap\<close> with the JSON encoding of the
    targets; a reader of that encoding, and that the map loses nothing of what it was made from.
  \<^item> \<open>Retention\<close>: \<open>filterRecordsToDelete\<close>, with the wrap-around of durations and the panic on a
    negative count.
  \<^item> \<open>Cluster_Client\<close>: the calls to the API server as events, the world that answers them, and Go
    functions with effects and panics as functions from the world and the log of events; rules for
    reasoning about runs.
  \<^item> \<open>Protocol\<close>: transition systems on events, what it means that a function follows one, and the
    locale \<open>controller_protocol\<close>, the contract between a reconciler and its protocol.
  \<^item> \<open>Task_Reconciler\<close>, \<open>Task_Protocol\<close>, \<open>Task_Lifecycle\<close>: \<open>Reconcile\<close> of the task controller and all
    it calls; its protocol, and in the locale \<open>task_protocol\<close> the proof that the part which both task
    controllers have in common follows it; the refinement and the safety properties.
  \<^item> \<open>Legacy_Task_Reconciler\<close>: \<open>Reconcile\<close> of the older task controller and all it calls
    (\<open>controllers/backuptask_controller.go\<close>); what it shares with the other one, its protocol as
    the second interpretation of \<open>task_protocol\<close>, and where it panics.
  \<^item> \<open>Operator_System\<close>: the task controller in a cluster.  What each call changes and what the API server
    may answer; users and other controllers between any two calls; runs cut off at any point; the
    invariant of every cluster operated in this way, and what one undisturbed run achieves.
  \<^item> \<open>Record_Reconciler\<close>, \<open>Record_Lifecycle\<close>: the same for the record controller
    (\<open>controllers/backuprecord_controller.go\<close>).
  \<^item> \<open>Record_System\<close>: the record controller in a cluster: what no interleaving of runs and other writers
    changes in a record, and what one undisturbed run achieves.
  \<^item> \<open>Run_Length\<close>: a potential for each of the three protocols (the locale \<open>amortized_protocol\<close>) and the bound
    on the calls of a run that follows.
  \<^item> \<open>Access_Rights\<close>: the markers of the controllers and the roles of \<open>config/rbac\<close>, against the calls
    in the logs of the controllers.
  \<^item> \<open>Go_Memory\<close>, \<open>Deep_Copies\<close>: a memory of cells with pointers, slices and maps, and in it every
    function of \<open>api/v1alpha1/zz_generated.deepcopy.go\<close>, with the types they copy.
  \<^item> \<open>Command_Line\<close>, \<open>Start_Up\<close>: the flags of \<open>cmd/main.go\<close> with \<open>flag.Parse\<close>; the options that \<open>main\<close>
    makes of them, the registrations (\<open>SetupWithManager\<close>, \<open>SetupBackupTaskWebhookWithManager\<close>, the types
    of the API) and the exits.

  How the code is modelled.  A struct is a record with the fields in the order of the source, a Go
  string the list of its bytes, a function a definition with the name it has in the source (parts of
  a long function have names of their own).  The API server, the clock and the functions of other
  packages are fields of the record \<open>world\<close>; every answer may depend on all events before it.  So a
  theorem about all worlds covers failures, stale reads and other writers between any two calls, and
  no property assumes that a write succeeds unless it says so.  A call is recorded with its answer,
  so the log of a run shows the order of its effects; a call that panics is not recorded.  A method call on a nil interface, a nil
  dereference and a slice expression out of range are panics, which end the run.  Loops run over
  finite lists, so all functions are total and no fuel is needed.  Times are integers; durations are
  64-bit words.  The generated copies are about sharing, so they alone are modelled on memory: a value
  is a scalar, a structure, or a reference to a cell; the copies of types of other packages are
  parameters that are assumed to be deep (\<open>externals_ok\<close>).

  What is shown.  For admission: the schedules accepted, the tasks accepted, where errors point, and
  that admission is stable.  For what is built: mounts against volumes, the environment as a faithful
  copy of the retention policy, names that stay distinct and names that collide.  For the retention
  policy: which records survive, and where the limits fail.  For both controllers: every run follows
  the protocol and ends as it prescribes; from the evidence each stage has in the log follow the
  order of effects (the finalizer is stored before the cron job is written and removed after all
  else), the grounds of every write and deletion, and the meaning of every result.  The bound of
  \<open>Run_Length\<close> is ten calls (eight for the older task controller) and two for each record listed, because a
  record under both limits is deleted twice.  For the operator
  in a cluster: no cron job outlives its task or the finalizer, a live task converges in one
  undisturbed run, and a deleted one is cleaned up but for its config map.  For a record: in its lifetime a finished
  status is never changed, and what the controller computes for the specification is never stored.  For the start-up: the order of the
  calls, the exit for every failure, that HTTP/2 is off unless asked for.  For the copies: each returns
  fresh memory that holds the same.  Several theorems state a defect precisely: the missing
  recorder, the unsorted count limit, the lost expiration time, the partly filled ports, the role
  that does not let the controller write config maps, the webhook that the deployment turns off.

  What is not modelled.  Log output and the set-up of the logger; the signal handler.  What the
  framework does with what it is given: the cache, the queue, the watches, the server of the
  webhook.  The test helpers.  The text of floating-point numbers (\<open>w_FormatSeconds\<close>) and of errors
  (\<open>w_ErrorText\<close>), and Unicode beyond ASCII in \<open>strings.ToUpper\<close> (\<open>w_ToUpper\<close>).  A
  \<open>ctrl.CreateOrUpdate\<close> is one event; what it does with the mutation is up to the world, and the one theorem
  that needs more states it (\<open>panics_pass\<close>).  The flags of other packages are a parameter of the
  parser.  In \<open>Operator_System\<close> reads are not stale, a call that fails changes nothing, and the runs for
  one cluster follow each other (one worker).
\<close>

section \<open>Properties that span components\<close>

lemma started_without_recorder:
  assumes "(SetupController c, a) \<in> set (snd (operator m args))" and "ctl_For c = ''BackupTask''"
  shows "\<not> ctl_Recorder c"
proof -
  from assms(1) obtain f where "SetupController c \<in> set (planned m f)"
    by (rule called_planned) (simp add: scheme_calls_def)
  with assms(2) show ?thesis
    by (auto simp: planned_def BackupTask_SetupWithManager_def BackupRecord_SetupWithManager_def
        SetupBackupTaskWebhookWithManager_def split: if_splits)
qed

text \<open>
  C36: the task controller as the start-up registers it turns every failure to write a cron job into a
  panic: its reconciler has no event recorder, so a run that should report the error as an event and
  return it ends in a nil dereference, with no call after the one that failed.
\<close>

theorem started_operator_panics:
  assumes "(SetupController c, None) \<in> set (snd (operator m args))" and "ctl_For c = ''BackupTask''"
    and "w_Recorder w = ctl_Recorder c" and "snd (Reconcile k w []) = xs @ CreateOrUpdateCronJob j (Inl e) # ys"
  shows "fst (Reconcile k w []) = Inl NilDereference \<and> ys = []"
  using missing_recorder_panics [OF _ assms(4)] started_without_recorder [OF assms(1,2)] assms(3) by simp

theorem started_operator_panics_witness:
  "fst (Reconcile (key_of (bt_Meta live_task)) quota_world []) = Inl NilDereference"
proof -
  let ?c = "\<lparr>ctl_For = ''BackupTask'', ctl_Owns = [''CronJob'', ''Job'', ''Pod''], ctl_Named = None, ctl_Recorder = False\<rparr>"
  have p: "Parse (m_others quiet_machine) [] = Inr default_flags" by (simp add: Parse_def)
  have "(SetupController ?c, None) \<in> set (snd (operator quiet_machine []))"
    by (simp add: operator_def init_def main_def p run_manager_def start_manager_def boot_def quiet_answers
        BackupTask_SetupWithManager_def)
  from started_operator_panics [OF this _ _ quota_run] show ?thesis
    by (simp add: quota_world_def live_world_def steady_def)
qed

end
